(* ===== verification/Ldr_Prelude.thy ===== *)
theory Ldr_Prelude
  imports Main "HOL-Library.Word" "HOL-Library.Sublist"
begin

text \<open>
  The shared ground of the development.  It fixes how Go values are read in HOL (machine
  words, strings as byte strings, errors as their message, run-time panics as values),
  gives the result type that every fallible operation returns, the sequencing operators of
  stateful code, Go's truncating integer arithmetic, and the generic interfaces that the
  components instantiate: a resource released by a deferred call, and a machine driven by a
  list of events with its invariants, monotone facts and refinements.
  It models no function of the repository.
\<close>

section \<open>Go values\<close>

type_synonym u8 = "8 word"
type_synonym u16 = "16 word"
type_synonym u32 = "32 word"
type_synonym u64 = "64 word"

text \<open>A Go \<open>string\<close> is a sequence of bytes, and so is the HOL type \<open>string\<close>.\<close>

type_synonym goerr = string

text \<open>The run-time panics that the modelled code can raise.\<close>

datatype panic =
    NilDeref
  | IndexRange
  | SliceBounds
  | DivideByZero
  | Explicit string

text \<open>
  The outcome of a call: a value, a non-nil \<open>error\<close> (known by its message), a panic
  that unwinds the goroutine, or \<open>Blocked\<close>, a channel or lock operation that no other
  goroutine can ever complete.
\<close>

datatype 'a res = Ok 'a | Err goerr | Panic panic | Blocked

named_theorems go_simps \<open>equations of the Go library functions the components share\<close>

section \<open>Sequencing\<close>

fun bind_res :: "'a res \<Rightarrow> ('a \<Rightarrow> 'b res) \<Rightarrow> 'b res" where
  "bind_res (Ok x) f = f x"
| "bind_res (Err e) f = Err e"
| "bind_res (Panic p) f = Panic p"
| "bind_res Blocked f = Blocked"

lemma bind_res_Ok_iff [simp]:
  "bind_res m f = Ok y \<longleftrightarrow> (\<exists>x. m = Ok x \<and> f x = Ok y)"
  by (cases m) auto

lemma bind_res_Err_iff:
  "bind_res m f = Err e \<longleftrightarrow> m = Err e \<or> (\<exists>x. m = Ok x \<and> f x = Err e)"
  by (cases m) auto

lemma bind_res_assoc: "bind_res (bind_res m f) g = bind_res m (\<lambda>x. bind_res (f x) g)"
  by (cases m) auto

fun is_ok :: "'a res \<Rightarrow> bool" where
  "is_ok (Ok x) = True"
| "is_ok (Err e) = False"
| "is_ok (Panic p) = False"
| "is_ok Blocked = False"

text \<open>
  Stateful code takes the state of the world and returns the outcome with the new state;
  an error or a panic keeps the state reached so far.
\<close>

type_synonym ('s, 'a) io = "'s \<Rightarrow> 'a res \<times> 's"

definition ret :: "'a \<Rightarrow> ('s, 'a) io" where
  "ret x s = (Ok x, s)"

definition fail :: "goerr \<Rightarrow> ('s, 'a) io" where
  "fail e s = (Err e, s)"

definition bind_io :: "('s, 'a) io \<Rightarrow> ('a \<Rightarrow> ('s, 'b) io) \<Rightarrow> ('s, 'b) io" where
  "bind_io m f s =
     (case m s of
        (Ok x, s') \<Rightarrow> f x s'
      | (Err e, s') \<Rightarrow> (Err e, s')
      | (Panic p, s') \<Rightarrow> (Panic p, s')
      | (Blocked, s') \<Rightarrow> (Blocked, s'))"

lemma ret_apply [simp]: "ret x s = (Ok x, s)"
  by (simp add: ret_def)

lemma fail_apply [simp]: "fail e s = (Err e, s)"
  by (simp add: fail_def)

lemma bind_io_Ok [simp]: "m s = (Ok x, s') \<Longrightarrow> bind_io m f s = f x s'"
  by (simp add: bind_io_def)

lemma bind_io_Err [simp]: "m s = (Err e, s') \<Longrightarrow> bind_io m f s = (Err e, s')"
  by (simp add: bind_io_def)

lemma bind_io_Panic [simp]: "m s = (Panic p, s') \<Longrightarrow> bind_io m f s = (Panic p, s')"
  by (simp add: bind_io_def)

lemma bind_io_Blocked [simp]: "m s = (Blocked, s') \<Longrightarrow> bind_io m f s = (Blocked, s')"
  by (simp add: bind_io_def)

lemma bind_io_cong:
  "m s = m' s \<Longrightarrow> (\<And>x s'. f x s' = f' x s') \<Longrightarrow> bind_io m f s = bind_io m' f' s"
  by (simp add: bind_io_def cong: res.case_cong)

lemma bind_io_Ok_E:
  assumes "bind_io m f s = (Ok y, t)"
  obtains x s' where "m s = (Ok x, s')" and "f x s' = (Ok y, t)"
  using assms by (auto simp: bind_io_def split: prod.splits res.splits)

text \<open>\<open>defer cleanup(...)\<close>: the cleanup runs however the body ends, and its error is dropped.\<close>

definition defer_io :: "('s, 'b) io \<Rightarrow> ('s, 'a) io \<Rightarrow> ('s, 'a) io" where
  "defer_io cleanup body s = (let (r, s') = body s in (r, snd (cleanup s')))"

text \<open>
  The contract of a resource that is acquired, used and released by a deferred call: if the
  acquisition fails nothing is held, and the release undoes it whatever happened between.
  Code of this shape leaves what is held as it found it.
\<close>

locale bracket =
  fixes acquire :: "('s, 'd) io"
    and release :: "'d \<Rightarrow> ('s, unit) io"
    and held :: "'s \<Rightarrow> 'h"
  assumes acquire_fails: "acquire s = (r, s') \<Longrightarrow> \<not> is_ok r \<Longrightarrow> held s' = held s"
    and released: "acquire s = (Ok d, s1) \<Longrightarrow> held s2 = held s1 \<Longrightarrow> held (snd (release d s2)) = held s"
begin

lemma deferred_release:
  assumes "\<And>d s. held (snd (body d s)) = held s"
  shows "held (snd (bind_io acquire (\<lambda>d. defer_io (release d) (body d)) s)) = held s"
proof (cases "acquire s")
  case (Pair r s1)
  show ?thesis
  proof (cases r)
    case (Ok d)
    have "held (snd (body d s1)) = held s1" by (rule assms)
    then have "held (snd (release d (snd (body d s1)))) = held s"
      using Pair Ok by (intro released) auto
    with Pair Ok show ?thesis by (cases "body d s1") (simp add: defer_io_def)
  qed (use Pair acquire_fails in \<open>auto simp: bind_io_def\<close>)
qed

end

section \<open>Integers\<close>

text \<open>
  Go's \<open>/\<close> and \<open>%\<close> truncate towards zero; \<open>int\<close> and C's \<open>long long\<close> are 64-bit
  two's complement and wrap.
\<close>

definition go_quot :: "int \<Rightarrow> int \<Rightarrow> int" where
  "go_quot a b = sgn a * sgn b * (\<bar>a\<bar> div \<bar>b\<bar>)"

definition go_rem :: "int \<Rightarrow> int \<Rightarrow> int" where
  "go_rem a b = a - b * go_quot a b"

definition wrap_i64 :: "int \<Rightarrow> int" where
  "wrap_i64 x = (x + 2 ^ 63) mod 2 ^ 64 - 2 ^ 63"

lemma wrap_i64_id: "- (2 ^ 63) \<le> x \<Longrightarrow> x < 2 ^ 63 \<Longrightarrow> wrap_i64 x = x"
  by (simp add: wrap_i64_def)

lemma go_quot_nonneg [simp]: "0 \<le> a \<Longrightarrow> 0 \<le> b \<Longrightarrow> go_quot a b = a div b"
  by (cases "a = 0"; cases "b = 0") (auto simp: go_quot_def sgn_if)

lemma go_rem_nonneg [simp]: "0 \<le> a \<Longrightarrow> 0 \<le> b \<Longrightarrow> go_rem a b = a mod b"
  by (simp add: go_rem_def minus_mult_div_eq_mod)

lemma go_rem_abs: "\<bar>go_rem a b\<bar> = \<bar>a\<bar> mod \<bar>b\<bar>"
proof -
  have "go_rem a b = sgn a * (\<bar>a\<bar> - \<bar>b\<bar> * (\<bar>a\<bar> div \<bar>b\<bar>))"
    by (cases "b = 0") (auto simp: go_rem_def go_quot_def sgn_if algebra_simps)
  then have "go_rem a b = sgn a * (\<bar>a\<bar> mod \<bar>b\<bar>)"
    by (simp add: minus_mult_div_eq_mod)
  then show ?thesis by (cases "a = 0"; cases "b = 0") (auto simp: abs_mult)
qed

section \<open>The interface of an event-driven component\<close>

text \<open>
  A component that reacts to events is a step function.  Its run over an event list and
  the lifting of one-step facts to runs are proved once, for any step function and any
  invariant the step keeps.
\<close>

fun run :: "('s \<Rightarrow> 'e \<Rightarrow> 's) \<Rightarrow> 's \<Rightarrow> 'e list \<Rightarrow> 's" where
  "run step s [] = s"
| "run step s (e # es) = run step (step s e) es"

lemma run_append [simp]: "run step s (xs @ ys) = run step (run step s xs) ys"
  by (induction xs arbitrary: s) auto

locale invariant_machine =
  fixes step :: "'s \<Rightarrow> 'e \<Rightarrow> 's"
    and inv :: "'s \<Rightarrow> bool"
  assumes step_inv: "inv s \<Longrightarrow> inv (step s e)"
begin

lemma run_inv: "inv s \<Longrightarrow> inv (run step s es)"
  by (induction es arbitrary: s) (auto intro: step_inv)

lemma run_inv_prefix: "inv s \<Longrightarrow> inv (run step s (take n es))"
  by (rule run_inv)

end

text \<open>
  A refinement: an abstraction of the states under which each step of the machine is a step
  of the specification, so that runs are paths of the specification.
\<close>

locale refinement_map = invariant_machine step inv
  for step :: "'s \<Rightarrow> 'e \<Rightarrow> 's" and inv :: "'s \<Rightarrow> bool" +
  fixes abst :: "'s \<Rightarrow> 'a"
    and spec :: "'a \<Rightarrow> 'a \<Rightarrow> bool"
  assumes simulates: "inv s \<Longrightarrow> spec (abst s) (abst (step s e))"
begin

lemma run_simulates: "inv s \<Longrightarrow> spec\<^sup>*\<^sup>* (abst s) (abst (run step s es))"
proof (induction es arbitrary: s)
  case (Cons e es)
  have "spec\<^sup>*\<^sup>* (abst (step s e)) (abst (run step (step s e) es))"
    using Cons.prems by (intro Cons.IH step_inv)
  with simulates [OF Cons.prems, of e] show ?case by simp
qed simp

end

text \<open>A relation between two states that is reflexive, transitive and kept by each step.\<close>

locale monotone_machine =
  fixes step :: "'s \<Rightarrow> 'e \<Rightarrow> 's"
    and rel :: "'s \<Rightarrow> 's \<Rightarrow> bool"
  assumes rel_refl: "rel s s"
    and rel_trans: "rel s t \<Longrightarrow> rel t u \<Longrightarrow> rel s u"
    and step_rel: "rel s (step s e)"
begin

lemma run_rel: "rel s (run step s es)"
proof (induction es arbitrary: s)
  case Nil
  show ?case by (simp add: rel_refl)
next
  case (Cons e es)
  have "rel (step s e) (run step (step s e) es)" by (rule Cons.IH)
  with step_rel [of s e] show ?case by (auto intro: rel_trans)
qed

end

end
