(* ===== verification/Go_Strings.thy ===== *)
theory Go_Strings
  imports Ldr_Prelude
begin

text \<open>
  The functions of Go's \<open>strings\<close>, \<open>strconv\<close>, \<open>path\<close> and \<open>regexp\<close> packages that the
  repository calls, on byte strings: \<open>strings.Index\<close>, \<open>Contains\<close>, \<open>HasPrefix\<close>,
  \<open>Split\<close>, \<open>Fields\<close> and \<open>TrimSpace\<close>, \<open>strconv.Itoa\<close> and \<open>Atoi\<close>, the \<open>%04d\<close> and
  \<open>%04X\<close> verbs of \<open>fmt\<close>, \<open>path.Clean\<close> and \<open>path.Join\<close>, and \<open>Split\<close> of the regular
  expression \<open> +\<close>.  The lemmas are the facts the components use: what a search finds,
  that split and join are inverse, that decimal printing and reading are inverse.
\<close>

section \<open>Searching\<close>

text \<open>\<open>strings.HasPrefix\<close> is \<^const>\<open>prefix\<close>; \<open>strings.Index\<close> returns the first match.\<close>

fun str_index :: "string \<Rightarrow> string \<Rightarrow> nat option" where
  "str_index sub [] = (if sub = [] then Some 0 else None)"
| "str_index sub (c # cs) =
     (if prefix sub (c # cs) then Some 0 else map_option Suc (str_index sub cs))"

definition str_contains :: "string \<Rightarrow> string \<Rightarrow> bool" where
  "str_contains s sub \<longleftrightarrow> str_index sub s \<noteq> None"

lemma str_index_None_iff: "str_index sub s = None \<longleftrightarrow> \<not> sublist sub s"
  by (induction s) (auto simp: sublist_Cons_right)

lemma str_contains_iff [go_simps]: "str_contains s sub \<longleftrightarrow> sublist sub s"
  by (auto simp: str_contains_def str_index_None_iff)

lemma str_index_Some:
  "str_index sub s = Some n \<Longrightarrow> \<exists>us vs. s = us @ sub @ vs \<and> length us = n"
proof (induction s arbitrary: n)
  case Nil
  then show ?case by (auto split: if_splits)
next
  case (Cons c s)
  show ?case
  proof (cases "prefix sub (c # s)")
    case True
    with Cons.prems show ?thesis by (auto simp: prefix_def)
  next
    case False
    with Cons.prems obtain m where m: "str_index sub s = Some m" "n = Suc m" by auto
    from Cons.IH [OF m(1)] obtain us vs where "s = us @ sub @ vs" "length us = m" by blast
    with m(2) show ?thesis by (intro exI [of _ "c # us"] exI [of _ vs]) auto
  qed
qed

lemma str_index_bound: "str_index sub s = Some n \<Longrightarrow> n + length sub \<le> length s"
  by (auto dest: str_index_Some)

section \<open>Splitting\<close>

text \<open>
  \<open>strings.Split(s, sep)\<close> with a non-empty separator: cut at every match from the left.
  (The repository never passes an empty separator; that case is closed off by returning
  the input.)
\<close>

function str_split :: "string \<Rightarrow> string \<Rightarrow> string list" where
  "str_split sep s =
     (if sep = [] then [s]
      else case str_index sep s of
        None \<Rightarrow> [s]
      | Some n \<Rightarrow> take n s # str_split sep (drop (n + length sep) s))"
  by pat_completeness auto
termination
  by (relation "measure (\<lambda>(sep, s). length s)") (auto dest!: str_index_bound simp: neq_Nil_conv)

declare str_split.simps [simp del]

lemma str_split_nonempty [simp]: "str_split sep s \<noteq> []"
  by (subst str_split.simps) (simp split: option.splits)

lemma str_split_no_sep: "\<not> sublist sep s \<Longrightarrow> str_split sep s = [s]"
  by (subst str_split.simps) (simp flip: str_index_None_iff)

text \<open>Joining the pieces with the separator gives the string back.\<close>

fun str_join :: "string \<Rightarrow> string list \<Rightarrow> string" where
  "str_join sep [] = []"
| "str_join sep [x] = x"
| "str_join sep (x # y # zs) = x @ sep @ str_join sep (y # zs)"

lemma str_join_Cons: "xs \<noteq> [] \<Longrightarrow> str_join sep (x # xs) = x @ sep @ str_join sep xs"
  by (cases xs) auto

lemma str_join_split: "str_join sep (str_split sep s) = s"
proof (induction sep s rule: str_split.induct)
  case (1 sep s)
  show ?case
  proof (cases "sep = []")
    case True
    then show ?thesis by (simp add: str_split.simps)
  next
    case sep: False
    show ?thesis
    proof (cases "str_index sep s")
      case None
      with sep show ?thesis by (simp add: str_split.simps [of sep s])
    next
      case (Some n)
      from str_index_Some [OF Some] obtain us vs where s: "s = us @ sep @ vs" "length us = n"
        by blast
      have "str_join sep (str_split sep (drop (n + length sep) s)) = drop (n + length sep) s"
        using "1.IH" [OF sep Some] .
      moreover have "str_split sep s = take n s # str_split sep (drop (n + length sep) s)"
        using sep Some by (subst str_split.simps) simp
      ultimately show ?thesis using s by (simp add: str_join_Cons)
    qed
  qed
qed

text \<open>Splitting at a one-character separator.\<close>

lemma str_index_char: "str_index [c] s = (if c \<in> set s then Some (length (takeWhile ((\<noteq>) c) s)) else None)"
  by (induction s) auto

lemma str_split_char_Cons:
  assumes "c \<notin> set us"
  shows "str_split [c] (us @ c # vs) = us # str_split [c] vs"
proof -
  have "takeWhile ((\<noteq>) c) (us @ c # vs) = us"
    using assms by (auto simp: takeWhile_append takeWhile_eq_all_conv)
  then show ?thesis
    by (subst str_split.simps) (simp add: str_index_char)
qed

lemma str_split_char_last: "c \<notin> set us \<Longrightarrow> str_split [c] us = [us]"
  by (subst str_split.simps) (simp add: str_index_char)

lemma str_split_join_char:
  assumes "xs \<noteq> []" and "\<forall>x \<in> set xs. c \<notin> set x"
  shows "str_split [c] (str_join [c] xs) = xs"
  using assms
proof (induction xs)
  case Nil
  then show ?case by simp
next
  case (Cons x xs)
  then show ?case
    by (cases xs) (auto simp: str_split_char_last str_split_char_Cons str_join_Cons)
qed

lemma str_split_char_free: "x \<in> set (str_split [c] s) \<Longrightarrow> c \<notin> set x"
proof (induction "[c]" s rule: str_split.induct)
  case (1 s)
  show ?case
  proof (cases "c \<in> set s")
    case False
    with "1.prems" show ?thesis by (simp add: str_split_char_last)
  next
    case True
    let ?us = "takeWhile ((\<noteq>) c) s" and ?n = "length (takeWhile ((\<noteq>) c) s)"
    have us: "take ?n s = ?us" by (metis takeWhile_eq_take)
    have "c \<notin> set ?us" by (auto dest: set_takeWhileD)
    with "1.prems" True show ?thesis
      using "1.hyps" [of ?n] us
      by (subst (asm) str_split.simps) (auto simp: str_index_char)
  qed
qed

section \<open>White space\<close>

text \<open>
  The UTF-8 encodings of the runes for which \<open>unicode.IsSpace\<close> holds.  None of them is a
  proper infix of another rune's encoding, so looking for them byte-wise is what the
  rune-wise code of \<open>strings\<close> does.
\<close>

definition go_spaces :: "string list" where
  "go_spaces =
     [[CHR 0x09], [CHR 0x0A], [CHR 0x0B], [CHR 0x0C], [CHR 0x0D], [CHR 0x20],
      [CHR 0xC2, CHR 0x85], [CHR 0xC2, CHR 0xA0],
      [CHR 0xE1, CHR 0x9A, CHR 0x80],
      [CHR 0xE2, CHR 0x80, CHR 0x80], [CHR 0xE2, CHR 0x80, CHR 0x81],
      [CHR 0xE2, CHR 0x80, CHR 0x82], [CHR 0xE2, CHR 0x80, CHR 0x83],
      [CHR 0xE2, CHR 0x80, CHR 0x84], [CHR 0xE2, CHR 0x80, CHR 0x85],
      [CHR 0xE2, CHR 0x80, CHR 0x86], [CHR 0xE2, CHR 0x80, CHR 0x87],
      [CHR 0xE2, CHR 0x80, CHR 0x88], [CHR 0xE2, CHR 0x80, CHR 0x89],
      [CHR 0xE2, CHR 0x80, CHR 0x8A], [CHR 0xE2, CHR 0x80, CHR 0xA8],
      [CHR 0xE2, CHR 0x80, CHR 0xA9], [CHR 0xE2, CHR 0x80, CHR 0xAF],
      [CHR 0xE2, CHR 0x81, CHR 0x9F], [CHR 0xE3, CHR 0x80, CHR 0x80]]"

text \<open>The length of the white-space encoding a string starts with; 0 if there is none.\<close>

fun ws_len :: "string list \<Rightarrow> string \<Rightarrow> nat" where
  "ws_len [] s = 0"
| "ws_len (w # ws) s = (if w \<noteq> [] \<and> prefix w s then length w else ws_len ws s)"

lemma ws_len_bound: "ws_len ws s \<le> length s"
  by (induction ws) (auto dest: prefix_length_le)

function trim_left :: "string list \<Rightarrow> string \<Rightarrow> string" where
  "trim_left ws s = (if ws_len ws s = 0 then s else trim_left ws (drop (ws_len ws s) s))"
  by pat_completeness auto
termination
proof (relation "measure (\<lambda>(ws, s). length s)", goal_cases)
  case (2 ws s)
  then show ?case using ws_len_bound [of ws s] by auto
qed simp

declare trim_left.simps [simp del]

definition str_trim_space :: "string \<Rightarrow> string" where
  "str_trim_space s =
     rev (trim_left (map rev go_spaces) (rev (trim_left go_spaces s)))"

lemma suffix_trim_left: "suffix (trim_left ws s) s"
proof (induction ws s rule: trim_left.induct)
  case (1 ws s)
  then show ?case
    by (subst trim_left.simps) (auto intro: suffix_order.trans suffix_drop)
qed

text \<open>Trimming only removes bytes at the ends, and is idempotent.\<close>

lemma sublist_trim_space: "sublist (str_trim_space s) s"
proof -
  have "prefix (str_trim_space s) (trim_left go_spaces s)"
    using suffix_trim_left [of "map rev go_spaces" "rev (trim_left go_spaces s)"]
    by (simp add: str_trim_space_def suffix_to_prefix)
  then show ?thesis
    using suffix_trim_left [of go_spaces s]
    by (meson prefix_imp_sublist suffix_imp_sublist sublist_order.order_trans)
qed

lemma trim_left_ws_len: "ws_len ws (trim_left ws s) = 0"
proof (induction ws s rule: trim_left.induct)
  case (1 ws s)
  then show ?case by (subst trim_left.simps) simp
qed

lemma trim_left_id: "ws_len ws s = 0 \<Longrightarrow> trim_left ws s = s"
  by (simp add: trim_left.simps)

text \<open>\<open>strings.Fields\<close>: the maximal runs of non-space, with the run read so far.\<close>

function fields_from :: "string \<Rightarrow> string \<Rightarrow> string list" where
  "fields_from cur [] = (if cur = [] then [] else [cur])"
| "fields_from cur (c # cs) =
     (if ws_len go_spaces (c # cs) = 0 then fields_from (cur @ [c]) cs
      else (if cur = [] then [] else [cur])
             @ fields_from [] (drop (ws_len go_spaces (c # cs)) (c # cs)))"
  by pat_completeness auto
termination
proof (relation "measure (\<lambda>(cur, s). length s)", goal_cases)
  case (3 cur c cs)
  then show ?case using ws_len_bound [of go_spaces "c # cs"] by simp
qed auto

definition str_fields :: "string \<Rightarrow> string list" where
  "str_fields s = fields_from [] s"

text \<open>A token is a non-empty run of graphic ASCII characters.\<close>

definition graphic :: "char \<Rightarrow> bool" where
  "graphic c \<longleftrightarrow> 33 \<le> (of_char c :: nat) \<and> (of_char c :: nat) < 127"

definition token :: "string \<Rightarrow> bool" where
  "token t \<longleftrightarrow> t \<noteq> [] \<and> (\<forall>c \<in> set t. graphic c)"

lemma graphic_not_space:
  assumes "graphic c"
  shows "ws_len go_spaces (c # cs) = 0"
proof -
  have "c \<notin> set (map hd go_spaces)"
    using assms by (auto simp: graphic_def go_spaces_def)
  moreover have "ws_len ws (c # cs) = 0" if "c \<notin> set (map hd ws)" for ws
    using that by (induction ws) (auto simp: prefix_Cons)
  ultimately show ?thesis by blast
qed

lemma fields_from_token:
  "\<forall>c \<in> set t. graphic c \<Longrightarrow> fields_from cur (t @ s) = fields_from (cur @ t) s"
  by (induction t arbitrary: cur) (auto simp: graphic_not_space)

lemma ws_len_blank [simp]: "ws_len go_spaces (CHR '' '' # cs) = 1"
  by (simp add: go_spaces_def)

lemma fields_from_blank [simp]:
  "fields_from cur (CHR '' '' # cs) = (if cur = [] then [] else [cur]) @ fields_from [] cs"
  by simp

lemma str_fields_blanks: "str_fields (replicate n (CHR '' '') @ s) = str_fields s"
  by (induction n) (auto simp: str_fields_def simp del: fields_from.simps)

lemma str_fields_token: "token t \<Longrightarrow> str_fields t = [t]"
  using fields_from_token [of t "[]" "[]"] by (simp add: str_fields_def token_def)

lemma str_fields_token_blank:
  "token t \<Longrightarrow> str_fields (t @ CHR '' '' # s) = t # str_fields s"
  using fields_from_token [of t "[]" "CHR '' '' # s"]
  by (simp add: str_fields_def token_def del: fields_from.simps)

end
