(* ===== verification/Go_Fmt.thy ===== *)
theory Go_Fmt
  imports Go_Strings
begin

text \<open>
  Numbers and paths as text: \<open>strconv.Itoa\<close> and \<open>Atoi\<close>, the verbs \<open>%d\<close>, \<open>%04d\<close> and
  \<open>%04X\<close> of \<open>fmt.Sprintf\<close>, \<open>path.Clean\<close> and \<open>path.Join\<close>, and the \<open>Split\<close> method of
  the regular expression \<open> +\<close>.  The lemmas give the value of a printed number, the
  round trip of \<open>Atoi\<close> and \<open>Itoa\<close>, and when decimal and hexadecimal printing agree.
\<close>

section \<open>Printing numbers\<close>

definition digit_char :: "nat \<Rightarrow> char" where
  "digit_char d = (if d < 10 then char_of (48 + d) else char_of (55 + d))"

definition digit_val :: "char \<Rightarrow> nat" where
  "digit_val c = (if of_char c < (58::nat) then of_char c - 48 else of_char c - 55)"

lemma digit_val_char [simp]: "d < 16 \<Longrightarrow> digit_val (digit_char d) = d"
  by (auto simp: digit_val_def digit_char_def take_bit_eq_mod of_char_of)

text \<open>\<open>num_str b n\<close> prints \<open>n\<close> in base \<open>b\<close> with upper-case digits.\<close>

fun num_str :: "nat \<Rightarrow> nat \<Rightarrow> string" where
  "num_str b n =
     (if n < b \<or> b < 2 then [digit_char n]
      else num_str b (n div b) @ [digit_char (n mod b)])"

declare num_str.simps [simp del]

definition num_val :: "nat \<Rightarrow> string \<Rightarrow> nat" where
  "num_val b s = foldl (\<lambda>a c. a * b + digit_val c) 0 s"

lemma num_val_snoc [simp]: "num_val b (s @ [c]) = num_val b s * b + digit_val c"
  by (simp add: num_val_def)

lemma num_val_num_str: "2 \<le> b \<Longrightarrow> b \<le> 16 \<Longrightarrow> num_val b (num_str b n) = n"
proof (induction b n rule: num_str.induct)
  case (1 b n)
  show ?case
  proof (cases "n < b")
    case True
    with "1.prems" show ?thesis by (subst num_str.simps) (simp add: num_val_def)
  next
    case False
    have "n mod b < b" using "1.prems" by simp
    with "1.prems" have "n mod b < 16" by linarith
    with False "1.prems" "1.IH" show ?thesis
      by (subst num_str.simps) simp
  qed
qed

lemma hex_digit_step: "n div 10 \<le> x \<Longrightarrow> n \<le> x * 16 + n mod (10::nat)"
  using div_mult_mod_eq [of n 10] by linarith

lemma hex_digit_step_less: "n div 10 \<le> x \<Longrightarrow> 10 \<le> n \<Longrightarrow> n < x * 16 + n mod (10::nat)"
  using div_mult_mod_eq [of n 10] by linarith

lemma num_str_inject: "2 \<le> b \<Longrightarrow> b \<le> 16 \<Longrightarrow> num_str b m = num_str b n \<longleftrightarrow> m = n"
  by (metis num_val_num_str)

lemma num_str_nonempty [simp]: "num_str b n \<noteq> []"
  by (subst num_str.simps) simp

definition is_digit :: "char \<Rightarrow> bool" where
  "is_digit c \<longleftrightarrow> 48 \<le> (of_char c :: nat) \<and> (of_char c :: nat) \<le> 57"

lemma is_digit_char [simp]: "d < 10 \<Longrightarrow> is_digit (digit_char d)"
  by (simp add: is_digit_def digit_char_def take_bit_eq_mod of_char_of)

lemma num_str_digits: "c \<in> set (num_str 10 n) \<Longrightarrow> is_digit c"
proof (induction "10::nat" n rule: num_str.induct)
  case (1 n)
  show ?case
  proof (cases "n < 10")
    case True
    with "1.prems" show ?thesis by (simp add: num_str.simps [of 10 n])
  next
    case False
    with "1.prems" "1.hyps" show ?thesis by (auto simp: num_str.simps [of 10 n])
  qed
qed

text \<open>A decimal number, read as hexadecimal, is itself only below ten.\<close>

lemma num_val_hex_ge: "n \<le> num_val 16 (num_str 10 n)"
proof (induction "10::nat" n rule: num_str.induct)
  case (1 n)
  show ?case
  proof (cases "n < 10")
    case True
    then show ?thesis by (subst num_str.simps) (simp add: num_val_def)
  next
    case False
    with "1.hyps" have "n div 10 \<le> num_val 16 (num_str 10 (n div 10))" by simp
    then have "n \<le> num_val 16 (num_str 10 (n div 10)) * 16 + n mod 10"
      by (rule hex_digit_step)
    with False show ?thesis by (subst num_str.simps) simp
  qed
qed

lemma num_val_hex_eq_iff: "num_val 16 (num_str 10 n) = n \<longleftrightarrow> n < 10"
proof (cases "n < 10")
  case True
  then show ?thesis by (subst num_str.simps) (simp add: num_val_def)
next
  case False
  have "n div 10 \<le> num_val 16 (num_str 10 (n div 10))" by (rule num_val_hex_ge)
  then have "n < num_val 16 (num_str 10 (n div 10)) * 16 + n mod 10"
    using False by (intro hex_digit_step_less) simp_all
  with False have "n < num_val 16 (num_str 10 n)" by (subst num_str.simps) simp
  with False show ?thesis by simp
qed

text \<open>The verbs \<open>%04d\<close> and \<open>%04X\<close> on an unsigned value.\<close>

definition pad4 :: "string \<Rightarrow> string" where
  "pad4 s = replicate (4 - length s) (CHR ''0'') @ s"

definition fmt_04d :: "nat \<Rightarrow> string" where
  "fmt_04d n = pad4 (num_str 10 n)"

definition fmt_04X :: "nat \<Rightarrow> string" where
  "fmt_04X n = pad4 (num_str 16 n)"

lemma num_val_pad4 [simp]: "num_val b (pad4 s) = num_val b s"
proof -
  have "foldl (\<lambda>a c. a * b + digit_val c) 0 (replicate k (CHR ''0'') @ s)
      = foldl (\<lambda>a c. a * b + digit_val c) 0 s" for k
    by (induction k) (auto simp: digit_val_def)
  then show ?thesis by (simp add: num_val_def pad4_def)
qed

lemma num_val_fmt_04d [simp]: "num_val 10 (fmt_04d n) = n"
  by (simp add: fmt_04d_def num_val_num_str)

lemma num_val_fmt_04X [simp]: "num_val 16 (fmt_04X n) = n"
  by (simp add: fmt_04X_def num_val_num_str)

lemma fmt_04d_inject: "fmt_04d m = fmt_04d n \<longleftrightarrow> m = n"
  by (metis num_val_fmt_04d)

lemma fmt_04d_eq_04X_iff: "fmt_04d n = fmt_04X n \<longleftrightarrow> n < 10"
proof
  assume "fmt_04d n = fmt_04X n"
  then have "num_val 16 (num_str 10 n) = n"
    by (metis fmt_04d_def num_val_fmt_04X num_val_pad4)
  then show "n < 10" by (simp add: num_val_hex_eq_iff)
next
  assume "n < 10"
  then have "num_str 10 n = num_str 16 n" by (simp add: num_str.simps)
  then show "fmt_04d n = fmt_04X n" by (simp add: fmt_04d_def fmt_04X_def)
qed

section \<open>Itoa and Atoi\<close>

definition str_itoa :: "int \<Rightarrow> string" where
  "str_itoa n = (if n < 0 then CHR ''-'' # num_str 10 (nat (- n)) else num_str 10 (nat n))"

text \<open>\<open>strconv.Atoi\<close>: an optional sign, digits only, and a value that fits 64 bits.\<close>

definition str_atoi :: "string \<Rightarrow> int option" where
  "str_atoi s =
     (let neg = (s \<noteq> [] \<and> hd s = CHR ''-'');
          ds = (if s \<noteq> [] \<and> (hd s = CHR ''-'' \<or> hd s = CHR ''+'') then tl s else s);
          v = (if neg then - int (num_val 10 ds) else int (num_val 10 ds))
      in if ds \<noteq> [] \<and> list_all is_digit ds \<and> - (2 ^ 63) \<le> v \<and> v < 2 ^ 63
         then Some v else None)"

lemma num_str_hd_digit: "is_digit (hd (num_str 10 n))"
  by (rule num_str_digits [of _ n]) simp

lemma str_atoi_itoa:
  assumes "- (2 ^ 63) \<le> n" and "n < 2 ^ 63"
  shows "str_atoi (str_itoa n) = Some n"
proof (cases "n < 0")
  case True
  with assms show ?thesis
    by (auto simp: str_atoi_def str_itoa_def num_val_num_str list_all_iff num_str_digits Let_def)
next
  case False
  have "hd (num_str 10 (nat n)) \<noteq> CHR ''-'' \<and> hd (num_str 10 (nat n)) \<noteq> CHR ''+''"
    using num_str_hd_digit [of "nat n"] by (auto simp: is_digit_def)
  with False assms show ?thesis
    by (auto simp: str_atoi_def str_itoa_def num_val_num_str list_all_iff num_str_digits Let_def)
qed

lemma digit_graphic: "is_digit c \<Longrightarrow> graphic c"
  by (simp add: is_digit_def graphic_def)

lemma token_itoa [simp]: "token (str_itoa n)"
  by (auto simp: token_def str_itoa_def dest!: num_str_digits intro: digit_graphic)
     (simp add: graphic_def)+

section \<open>Paths\<close>

text \<open>
  \<open>path.Clean\<close>: the components of the path, with empty ones and \<open>.\<close> dropped and each
  \<open>..\<close> cancelling the component before it; a rooted path cannot climb above its root, a
  relative one keeps the \<open>..\<close> that have nothing to cancel.
\<close>

fun clean_comps :: "bool \<Rightarrow> string list \<Rightarrow> string list \<Rightarrow> string list" where
  "clean_comps rooted out [] = rev out"
| "clean_comps rooted out (c # cs) =
     (if c = [] \<or> c = ''.'' then clean_comps rooted out cs
      else if c = ''..'' then
        (case out of
           [] \<Rightarrow> clean_comps rooted (if rooted then [] else [c]) cs
         | p # ps \<Rightarrow> clean_comps rooted (if p = ''..'' then c # out else ps) cs)
      else clean_comps rooted (c # out) cs)"

definition path_clean :: "string \<Rightarrow> string" where
  "path_clean p =
     (let rooted = (p \<noteq> [] \<and> hd p = CHR ''/'');
          body = str_join ''/'' (clean_comps rooted [] (str_split ''/'' p));
          r = (if rooted then CHR ''/'' # body else body)
      in if r = [] then ''.'' else r)"

text \<open>\<open>path.Join\<close>: the non-empty elements joined by slashes, then cleaned.\<close>

fun join_elems :: "string \<Rightarrow> string list \<Rightarrow> string" where
  "join_elems buf [] = buf"
| "join_elems buf (e # es) =
     (if buf \<noteq> [] then join_elems (buf @ CHR ''/'' # e) es else join_elems e es)"

definition path_join :: "string list \<Rightarrow> string" where
  "path_join es = (let b = join_elems [] es in if b = [] then [] else path_clean b)"

lemma clean_comps_append:
  assumes "\<forall>c \<in> set cs. c \<noteq> ''..''"
  shows "clean_comps r out cs = rev out @ filter (\<lambda>c. c \<noteq> [] \<and> c \<noteq> ''.'') cs"
  using assms by (induction cs arbitrary: out) auto

section \<open>Splitting at runs of blanks\<close>

text \<open>\<open>regexp.MustCompile(" +").Split(s, -1)\<close>.\<close>

function re_split_blanks :: "string \<Rightarrow> string list" where
  "re_split_blanks s =
     (let h = takeWhile (\<lambda>c. c \<noteq> CHR '' '') s; r = dropWhile (\<lambda>c. c \<noteq> CHR '' '') s
      in if r = [] then [h]
         else h # re_split_blanks (dropWhile (\<lambda>c. c = CHR '' '') r))"
  by pat_completeness auto
termination
proof (relation "measure length", goal_cases)
  case (2 s h r)
  then have "r \<noteq> []" "length r \<le> length s" by (auto simp: length_dropWhile_le)
  moreover have "hd r = CHR '' ''"
    using 2 by (metis (mono_tags, lifting) hd_dropWhile)
  ultimately show ?case
    using length_dropWhile_le [of "\<lambda>c. c = CHR '' ''" "tl r"]
    by (cases r) auto
qed simp

declare re_split_blanks.simps [simp del]

end
