(* ===== verification/Go_Bytes.thy ===== *)
theory Go_Bytes
  imports Go_Fmt
begin

text \<open>
  Byte slices: the fixed-width readers and writers of \<open>encoding/binary\<close> with their bounds
  checks, slicing and \<open>copy\<close>, \<open>utf16.Decode\<close>, the conversion of runes to a string, and
  \<open>hex.EncodeToString\<close>.  A locale states the contract of a fixed-width field; the 16-, 32-
  and 64-bit little-endian fields are its instances.
\<close>

section \<open>Slices\<close>

text \<open>\<open>b[i:]\<close> and \<open>b[i:j]\<close> of a slice whose capacity is its length.\<close>

definition slice_from :: "'a list \<Rightarrow> nat \<Rightarrow> 'a list res" where
  "slice_from b i = (if i \<le> length b then Ok (drop i b) else Panic SliceBounds)"

definition slice :: "'a list \<Rightarrow> nat \<Rightarrow> nat \<Rightarrow> 'a list res" where
  "slice b i j = (if i \<le> j \<and> j \<le> length b then Ok (drop i (take j b)) else Panic SliceBounds)"

text \<open>\<open>copy(dst[k:], src)\<close>: as many bytes as fit.\<close>

definition copy_at :: "nat \<Rightarrow> 'a list \<Rightarrow> 'a list \<Rightarrow> 'a list res" where
  "copy_at k src dst =
     (if k \<le> length dst
      then Ok (take k dst @ take (length dst - k) src @ drop (k + length src) dst)
      else Panic SliceBounds)"

lemma copy_at_length: "copy_at k src dst = Ok d \<Longrightarrow> length d = length dst"
  by (auto simp: copy_at_def split: if_splits)

lemma copy_at_outside:
  assumes "copy_at k src dst = Ok d" and "i < k \<or> k + length src \<le> i" and "i < length dst"
  shows "d ! i = dst ! i"
proof -
  from assms(1) have k: "k \<le> length dst"
    and d: "d = take k dst @ take (length dst - k) src @ drop (k + length src) dst"
    by (auto simp: copy_at_def split: if_splits)
  show ?thesis
  proof (cases "i < k")
    case True
    with k show ?thesis by (simp add: d nth_append)
  next
    case False
    with assms(2) have *: "k + length src \<le> i" by simp
    then have "take (length dst - k) src = src" using assms(3) by simp
    moreover have "\<not> i - k < length src" using * by simp
    ultimately show ?thesis using * k assms(3) by (simp add: d nth_append)
  qed
qed

lemma copy_at_inside:
  assumes "copy_at k src dst = Ok d" and "i < length src" and "k + i < length dst"
  shows "d ! (k + i) = src ! i"
  using assms by (auto simp: copy_at_def nth_append split: if_splits)

section \<open>Fixed-width integers\<close>

text \<open>The value of bytes read least significant first, and the bytes of a value.\<close>

fun le_get :: "u8 list \<Rightarrow> nat" where
  "le_get [] = 0"
| "le_get (b # bs) = unat b + 256 * le_get bs"

fun le_put :: "nat \<Rightarrow> nat \<Rightarrow> u8 list" where
  "le_put 0 v = []"
| "le_put (Suc k) v = word_of_nat v # le_put k (v div 256)"

lemma unat_u8_less: "unat (b :: u8) < 256"
  using unsigned_less [of b, where ?'a = nat] by simp

lemma length_le_put [simp]: "length (le_put k v) = k"
  by (induction k arbitrary: v) auto

lemma le_get_put: "le_get (le_put k v) = v mod 256 ^ k"
proof (induction k arbitrary: v)
  case 0
  then show ?case by simp
next
  case (Suc k)
  have "v mod 256 + 256 * (v div 256 mod 256 ^ k) = v mod (256 * 256 ^ k)"
    by (simp add: mod_mult2_eq)
  then show ?case by (simp add: Suc.IH unat_of_nat)
qed

lemma le_get_bound: "le_get bs < 256 ^ length bs"
proof (induction bs)
  case (Cons b bs)
  have "unat b < 256" by (rule unat_u8_less)
  with Cons show ?case by simp
qed simp

lemma le_put_get: "le_put (length bs) (le_get bs) = bs"
proof (induction bs)
  case (Cons b bs)
  have b: "unat b < 256" by (rule unat_u8_less)
  then have "(unat b + 256 * le_get bs) div 256 = le_get bs" by simp
  moreover have "(word_of_nat (unat b + 256 * le_get bs) :: u8) = b"
  proof (rule word_unat_eq_iff [THEN iffD2])
    show "unat (word_of_nat (unat b + 256 * le_get bs) :: u8) = unat b"
      by (subst unat_of_nat) (use b in simp)
  qed
  ultimately show ?case using Cons by simp
qed simp

text \<open>
  \<open>binary.LittleEndian.UintN(b)\<close> and \<open>binary.BigEndian.UintN(b)\<close> with \<open>N\<close> being \<open>8k\<close>:
  the last byte is indexed first, so a short slice panics.
\<close>

definition le_uint :: "nat \<Rightarrow> u8 list \<Rightarrow> nat res" where
  "le_uint k b = (if k \<le> length b then Ok (le_get (take k b)) else Panic IndexRange)"

definition be_uint :: "nat \<Rightarrow> u8 list \<Rightarrow> nat res" where
  "be_uint k b = (if k \<le> length b then Ok (le_get (rev (take k b))) else Panic IndexRange)"

definition get_u16 :: "u8 list \<Rightarrow> u16 res" where
  "get_u16 b = bind_res (le_uint 2 b) (\<lambda>v. Ok (word_of_nat v))"

definition get_u32 :: "u8 list \<Rightarrow> u32 res" where
  "get_u32 b = bind_res (le_uint 4 b) (\<lambda>v. Ok (word_of_nat v))"

definition get_u64 :: "u8 list \<Rightarrow> u64 res" where
  "get_u64 b = bind_res (le_uint 8 b) (\<lambda>v. Ok (word_of_nat v))"

definition put_u16 :: "u16 \<Rightarrow> u8 list" where "put_u16 v = le_put 2 (unat v)"
definition put_u32 :: "u32 \<Rightarrow> u8 list" where "put_u32 v = le_put 4 (unat v)"
definition put_u64 :: "u64 \<Rightarrow> u8 list" where "put_u64 v = le_put 8 (unat v)"

text \<open>The contract of a fixed-width little-endian field.\<close>

locale fixed_field =
  fixes put :: "'a \<Rightarrow> u8 list"
    and get :: "u8 list \<Rightarrow> 'a res"
    and width :: nat
  assumes length_put: "length (put x) = width"
    and get_put: "get (put x @ rest) = Ok x"
    and get_short: "length bs < width \<Longrightarrow> get bs = Panic IndexRange"
    and get_long: "width \<le> length bs \<Longrightarrow> \<exists>x. get bs = Ok x"
    and put_get: "get bs = Ok x \<Longrightarrow> put x = take width bs"
begin

lemma get_exact: "get (put x) = Ok x"
  using get_put [of x "[]"] by simp

lemma get_Ok_iff: "(\<exists>x. get bs = Ok x) \<longleftrightarrow> width \<le> length bs"
  using get_short get_long by (metis not_le res.distinct(3))

lemma get_take: "width \<le> length bs \<Longrightarrow> get bs = get (take width bs)"
proof -
  assume w: "width \<le> length bs"
  then obtain x where x: "get bs = Ok x" using get_long by blast
  then have "put x = take width bs" by (rule put_get)
  then show ?thesis using x get_exact [of x] by simp
qed

text \<open>Writing a field into a buffer and reading it, or a field before or after it.\<close>

lemma get_written:
  assumes "copy_at k (put x) b = Ok b'" and "k + width \<le> length b"
  shows "get (drop k b') = Ok x"
  using assms by (auto simp: copy_at_def length_put get_put split: if_splits)

lemma get_after_written:
  assumes "copy_at k (put x) b = Ok b'" and "k + width \<le> j"
  shows "drop j b' = drop j b"
proof (cases "k + width \<le> length b")
  case True
  with assms show ?thesis by (auto simp: copy_at_def length_put split: if_splits)
next
  case False
  with assms copy_at_length [OF assms(1)] show ?thesis by simp
qed

lemma get_before_written:
  assumes "copy_at k src b = Ok b'" and "j + width \<le> k"
  shows "get (drop j b') = get (drop j b)"
proof -
  have k: "k \<le> length b" and b': "take k b' = take k b" "length b' = length b"
    using assms(1) copy_at_length [OF assms(1)] by (auto simp: copy_at_def split: if_splits)
  have "take (j + width) b' = take (j + width) (take k b')"
    using assms(2) by (simp add: min_absorb1)
  also have "\<dots> = take (j + width) b" using assms(2) b'(1) by (simp add: min_absorb1)
  finally have "take width (drop j b') = take width (drop j b)"
    by (simp add: take_drop add.commute)
  then show ?thesis using k b'(2) assms(2) get_take [of "drop j b'"] get_take [of "drop j b"]
    by simp
qed

end

lemma le_put_inverse_16: "word_of_nat (le_get (le_put 2 (unat v))) = (v :: u16)"
  using unsigned_less [of v, where ?'a = nat] by (simp add: le_get_put)

lemma le_put_inverse_32: "word_of_nat (le_get (le_put 4 (unat v))) = (v :: u32)"
  using unsigned_less [of v, where ?'a = nat] by (simp add: le_get_put)

lemma le_put_inverse_64: "word_of_nat (le_get (le_put 8 (unat v))) = (v :: u64)"
  using unsigned_less [of v, where ?'a = nat] by (simp add: le_get_put)

lemma unat_le_get:
  assumes "k \<le> length bs" and "256 ^ k = (2::nat) ^ LENGTH('n::len)"
  shows "le_put k (unat (word_of_nat (le_get (take k bs)) :: 'n word)) = take k bs"
proof -
  have len: "length (take k bs) = k" using assms(1) by simp
  have "le_get (take k bs) < 2 ^ LENGTH('n)"
    using le_get_bound [of "take k bs"] unfolding len assms(2) .
  then have "unat (word_of_nat (le_get (take k bs)) :: 'n word) = le_get (take k bs)"
    by (simp add: unat_of_nat)
  then show ?thesis using le_put_get [of "take k bs"] unfolding len by simp
qed

lemmas get_defs = get_u16_def get_u32_def get_u64_def put_u16_def put_u32_def put_u64_def
  le_uint_def

interpretation f16: fixed_field put_u16 get_u16 2
  by unfold_locales
     (auto simp: get_defs le_put_inverse_16 unat_le_get split: if_splits)

interpretation f32: fixed_field put_u32 get_u32 4
  by unfold_locales
     (auto simp: get_defs le_put_inverse_32 unat_le_get split: if_splits)

interpretation f64: fixed_field put_u64 get_u64 8
  by unfold_locales
     (auto simp: get_defs le_put_inverse_64 unat_le_get split: if_splits)

section \<open>UTF-16 and UTF-8\<close>

text \<open>
  \<open>utf16.Decode\<close>: a surrogate pair is one rune, an unpaired surrogate is replaced by
  U+FFFD.  Runes are natural numbers.
\<close>

fun utf16_decode :: "u16 list \<Rightarrow> nat list" where
  "utf16_decode [] = []"
| "utf16_decode (r # rs) =
     (let n = unat r in
      if n < 0xD800 \<or> 0xE000 \<le> n then n # utf16_decode rs
      else if n < 0xDC00 then
        (case rs of
           [] \<Rightarrow> [0xFFFD]
         | r2 # rs2 \<Rightarrow>
             if 0xDC00 \<le> unat r2 \<and> unat r2 < 0xE000
             then ((n - 0xD800) * 1024 + (unat r2 - 0xDC00) + 0x10000) # utf16_decode rs2
             else 0xFFFD # utf16_decode rs)
      else 0xFFFD # utf16_decode rs)"

text \<open>The UTF-8 encoding of a rune, as \<open>string(runes)\<close> writes it.\<close>

definition utf8_rune :: "nat \<Rightarrow> string" where
  "utf8_rune r =
     (if r < 0x80 then [char_of r]
      else if r < 0x800 then [char_of (0xC0 + r div 64), char_of (0x80 + r mod 64)]
      else if 0x10FFFF < r \<or> (0xD800 \<le> r \<and> r < 0xE000)
        then [CHR 0xEF, CHR 0xBF, CHR 0xBD]
      else if r < 0x10000
        then [char_of (0xE0 + r div 4096), char_of (0x80 + r div 64 mod 64),
              char_of (0x80 + r mod 64)]
      else [char_of (0xF0 + r div 262144), char_of (0x80 + r div 4096 mod 64),
            char_of (0x80 + r div 64 mod 64), char_of (0x80 + r mod 64)])"

definition runes_str :: "nat list \<Rightarrow> string" where
  "runes_str rs = concat (map utf8_rune rs)"

text \<open>
  The UTF-16 units of a text of Unicode scalar values: the specification side of
  \<open>utf16_decode\<close>.
\<close>

definition scalar :: "nat \<Rightarrow> bool" where
  "scalar r \<longleftrightarrow> r < 0xD800 \<or> (0xE000 \<le> r \<and> r \<le> 0x10FFFF)"

definition utf16_units :: "nat \<Rightarrow> u16 list" where
  "utf16_units r =
     (if r < 0x10000 then [word_of_nat r]
      else [word_of_nat (0xD800 + (r - 0x10000) div 1024),
            word_of_nat (0xDC00 + (r - 0x10000) mod 1024)])"

lemma unat_surrogate:
  "q < 1024 \<Longrightarrow> unat (word_of_nat (0xD800 + q) :: u16) = 0xD800 + q"
  "q < 1024 \<Longrightarrow> unat (word_of_nat (0xDC00 + q) :: u16) = 0xDC00 + q"
  by (subst unat_of_nat, simp)+

lemma scalar_pair:
  assumes "scalar r" and "\<not> r < 0x10000"
  shows "(r - 0x10000) div 1024 < 1024" and "(r - 0x10000) mod 1024 < 1024"
    and "(r - 0x10000) div 1024 * 1024 + (r - 0x10000) mod 1024 + 0x10000 = r"
  using assms by (auto simp: scalar_def)

lemma utf16_decode_units:
  assumes "scalar r"
  shows "utf16_decode (utf16_units r @ us) = r # utf16_decode us"
proof (cases "r < 0x10000")
  case True
  with assms show ?thesis
    by (auto simp: utf16_units_def scalar_def unat_of_nat Let_def)
next
  case False
  note pair = scalar_pair [OF assms False]
  show ?thesis
    using False pair(1,2) unat_surrogate(1) [OF pair(1)] unat_surrogate(2) [OF pair(2)] pair(3)
    by (simp add: utf16_units_def Let_def del: of_nat_add)
qed

lemma utf16_decode_text:
  "\<forall>r \<in> set rs. scalar r \<Longrightarrow> utf16_decode (concat (map utf16_units rs)) = rs"
  by (induction rs) (auto simp: utf16_decode_units)

text \<open>A unit of a text without U+0000 is never zero.\<close>

lemma utf16_units_nonzero:
  assumes "scalar r" and "0 < r"
  shows "0 \<notin> set (utf16_units r)"
proof -
  have "unat u \<noteq> 0" if u: "u \<in> set (utf16_units r)" for u
  proof (cases "r < 0x10000")
    case True
    with u assms show ?thesis by (auto simp: utf16_units_def unat_of_nat)
  next
    case False
    note pair = scalar_pair [OF assms(1) False]
    show ?thesis
      using u False unat_surrogate(1) [OF pair(1)] unat_surrogate(2) [OF pair(2)]
      by (auto simp: utf16_units_def simp del: of_nat_add)
  qed
  then show ?thesis by force
qed

section \<open>Strings and bytes\<close>

definition bytes_of_str :: "string \<Rightarrow> u8 list" where
  "bytes_of_str s = map (\<lambda>c. word_of_nat (of_char c)) s"

definition str_of_bytes :: "u8 list \<Rightarrow> string" where
  "str_of_bytes b = map (\<lambda>w. char_of (unat w)) b"

lemma str_of_bytes_of_str [simp]: "str_of_bytes (bytes_of_str s) = s"
proof -
  have "(of_char c :: nat) < 256" for c :: char using nat_of_char_less_256 .
  then show ?thesis
    by (induction s) (auto simp: str_of_bytes_def bytes_of_str_def unat_of_nat)
qed

text \<open>\<open>hex.EncodeToString\<close> prints two lower-case digits per byte.\<close>

definition hex_digit :: "nat \<Rightarrow> char" where
  "hex_digit d = (if d < 10 then char_of (48 + d) else char_of (87 + d))"

definition hex_str :: "u8 list \<Rightarrow> string" where
  "hex_str b = concat (map (\<lambda>w. [hex_digit (unat w div 16), hex_digit (unat w mod 16)]) b)"

end
