(* ===== verification/Efi_Vars.thy ===== *)
theory Efi_Vars
  imports Go_Bytes
begin

text \<open>
  The access path to the UEFI variables under Linux: the vendored packages
  \<open>efi/efivario\<close> (\<open>FsContext\<close> over the files of efivarfs, \<open>ReadAll\<close>) and \<open>efi/efivars\<close>
  (typed variables, \<open>BootOrder\<close>, \<open>BootNext\<close>).  The state is the directory of variable
  files; each file holds four attribute bytes followed by the value.  Whether the kernel
  and the firmware take a write is not in the repository and is the parameter \<open>refuses\<close>:
  a refused write returns its error and changes nothing, an accepted one replaces the
  variable.  All accesses of the program are to the global-variable GUID.
\<close>

section \<open>Variable files\<close>

type_synonym efivarfs = "string \<rightharpoonup> u8 list"

definition global_guid :: string where
  "global_guid = ''8BE4DF61-93CA-11D2-AA0D-00E098032B8C''"

definition getFileName :: "string \<Rightarrow> string" where
  "getFileName name = name @ ''-'' @ global_guid"

lemma getFileName_inject [simp]: "getFileName m = getFileName n \<longleftrightarrow> m = n"
  by (simp add: getFileName_def)

datatype efi_err = ErrNotFound | ErrInsufficientSpace | ErrEOF | ErrUnexpectedEOF

fun efi_msg :: "efi_err \<Rightarrow> goerr" where
  "efi_msg ErrNotFound = ''variable not found''"
| "efi_msg ErrInsufficientSpace = ''buffer too small''"
| "efi_msg ErrEOF = ''EOF''"
| "efi_msg ErrUnexpectedEOF = ''unexpected EOF''"

text \<open>\<open>FsContext.GetSizeHint\<close>: the file size less the attribute bytes.\<close>

definition GetSizeHint :: "efivarfs \<Rightarrow> string \<Rightarrow> efi_err + int" where
  "GetSizeHint fs name =
     (case fs (getFileName name) of
        None \<Rightarrow> Inl ErrNotFound
      | Some file \<Rightarrow> Inr (int (length file) - 4))"

text \<open>
  \<open>FsContext.readEfiVarFileName\<close> with the caller's buffer: the attributes, the number of
  bytes read, the buffer afterwards and the error.  After filling the buffer, one more byte
  is tried, so a buffer that is too small is reported.
\<close>

definition readEfiVarFileName ::
  "efivarfs \<Rightarrow> string \<Rightarrow> u8 list \<Rightarrow> u32 \<times> nat \<times> u8 list \<times> efi_err option" where
  "readEfiVarFileName fs fname out =
     (case fs fname of
        None \<Rightarrow> (0, 0, out, Some ErrNotFound)
      | Some file \<Rightarrow>
          (if file = [] then (0, 0, out, Some ErrEOF)
           else if length file < 4 then (0, 0, out, Some ErrUnexpectedEOF)
           else
             let a = word_of_nat (le_get (take 4 file)); data = drop 4 file;
                 n = min (length out) (length data);
                 out' = take n data @ drop n out
             in if out \<noteq> [] \<and> data = [] then (a, 0, out, Some ErrEOF)
                else if n < length data then (a, n, out', Some ErrInsufficientSpace)
                else (a, n, out', None)))"

definition efi_get :: "efivarfs \<Rightarrow> string \<Rightarrow> u8 list \<Rightarrow> u32 \<times> nat \<times> u8 list \<times> efi_err option" where
  "efi_get fs name out = readEfiVarFileName fs (getFileName name) out"

text \<open>
  What the callers see of an \<open>efivario.Context\<close> at one moment: the size hint, and \<open>Get\<close> into a
  buffer, whose error either is \<open>ErrInsufficientSpace\<close> or another one.  \<open>FsContext\<close> is the context
  of Linux.
\<close>

datatype get_err = TooSmall goerr | GetErr goerr

record efi_context =
  ctx_GetSizeHint :: "string \<Rightarrow> goerr + int"
  ctx_Get :: "string \<Rightarrow> u8 list \<Rightarrow> u32 \<times> nat \<times> u8 list \<times> get_err option"

definition fs_get_err :: "efi_err \<Rightarrow> get_err" where
  "fs_get_err e = (if e = ErrInsufficientSpace then TooSmall else GetErr) (''efivario/get: '' @ efi_msg e)"

definition FsContext :: "efivarfs \<Rightarrow> efi_context" where
  "FsContext fs =
     \<lparr>ctx_GetSizeHint = \<lambda>name. map_sum efi_msg id (GetSizeHint fs name),
      ctx_Get = \<lambda>name out. (let (a, n, out', err) = efi_get fs name out in (a, n, out', map_option fs_get_err err))\<rparr>"

text \<open>
  \<open>efivario.ReadAll\<close>, over the \<open>Get\<close> method of the context for one variable.  The loop doubles its bound \<open>i\<close> each time the buffer was too small
  and stops above 4096; a bound of 0 never grows, and the loop would not end.  When the
  loop is not entered at all the zeroed buffer is returned with no error.
\<close>

function read_all_loop ::
  "(u8 list \<Rightarrow> u32 \<times> nat \<times> u8 list \<times> get_err option) \<Rightarrow> nat \<Rightarrow> u8 list \<Rightarrow> u32
     \<Rightarrow> goerr option \<Rightarrow> (u32 \<times> u8 list) res" where
  "read_all_loop get i out attrs err =
     (if 4096 < i then (case err of None \<Rightarrow> Ok (attrs, out) | Some e \<Rightarrow> Err e)
      else case get out of
        (a, n, out', None) \<Rightarrow> Ok (a, take n out')
      | (a, n, out', Some (TooSmall e)) \<Rightarrow>
          (if i = 0 then Blocked
           else read_all_loop get (2 * i) (replicate (i - length out') 0 @ out') a (Some e))
      | (a, n, out', Some (GetErr e)) \<Rightarrow> Err e)"
  by pat_completeness auto
termination
  by (relation "measure (\<lambda>(get, i, out, attrs, err). 4097 - i)") auto

declare read_all_loop.simps [simp del]

definition ReadAll :: "efi_context \<Rightarrow> string \<Rightarrow> (u32 \<times> u8 list) res" where
  "ReadAll c name =
     (let (hint, err) = (case ctx_GetSizeHint c name of
            Inl e \<Rightarrow> (8, Some e)
          | Inr h \<Rightarrow> if h < 0 then (8, None) else (nat h, None))
      in read_all_loop (ctx_Get c name) (2 * hint) (replicate hint 0) 0 err)"

text \<open>A variable of at most 2048 bytes is read whole, with its attributes.\<close>

lemma put_u32_nonempty [simp]: "put_u32 a \<noteq> []"
  using f32.length_put [of a] by auto

lemma efi_get_exact:
  assumes "fs (getFileName name) = Some (put_u32 a @ data)" and "length out = length data"
  shows "efi_get fs name out = (a, length data, data, None)"
proof -
  have "(word_of_nat (le_get (put_u32 a)) :: u32) = a"
    by (simp add: put_u32_def le_put_inverse_32)
  then show ?thesis
    using assms by (auto simp: efi_get_def readEfiVarFileName_def f32.length_put Let_def)
qed

lemma ReadAll_exact:
  assumes "fs (getFileName name) = Some (put_u32 a @ data)" and "length data \<le> 2048"
  shows "ReadAll (FsContext fs) name = Ok (a, data)"
proof -
  have "efi_get fs name (replicate (length data) 0) = (a, length data, data, None)"
    using assms(1) by (rule efi_get_exact) simp
  with assms show ?thesis
    by (simp add: ReadAll_def FsContext_def GetSizeHint_def f32.length_put read_all_loop.simps)
qed

text \<open>Beyond that the reader returns zeros and reports no error.\<close>

lemma ReadAll_large:
  assumes "fs (getFileName name) = Some file" and "2052 < length file"
  shows "ReadAll (FsContext fs) name = Ok (0, replicate (length file - 4) 0)"
proof -
  have "nat (int (length file) - 4) = length file - 4" and "2048 < length file - 4"
    using assms(2) by linarith+
  then show ?thesis
    using assms by (simp add: ReadAll_def FsContext_def GetSizeHint_def read_all_loop.simps)
qed

text \<open>The reader never gets stuck: the size hint is the size of the file it reads.\<close>

lemma efi_get_no_short:
  assumes "fs (getFileName name) = Some file" and "length file - 4 \<le> length out"
  shows "snd (snd (snd (efi_get fs name out))) \<noteq> Some ErrInsufficientSpace"
  using assms by (auto simp: efi_get_def readEfiVarFileName_def Let_def)

section \<open>Typed variables\<close>

text \<open>
  \<open>sliceUnmarshaller[uint16]\<close>: items until the end of the data; a trailing odd byte is an
  error that names the item.
\<close>

fun slice_u16 :: "nat \<Rightarrow> u8 list \<Rightarrow> u16 list res" where
  "slice_u16 i [] = Ok []"
| "slice_u16 i [b] = Err (''item #'' @ num_str 10 i @ '': unexpected EOF'')"
| "slice_u16 i (b0 # b1 # bs) =
     bind_res (slice_u16 (Suc i) bs) (\<lambda>vs. Ok (word_of_nat (le_get [b0, b1]) # vs))"

definition BootOrder_Get :: "efi_context \<Rightarrow> (u32 \<times> u16 list) res" where
  "BootOrder_Get c =
     (case ReadAll c ''BootOrder'' of
        Ok (attrs, data) \<Rightarrow>
          (case slice_u16 0 data of
             Ok order \<Rightarrow> Ok (attrs, order)
           | Err e \<Rightarrow> Err (''efivars/get(BootOrder): parse: '' @ e)
           | Panic p \<Rightarrow> Panic p
           | Blocked \<Rightarrow> Blocked)
      | Err e \<Rightarrow> Err (''efivars/get(BootOrder): load: '' @ e)
      | Panic p \<Rightarrow> Panic p
      | Blocked \<Rightarrow> Blocked)"

definition BootNext_Get :: "efi_context \<Rightarrow> (u32 \<times> u16) res" where
  "BootNext_Get c =
     (case ReadAll c ''BootNext'' of
        Ok (attrs, data) \<Rightarrow>
          (if data = [] then Err ''efivars/get(BootNext): parse: EOF''
           else if length data < 2 then Err ''efivars/get(BootNext): parse: unexpected EOF''
           else Ok (attrs, word_of_nat (le_get (take 2 data))))
      | Err e \<Rightarrow> Err (''efivars/get(BootNext): load: '' @ e)
      | Panic p \<Rightarrow> Panic p
      | Blocked \<Rightarrow> Blocked)"

text \<open>
  \<open>FsContext.Set\<close>: one write of the attributes followed by the value.  How it opens the file and
  deals with its immutable mark is in \<open>Efi_Guard\<close>, which shows when it is this plain write.
\<close>

definition efi_set ::
  "(string \<Rightarrow> u8 list \<Rightarrow> goerr option) \<Rightarrow> efivarfs \<Rightarrow> string \<Rightarrow> u32 \<Rightarrow> u8 list
     \<Rightarrow> goerr option \<times> efivarfs" where
  "efi_set refuses fs name attrs val =
     (let fname = getFileName name; buf = put_u32 attrs @ val in
      case refuses fname buf of
        Some e \<Rightarrow> (Some (''efivario/set: '' @ e), fs)
      | None \<Rightarrow> (None, fs(fname \<mapsto> buf)))"

text \<open>\<open>defaultAttrs\<close>: non-volatile, boot-service and run-time access.\<close>

definition defaultAttrs :: u32 where
  "defaultAttrs = or 1 (or 2 4)"

text \<open>The attribute of a write that appends to the value instead of replacing it.\<close>

definition AppendWrite :: u32 where
  "AppendWrite = 0x40"

section \<open>The contract of the variable store\<close>

text \<open>
  What the callers rely on, for values the store admits: an accepted write is what the next
  read returns, with its attributes; it touches no other variable; a refused write changes
  nothing that can be read.
\<close>

locale var_store =
  fixes rd :: "'s \<Rightarrow> string \<Rightarrow> (u32 \<times> u8 list) res"
    and wr :: "'s \<Rightarrow> string \<Rightarrow> u32 \<Rightarrow> u8 list \<Rightarrow> goerr option \<times> 's"
    and adm :: "u32 \<Rightarrow> u8 list \<Rightarrow> bool"
  assumes rd_wr: "wr s n a v = (None, s') \<Longrightarrow> adm a v \<Longrightarrow> rd s' n = Ok (a, v)"
    and rd_other: "wr s n a v = (None, s') \<Longrightarrow> adm a v \<Longrightarrow> m \<noteq> n \<Longrightarrow> rd s' m = rd s m"
    and refused: "wr s n a v = (Some e, s') \<Longrightarrow> adm a v \<Longrightarrow> rd s' m = rd s m"
begin

lemma read_after:
  assumes "wr s n a v = (r, s')" and "adm a v"
  shows "rd s' m = (if r = None \<and> m = n then Ok (a, v) else rd s m)"
  using assms by (cases r) (auto dest: rd_wr rd_other refused)

lemma last_write_wins:
  assumes "wr s n a v = (None, s1)" and "adm a v" and "wr s1 n b w = (None, s2)" and "adm b w"
  shows "rd s2 m = (if m = n then Ok (b, w) else rd s m)"
  using assms by (metis rd_wr rd_other)

end

lemma ReadAll_cong:
  assumes "fs (getFileName n) = gs (getFileName n)"
  shows "ReadAll (FsContext fs) n = ReadAll (FsContext gs) n"
proof -
  have "efi_get fs n = efi_get gs n"
    by (rule ext) (simp add: efi_get_def readEfiVarFileName_def assms)
  then show ?thesis by (simp add: ReadAll_def FsContext_def GetSizeHint_def assms)
qed

interpretation efi: var_store "\<lambda>fs. ReadAll (FsContext fs)" "efi_set refuses" "\<lambda>a v. length v \<le> 2048" for refuses
proof (unfold_locales, goal_cases)
  case (1 s n a v s')
  then show ?case
    by (intro ReadAll_exact) (auto simp: efi_set_def Let_def split: option.splits)
next
  case (2 s n a v s' m)
  then show ?case
    by (intro ReadAll_cong) (auto simp: efi_set_def Let_def split: option.splits)
next
  case (3 s n a v e s' m)
  then show ?case by (auto simp: efi_set_def Let_def split: option.splits)
qed

lemma efi_set_refused: "efi_set refuses fs n a v = (Some e, fs') \<Longrightarrow> fs' = fs"
  by (auto simp: efi_set_def Let_def split: option.splits)

text \<open>The boot order read back from its little-endian encoding.\<close>

lemma slice_u16_put:
  "slice_u16 i (concat (map put_u16 vs)) = Ok vs"
proof (induction vs arbitrary: i)
  case Nil
  then show ?case by simp
next
  case (Cons v vs)
  obtain b0 b1 where b: "put_u16 v = [b0, b1]"
    by (simp add: put_u16_def numeral_2_eq_2)
  moreover have "(word_of_nat (le_get (put_u16 v)) :: u16) = v"
    by (simp add: put_u16_def le_put_inverse_16)
  ultimately show ?case using Cons by (simp add: b)
qed

lemma length_concat_put_u16 [simp]: "length (concat (map put_u16 vs)) = 2 * length vs"
  by (induction vs) (auto simp: f16.length_put)

lemma BootOrder_Get_encoded:
  assumes "ReadAll c ''BootOrder'' = Ok (a, concat (map put_u16 vs))"
  shows "BootOrder_Get c = Ok (a, vs)"
  using assms by (simp add: BootOrder_Get_def slice_u16_put)

end
