(* ===== verification/Api.thy ===== *)
theory Api
  imports Go_Fmt
begin

text \<open>
  The messages of \<open>proto/loader.proto\<close> as the generated package \<open>api\<close> declares them: one
  record per message, one datatype per \<open>oneof\<close>, an enum as the integer that travels on the
  wire (proto3 enums are open: a peer can send a value outside the named ones).  A pointer
  to a message is an \<open>option\<close>; the generated getters are total on it.
\<close>

section \<open>Loader\<close>

type_synonym PowerStatusCommand = int

definition PowerStatusCommand_Shutdown :: PowerStatusCommand where
  "PowerStatusCommand_Shutdown = 0"
definition PowerStatusCommand_Restart :: PowerStatusCommand where
  "PowerStatusCommand_Restart = 1"
definition PowerStatusCommand_Logoff :: PowerStatusCommand where
  "PowerStatusCommand_Logoff = 2"
definition PowerStatusCommand_RestartTo :: PowerStatusCommand where
  "PowerStatusCommand_RestartTo = 3"

lemmas PowerStatusCommand_defs = PowerStatusCommand_Shutdown_def PowerStatusCommand_Restart_def
  PowerStatusCommand_Logoff_def PowerStatusCommand_RestartTo_def

record PowerCtlOrder =
  po_order :: PowerStatusCommand
  po_bootEntry :: string

record Result =
  res_code :: int
  res_message :: string

section \<open>Deployment\<close>

record InfoResponse =
  in_NodeId :: int
  in_Hostname :: string

record ExecRequest =
  ex_Proc :: string
  ex_Args :: "string list"

record ExecResponse =
  er_Status :: int
  er_ExitCode :: int
  er_Out :: "string option"
  er_Err :: "string option"

record ChunkData =
  ck_seq :: int
  ck_data :: "u8 list"

record MetaData =
  md_size :: u32
  md_name :: "string option"
  md_destination :: "string option"

text \<open>\<open>UploadRequest\<close>: its \<open>oneof\<close>, with \<open>UploadEmpty\<close> for a message that sets no case.\<close>

datatype UploadRequest =
    UploadInfo MetaData
  | UploadChunk ChunkData
  | UploadHash string
  | UploadEmpty

datatype UploadResponse = Progress string | UploadStatus string

text \<open>The getters that read an optional field or a pointer.\<close>

fun MetaData_GetSize :: "MetaData option \<Rightarrow> u32" where
  "MetaData_GetSize None = 0"
| "MetaData_GetSize (Some m) = md_size m"

fun MetaData_GetName :: "MetaData option \<Rightarrow> string" where
  "MetaData_GetName None = []"
| "MetaData_GetName (Some m) = (case md_name m of None \<Rightarrow> [] | Some s \<Rightarrow> s)"

fun MetaData_GetDestination :: "MetaData option \<Rightarrow> string" where
  "MetaData_GetDestination None = []"
| "MetaData_GetDestination (Some m) = (case md_destination m of None \<Rightarrow> [] | Some s \<Rightarrow> s)"

fun UploadRequest_GetInfo :: "UploadRequest \<Rightarrow> MetaData option" where
  "UploadRequest_GetInfo (UploadInfo m) = Some m"
| "UploadRequest_GetInfo (UploadChunk c) = None"
| "UploadRequest_GetInfo (UploadHash h) = None"
| "UploadRequest_GetInfo UploadEmpty = None"

section \<open>Recording\<close>

record RecordStatusResponse =
  rs_status :: string
  rs_time :: string

section \<open>Maintenance\<close>

record PartitionInfo =
  pi_size :: u64
  pi_type :: string
  pi_label :: string
  pi_flags :: "string list"
  pi_format :: bool

record DiskLayout =
  dl_location :: string
  dl_partitionType :: string
  dl_partitions :: "PartitionInfo list"

record ApplyImageRequest =
  ai_imagePath :: string
  ai_imageIndex :: u32
  ai_targetDisk :: string
  ai_targetPartition :: u32

record BCDFixRequest =
  bf_espDisk :: string
  bf_espPartition :: u32
  bf_osDisk :: string
  bf_osPartition :: u32

end
