(* ===== verification/Power_Ctl.thy ===== *)
theory Power_Ctl
  imports Efi_Vars Api "HOL-Library.Multiset"
begin

text \<open>
  The power-control service, \<open>service/power_ctl.go\<close>, with its two platform halves
  \<open>power_ctl_linux.go\<close> and \<open>power_ctl_windows.go\<close>.  The machine is the variables, a directory
  of files under Linux, and the trace of the system actions taken.  The platform functions
  \<open>Restart\<close>, \<open>Shutdown\<close> and \<open>Logout\<close>, which the build selects, are a record of
  operations; what a reboot call and a command return is the environment's.
\<close>

section \<open>The machine and the platform\<close>

datatype action =
    Sync
  | Reboot string
  | Command "string list"

record 'v machine =
  vars :: 'v
  actions :: "action list"

text \<open>
  The environment: firmware refusals, the result of the \<open>reboot\<close> system call (\<open>None\<close> when
  it does not return, the machine being down), and the outcome of running a command, its
  output and its error.
\<close>

record env =
  refuses :: "string \<Rightarrow> u8 list \<Rightarrow> goerr option"
  reboot :: "string \<Rightarrow> int option"
  command :: "string list \<Rightarrow> string \<times> goerr option"

definition act :: "action \<Rightarrow> 'v machine \<Rightarrow> 'v machine" where
  "act a m = m\<lparr>actions := actions m @ [a]\<rparr>"

lemma act_sel [simp]: "vars (act a m) = vars m" "actions (act a m) = actions m @ [a]"
  by (simp_all add: act_def)

text \<open>\<open>exec.Command(...).Run()\<close> and its error.\<close>

definition cmd_run :: "env \<Rightarrow> string list \<Rightarrow> ('v machine, unit) io" where
  "cmd_run E args m =
     (case snd (command E args) of
        None \<Rightarrow> (Ok (), act (Command args) m)
      | Some e \<Rightarrow> (Err e, act (Command args) m))"

record 'v power_ops =
  Restart :: "('v machine, unit) io"
  Shutdown :: "('v machine, unit) io"
  Logout :: "('v machine, unit) io"

section \<open>Linux\<close>

text \<open>
  \<open>C.sync(); res := C.reboot(cmd)\<close>, then an error in every case: if the call returns at
  all, the restart has failed.
\<close>

definition linux_reboot :: "env \<Rightarrow> string \<Rightarrow> ('v machine, unit) io" where
  "linux_reboot E cmd m =
     (let m' = act (Reboot cmd) (act Sync m) in
      case reboot E cmd of
        None \<Rightarrow> (Blocked, m')
      | Some r \<Rightarrow> (Err (''Restart failed:'' @ str_itoa r), m'))"

definition linux_Restart :: "env \<Rightarrow> ('v machine, unit) io" where
  "linux_Restart E = linux_reboot E ''RB_AUTOBOOT''"

definition linux_Shutdown :: "env \<Rightarrow> ('v machine, unit) io" where
  "linux_Shutdown E = linux_reboot E ''RB_POWER_OFF''"

definition linux_Logout :: "env \<Rightarrow> ('v machine, unit) io" where
  "linux_Logout E = cmd_run E [''systemctl'', ''restart'', ''gdm.service'']"

definition linux_ops :: "env \<Rightarrow> 'v power_ops" where
  "linux_ops E = \<lparr>Restart = linux_Restart E, Shutdown = linux_Shutdown E, Logout = linux_Logout E\<rparr>"

section \<open>Windows\<close>

definition windows_Restart :: "env \<Rightarrow> ('v machine, unit) io" where
  "windows_Restart E = cmd_run E [''shutdown'', ''/r'', ''/f'', ''/t'', ''0'']"

text \<open>\<open>Restart2\<close> is left over: its call is commented out.\<close>

definition windows_Restart2 :: "('v machine, unit) io" where
  "windows_Restart2 = ret ()"

definition windows_Shutdown :: "env \<Rightarrow> ('v machine, unit) io" where
  "windows_Shutdown E = cmd_run E [''shutdown'', ''/s'', ''/f'', ''/t'', ''0'']"

text \<open>
  \<open>Logout\<close> looks through the output of \<open>query session\<close> for the first line whose fifth
  blank-separated field is \<open>Active\<close> and logs its session off; it does so only when the
  query has returned an error.
\<close>

fun logoff_lines :: "env \<Rightarrow> goerr \<Rightarrow> string list \<Rightarrow> ('v machine, unit) io" where
  "logoff_lines E err [] m = (Err err, m)"
| "logoff_lines E err (l # ls) m =
     (let sess = re_split_blanks l in
      if 4 < length sess \<and> sess ! 4 = ''Active''
      then cmd_run E [''logoff'', sess ! 3] m
      else logoff_lines E err ls m)"

definition windows_Logout :: "env \<Rightarrow> ('v machine, unit) io" where
  "windows_Logout E m =
     (let (out, err) = command E [''query'', ''session''];
          m' = act (Command [''query'', ''session'']) m
      in case err of
           Some e \<Rightarrow> logoff_lines E e (str_split [CHR 0x0A] out) m'
         | None \<Rightarrow> (Ok (), m'))"

definition windows_ops :: "env \<Rightarrow> 'v power_ops" where
  "windows_ops E =
     \<lparr>Restart = windows_Restart E, Shutdown = windows_Shutdown E, Logout = windows_Logout E\<rparr>"

section \<open>Boot entries\<close>

text \<open>
  \<open>getEnvVar\<close>: a buffer of the hinted size, filled by one \<open>Get\<close> whose error is dropped.  A
  negative size makes \<open>make\<close> panic.
\<close>

definition getEnvVar :: "efi_context \<Rightarrow> string \<Rightarrow> u8 list res" where
  "getEnvVar c name =
     (case ctx_GetSizeHint c name of
        Inl e \<Rightarrow> Ok []
      | Inr sz \<Rightarrow>
          (if sz < 0 then Panic (Explicit ''makeslice: len out of range'')
           else Ok (fst (snd (snd (ctx_Get c name (replicate (nat sz) 0)))))))"

text \<open>
  The loop of \<open>getBootDesc\<close>: units are copied into \<open>str\<close> until a zero unit; the two last
  bytes of the variable are never looked at.
\<close>

function desc_loop :: "u8 list \<Rightarrow> nat \<Rightarrow> u16 list \<Rightarrow> string res" where
  "desc_loop b i str =
     (if i + 2 < length b then
        bind_res (bind_res (slice_from b i) get_u16) (\<lambda>v.
          if v = 0
          then bind_res (slice str 0 (i div 2 - 3)) (\<lambda>s. Ok (runes_str (utf16_decode s)))
          else if i div 2 - 3 < length str
          then desc_loop b (i + 2) (str[i div 2 - 3 := v])
          else Panic IndexRange)
      else Ok (str_trim_space (runes_str (utf16_decode str))))"
  by pat_completeness auto
termination
  by (relation "measure (\<lambda>(b, i, str). length b - i)") auto

declare desc_loop.simps [simp del]

definition getBootDesc :: "efi_context \<Rightarrow> string \<Rightarrow> string res" where
  "getBootDesc c name =
     bind_res (getEnvVar c name) (\<lambda>b.
       if b = [] then Ok []
       else bind_res (get_u32 b) (\<lambda>_.
            bind_res (bind_res (slice_from b 4) get_u16) (\<lambda>_.
            desc_loop b 6 (replicate (length b div 2) 0))))"

text \<open>\<open>strings.TrimSpace(getBootDesc(ctx, fmt.Sprintf("Boot%04d", boot)))\<close>\<close>

definition boot_name :: "u16 \<Rightarrow> string" where
  "boot_name boot = ''Boot'' @ fmt_04d (unat boot)"

definition boot_desc :: "efi_context \<Rightarrow> u16 \<Rightarrow> string res" where
  "boot_desc c boot =
     bind_res (getBootDesc c (boot_name boot)) (\<lambda>d. Ok (str_trim_space d))"

section \<open>The handlers\<close>

text \<open>The search of \<open>RestartTo\<close> and \<open>RestartToOnce\<close>: the last entry whose description matches.\<close>

fun find_target :: "efi_context \<Rightarrow> string \<Rightarrow> nat \<Rightarrow> u16 list \<Rightarrow> nat option \<Rightarrow> nat option res" where
  "find_target c search i [] target = Ok target"
| "find_target c search i (boot # bs) target =
     bind_res (boot_desc c boot) (\<lambda>desc.
       find_target c search (Suc i) bs (if str_contains desc search then Some i else target))"

text \<open>The new boot order: the target first, then the entries before and after it.\<close>

definition move_to_front :: "u16 list \<Rightarrow> nat \<Rightarrow> u16 list" where
  "move_to_front order t = [order ! t] @ take t order @ drop (t + 1) order"

text \<open>\<open>for i, v := range newOrder { PutUint16(out[i*2:], v) }\<close>\<close>

fun put_order :: "nat \<Rightarrow> u16 list \<Rightarrow> u8 list \<Rightarrow> u8 list res" where
  "put_order i [] out = Ok out"
| "put_order i (v # vs) out =
     (if i * 2 + 2 \<le> length out
      then bind_res (copy_at (i * 2) (put_u16 v) out) (put_order (Suc i) vs)
      else Panic IndexRange)"

text \<open>
  The handlers work on any \<open>efivario.Context\<close>: reading is a view of the state, \<open>Set\<close> changes it.
\<close>

record 's efi_store =
  st_ctx :: "'s \<Rightarrow> efi_context"
  st_Set :: "string \<Rightarrow> u32 \<Rightarrow> u8 list \<Rightarrow> 's \<Rightarrow> goerr option \<times> 's"

definition RestartTo_on :: "'s efi_store \<Rightarrow> ('s, unit) io \<Rightarrow> string \<Rightarrow> ('s, unit) io" where
  "RestartTo_on C restart bootEntry s =
     (case BootOrder_Get (st_ctx C s) of
        Err e \<Rightarrow> (Err e, s)
      | Panic p \<Rightarrow> (Panic p, s)
      | Blocked \<Rightarrow> (Blocked, s)
      | Ok (attr, boorOder) \<Rightarrow>
          (case find_target (st_ctx C s) bootEntry 0 boorOder None of
             Err e \<Rightarrow> (Err e, s)
           | Panic p \<Rightarrow> (Panic p, s)
           | Blocked \<Rightarrow> (Blocked, s)
           | Ok None \<Rightarrow> (Err ''boot entry not found'', s)
           | Ok (Some t) \<Rightarrow>
               (let newOrder = move_to_front boorOder t in
                case put_order 0 newOrder (replicate (length newOrder * 2) 0) of
                  Ok out \<Rightarrow>
                    (case st_Set C ''BootOrder'' attr out s of
                       (Some e, s') \<Rightarrow> (Err e, s')
                     | (None, s') \<Rightarrow> restart s')
                | Err e \<Rightarrow> (Err e, s)
                | Panic p \<Rightarrow> (Panic p, s)
                | Blocked \<Rightarrow> (Blocked, s))))"

text \<open>
  \<open>RestartToOnce\<close> sets \<open>BootNext\<close>.  The reads of \<open>BootNext\<close> around the write are logged
  only.  The restart is taken when the write has failed.
\<close>

definition BootNext_Set :: "'s efi_store \<Rightarrow> u16 \<Rightarrow> 's \<Rightarrow> goerr option \<times> 's" where
  "BootNext_Set C v s = st_Set C ''BootNext'' defaultAttrs (put_u16 v) s"

definition RestartToOnce_on :: "'s efi_store \<Rightarrow> ('s, unit) io \<Rightarrow> int \<Rightarrow> ('s, unit) io" where
  "RestartToOnce_on C restart target s =
     (if target \<noteq> 2 \<and> target \<noteq> 1 then (Err ''invalid boot indx'', s)
      else
        let search = (if target = 2 then ''Red Hat'' else ''Windows Boot Manager'') in
        case BootOrder_Get (st_ctx C s) of
          Err e \<Rightarrow> (Err e, s)
        | Panic p \<Rightarrow> (Panic p, s)
        | Blocked \<Rightarrow> (Blocked, s)
        | Ok (attr, bootOder) \<Rightarrow>
            (case find_target (st_ctx C s) search 0 bootOder None of
               Err e \<Rightarrow> (Err e, s)
             | Panic p \<Rightarrow> (Panic p, s)
             | Blocked \<Rightarrow> (Blocked, s)
             | Ok None \<Rightarrow> (Err ''boot entry not found'', s)
             | Ok (Some t) \<Rightarrow>
                 (case BootNext_Set C (bootOder ! t) s of
                    (Some e, s') \<Rightarrow> restart s'
                  | (None, s') \<Rightarrow> (Ok (), s'))))"

text \<open>The machine with variables as files, that is Linux.\<close>

definition file_store :: "env \<Rightarrow> efivarfs machine efi_store" where
  "file_store E =
     \<lparr>st_ctx = \<lambda>m. FsContext (vars m),
      st_Set = \<lambda>name attrs val m. (let (e, fs) = efi_set (refuses E) (vars m) name attrs val
                                  in (e, m\<lparr>vars := fs\<rparr>))\<rparr>"

definition RestartTo :: "env \<Rightarrow> efivarfs power_ops \<Rightarrow> string \<Rightarrow> (efivarfs machine, unit) io" where
  "RestartTo E ops = RestartTo_on (file_store E) (Restart ops)"

definition RestartToOnce :: "env \<Rightarrow> efivarfs power_ops \<Rightarrow> int \<Rightarrow> (efivarfs machine, unit) io" where
  "RestartToOnce E ops = RestartToOnce_on (file_store E) (Restart ops)"

text \<open>The RPC \<open>Loader.PowerCtl\<close>: an error of the operation becomes result -1.\<close>

definition PowerCtl_on ::
  "'v machine efi_store \<Rightarrow> 'v power_ops \<Rightarrow> PowerCtlOrder \<Rightarrow> ('v machine, Result) io" where
  "PowerCtl_on C ops req m =
     (let (r, m') =
        (if po_order req = PowerStatusCommand_Restart then Restart ops m
         else if po_order req = PowerStatusCommand_Logoff then Logout ops m
         else if po_order req = PowerStatusCommand_Shutdown then Shutdown ops m
         else if po_order req = PowerStatusCommand_RestartTo
         then RestartTo_on C (Restart ops) (po_bootEntry req) m
         else (Ok (), m))
      in case r of
           Err e \<Rightarrow> (Ok \<lparr>res_code = - 1, res_message = e\<rparr>, m')
         | Ok _ \<Rightarrow> (Ok \<lparr>res_code = 0, res_message = ''Success''\<rparr>, m')
         | Panic p \<Rightarrow> (Panic p, m')
         | Blocked \<Rightarrow> (Blocked, m'))"

definition PowerCtl :: "env \<Rightarrow> efivarfs power_ops \<Rightarrow> PowerCtlOrder \<Rightarrow> (efivarfs machine, Result) io" where
  "PowerCtl E = PowerCtl_on (file_store E)"

text \<open>The RPC \<open>Loader.BootEntries\<close>: the descriptions in boot order.\<close>

fun boot_descs :: "efi_context \<Rightarrow> u16 list \<Rightarrow> string list res" where
  "boot_descs c [] = Ok []"
| "boot_descs c (boot # bs) =
     bind_res (boot_desc c boot) (\<lambda>d. bind_res (boot_descs c bs) (\<lambda>ds. Ok (d # ds)))"

definition BootEntries :: "efi_context \<Rightarrow> string list res" where
  "BootEntries c = bind_res (BootOrder_Get c) (\<lambda>(attr, order). boot_descs c order)"

section \<open>Lemmas on the boot order\<close>

text \<open>The byte buffer written by the loop is the concatenation of the encoded entries.\<close>

lemma put_order_concat:
  "put_order i vs (pre @ replicate (2 * length vs) 0) = Ok (pre @ concat (map put_u16 vs))"
  if "length pre = 2 * i"
  using that
proof (induction vs arbitrary: i pre)
  case Nil
  then show ?case by simp
next
  case (Cons v vs)
  have "copy_at (i * 2) (put_u16 v) (pre @ replicate (2 * length (v # vs)) 0)
      = Ok ((pre @ put_u16 v) @ replicate (2 * length vs) 0)"
    using Cons.prems by (simp add: copy_at_def f16.length_put mult.commute)
  moreover have "put_order (Suc i) vs ((pre @ put_u16 v) @ replicate (2 * length vs) 0)
      = Ok ((pre @ put_u16 v) @ concat (map put_u16 vs))"
    using Cons.prems by (intro Cons.IH) (simp add: f16.length_put)
  ultimately show ?case using Cons.prems by (simp add: mult.commute)
qed

lemma put_order_all: "put_order 0 vs (replicate (length vs * 2) 0) = Ok (concat (map put_u16 vs))"
  using put_order_concat [of "[]" 0 vs] by (simp add: mult.commute)

lemma move_to_front_length: "t < length order \<Longrightarrow> length (move_to_front order t) = length order"
  by (simp add: move_to_front_def)

lemma move_to_front_mset: "t < length order \<Longrightarrow> mset (move_to_front order t) = mset order"
  by (metis (no_types, lifting) Suc_eq_plus1 append_Cons append_Nil id_take_nth_drop
      move_to_front_def mset.simps(2) mset_append union_mset_add_mset_left union_mset_add_mset_right)

lemma find_target_bound:
  "find_target c search i bs target = Ok (Some t) \<Longrightarrow> target = Some t \<or> (i \<le> t \<and> t < i + length bs)"
proof (induction bs arbitrary: i target)
  case Nil
  then show ?case by simp
next
  case (Cons b bs)
  from Cons.prems obtain d where
    "find_target c search (Suc i) bs (if str_contains d search then Some i else target) = Ok (Some t)"
    by auto
  from Cons.IH [OF this] show ?case by (auto split: if_splits)
qed

section \<open>Lemmas on the target search\<close>

lemma find_target_snoc:
  "find_target c s i (xs @ [b]) target =
     bind_res (find_target c s i xs target) (\<lambda>t.
       bind_res (boot_desc c b) (\<lambda>d. Ok (if str_contains d s then Some (i + length xs) else t)))"
  by (induction xs arbitrary: i target) (auto simp: bind_res_assoc cong: if_cong)

lemma boot_descs_snoc:
  "boot_descs c (xs @ [b]) =
     bind_res (boot_descs c xs) (\<lambda>ds. bind_res (boot_desc c b) (\<lambda>d. Ok (ds @ [d])))"
  by (induction xs) (auto simp: bind_res_assoc)

lemma boot_descs_length: "boot_descs c bs = Ok ds \<Longrightarrow> length ds = length bs"
  by (induction bs arbitrary: ds) auto

text \<open>The specification of the search: no index from \<open>t\<close> on matches but \<open>t\<close> itself.\<close>

definition last_match :: "string \<Rightarrow> string list \<Rightarrow> nat option \<Rightarrow> bool" where
  "last_match s ds t =
     (case t of
        None \<Rightarrow> (\<forall>d \<in> set ds. \<not> str_contains d s)
      | Some i \<Rightarrow> i < length ds \<and> str_contains (ds ! i) s
                  \<and> (\<forall>j. i < j \<and> j < length ds \<longrightarrow> \<not> str_contains (ds ! j) s))"

lemma find_target_spec:
  assumes "boot_descs c bs = Ok ds"
  shows "\<exists>t. find_target c s 0 bs None = Ok t \<and> last_match s ds t"
  using assms
proof (induction bs arbitrary: ds rule: rev_induct)
  case Nil
  then show ?case by (simp add: last_match_def)
next
  case (snoc b bs)
  from snoc.prems obtain ds0 d where ds0: "boot_descs c bs = Ok ds0"
    and d: "boot_desc c b = Ok d" and ds: "ds = ds0 @ [d]"
    by (auto simp: boot_descs_snoc)
  from snoc.IH [OF ds0] obtain t where t: "find_target c s 0 bs None = Ok t" "last_match s ds0 t"
    by blast
  have len: "length bs = length ds0" using boot_descs_length [OF ds0] by simp
  show ?case
  proof (cases "str_contains d s")
    case True
    with t d ds len show ?thesis by (auto simp: find_target_snoc last_match_def)
  next
    case False
    with t d ds len show ?thesis
      by (auto simp: find_target_snoc last_match_def nth_append less_Suc_eq split: option.splits)
  qed
qed

lemma last_match_unique:
  assumes "last_match s ds t" and "last_match s ds t'"
  shows "t = t'"
proof (cases t; cases t')
  fix i j assume "t = Some i" "t' = Some j"
  with assms show "t = t'"
    by (cases i j rule: linorder_cases) (auto simp: last_match_def)
qed (use assms in \<open>auto simp: last_match_def\<close>)

lemma find_target_eq:
  assumes "boot_descs c bs = Ok ds" and "last_match s ds t"
  shows "find_target c s 0 bs None = Ok t"
  using find_target_spec [OF assms(1), of s] last_match_unique [OF assms(2)] by auto

lemma find_target_error:
  assumes "boot_descs c bs = Panic p"
  shows "find_target c s i bs target = Panic p"
  using assms
proof (induction bs arbitrary: i target)
  case (Cons b bs)
  then show ?case by (cases "boot_desc c b"; cases "boot_descs c bs") auto
qed simp

text \<open>The handler on files, with the write spelt out.\<close>

lemma RestartTo_eq:
  "RestartTo E ops bootEntry m =
     (case BootOrder_Get (FsContext (vars m)) of
        Err e \<Rightarrow> (Err e, m)
      | Panic p \<Rightarrow> (Panic p, m)
      | Blocked \<Rightarrow> (Blocked, m)
      | Ok (attr, order) \<Rightarrow>
          (case find_target (FsContext (vars m)) bootEntry 0 order None of
             Err e \<Rightarrow> (Err e, m)
           | Panic p \<Rightarrow> (Panic p, m)
           | Blocked \<Rightarrow> (Blocked, m)
           | Ok None \<Rightarrow> (Err ''boot entry not found'', m)
           | Ok (Some t) \<Rightarrow>
               (case put_order 0 (move_to_front order t) (replicate (length (move_to_front order t) * 2) 0) of
                  Ok out \<Rightarrow>
                    (case efi_set (refuses E) (vars m) ''BootOrder'' attr out of
                       (Some e, fs) \<Rightarrow> (Err e, m\<lparr>vars := fs\<rparr>)
                     | (None, fs) \<Rightarrow> Restart ops (m\<lparr>vars := fs\<rparr>))
                | Err e \<Rightarrow> (Err e, m)
                | Panic p \<Rightarrow> (Panic p, m)
                | Blocked \<Rightarrow> (Blocked, m))))"
  by (simp add: RestartTo_def RestartTo_on_def file_store_def Let_def
      split: res.split option.split prod.split)

text \<open>What a successful search leads to.\<close>

lemma RestartTo_found:
  assumes "BootOrder_Get (FsContext (vars m)) = Ok (attr, order)"
    and "boot_descs (FsContext (vars m)) order = Ok ds"
    and "last_match entry ds (Some t)"
  shows "RestartTo E ops entry m =
     (case efi_set (refuses E) (vars m) ''BootOrder'' attr
             (concat (map put_u16 (move_to_front order t))) of
        (Some e, fs) \<Rightarrow> (Err e, m\<lparr>vars := fs\<rparr>)
      | (None, fs) \<Rightarrow> Restart ops (m\<lparr>vars := fs\<rparr>))"
  using assms(1) find_target_eq [OF assms(2,3)]
  by (simp add: RestartTo_eq put_order_all)

lemma RestartTo_on_found:
  assumes "BootOrder_Get (st_ctx C s) = Ok (attr, order)"
    and "boot_descs (st_ctx C s) order = Ok ds"
    and "last_match entry ds (Some t)"
  shows "RestartTo_on C restart entry s =
     (case st_Set C ''BootOrder'' attr (concat (map put_u16 (move_to_front order t))) s of
        (Some e, s') \<Rightarrow> (Err e, s')
      | (None, s') \<Rightarrow> restart s')"
  using assms(1) find_target_eq [OF assms(2,3)]
  by (simp add: RestartTo_on_def Let_def put_order_all)

text \<open>
  What a \<open>RestartTo\<close> does on any store that keeps the contract: the new boot order is a
  permutation that begins with the target, and every other variable reads as before.
\<close>

locale order_store = store: var_store "\<lambda>s. ReadAll (st_ctx C s)" "\<lambda>s n a v. st_Set C n a v s" adm
  for C :: "'s efi_store" and adm
begin

lemma order_moved:
  assumes "BootOrder_Get (st_ctx C s) = Ok (attr, order)"
    and "boot_descs (st_ctx C s) order = Ok ds"
    and "last_match entry ds (Some t)"
    and "adm attr (concat (map put_u16 (move_to_front order t)))"
    and "st_Set C ''BootOrder'' attr (concat (map put_u16 (move_to_front order t))) s = (None, s')"
  shows "RestartTo_on C restart entry s = restart s'"
    and "BootOrder_Get (st_ctx C s') = Ok (attr, move_to_front order t)"
    and "n \<noteq> ''BootOrder'' \<Longrightarrow> ReadAll (st_ctx C s') n = ReadAll (st_ctx C s) n"
proof -
  show "RestartTo_on C restart entry s = restart s'"
    using RestartTo_on_found [OF assms(1-3)] assms(5) by simp
  show "BootOrder_Get (st_ctx C s') = Ok (attr, move_to_front order t)"
    using store.rd_wr [OF assms(5,4)] by (rule BootOrder_Get_encoded)
  show "n \<noteq> ''BootOrder'' \<Longrightarrow> ReadAll (st_ctx C s') n = ReadAll (st_ctx C s) n"
    by (rule store.rd_other [OF assms(5,4)])
qed

lemma order_refused:
  assumes "BootOrder_Get (st_ctx C s) = Ok (attr, order)"
    and "boot_descs (st_ctx C s) order = Ok ds"
    and "last_match entry ds (Some t)"
    and "adm attr (concat (map put_u16 (move_to_front order t)))"
    and "st_Set C ''BootOrder'' attr (concat (map put_u16 (move_to_front order t))) s = (Some e, s')"
  shows "RestartTo_on C restart entry s = (Err e, s')"
    and "ReadAll (st_ctx C s') n = ReadAll (st_ctx C s) n"
  using RestartTo_on_found [OF assms(1-3)] assms(5) store.refused [OF assms(5,4)] by simp_all

end

interpretation on_files: order_store "file_store E" "\<lambda>a v. length v \<le> 2048" for E
proof (unfold_locales, goal_cases)
  case (1 s n a v s')
  then show ?case by (auto simp: file_store_def split: prod.splits intro: efi.rd_wr)
next
  case (2 s n a v s' m)
  then show ?case by (auto simp: file_store_def split: prod.splits intro: efi.rd_other)
next
  case (3 s n a v e s' m)
  then show ?case by (auto simp: file_store_def split: prod.splits dest: efi_set_refused)
qed

lemma slice_u16_length: "slice_u16 i bs = Ok vs \<Longrightarrow> length bs = 2 * length vs"
  by (induction i bs arbitrary: vs rule: slice_u16.induct) auto

section \<open>Lemmas on the description of a load option\<close>

lemma desc_loop_text:
  assumes "length pre = 6 + 2 * length acc" and "0 \<notin> set us" and "rest \<noteq> []"
    and "length us \<le> z"
  shows "desc_loop (pre @ concat (map put_u16 us) @ put_u16 0 @ rest) (6 + 2 * length acc)
           (acc @ replicate z 0)
         = Ok (runes_str (utf16_decode (acc @ us)))"
  using assms
proof (induction us arbitrary: pre acc z)
  case Nil
  then show ?case
    by (subst desc_loop.simps)
       (simp add: slice_from_def f16.length_put f16.get_put slice_def)
next
  case (Cons u us)
  obtain y where z: "z = Suc y" using Cons.prems(4) by (cases z) auto
  let ?b = "pre @ concat (map put_u16 (u # us)) @ put_u16 0 @ rest"
  have upd: "(acc @ replicate z 0)[length acc := u] = (acc @ [u]) @ replicate y 0"
    by (simp add: z)
  have "desc_loop ((pre @ put_u16 u) @ concat (map put_u16 us) @ put_u16 0 @ rest)
          (6 + 2 * length (acc @ [u])) ((acc @ [u]) @ replicate y 0)
        = Ok (runes_str (utf16_decode ((acc @ [u]) @ us)))"
    using Cons.prems z by (intro Cons.IH) (auto simp: f16.length_put)
  moreover have "desc_loop ?b (6 + 2 * length acc) (acc @ replicate z 0)
      = desc_loop ?b (6 + 2 * length (acc @ [u])) ((acc @ [u]) @ replicate y 0)"
    using Cons.prems upd
    by (subst desc_loop.simps)
       (simp add: slice_from_def f16.length_put f16.get_put z del: replicate.simps)
  ultimately show ?case by simp
qed

lemma getEnvVar_value:
  assumes "fs (getFileName name) = Some (put_u32 a @ data)"
  shows "getEnvVar (FsContext fs) name = Ok data"
proof -
  have "efi_get fs name (replicate (length data) 0) = (a, length data, data, None)"
    using assms by (rule efi_get_exact) simp
  with assms show ?thesis by (simp add: getEnvVar_def FsContext_def GetSizeHint_def f32.length_put)
qed

text \<open>The loop indexes \<open>str\<close> in range and reads within the variable: it never panics.\<close>

lemma desc_loop_no_panic:
  assumes "length str = length b div 2" and "6 \<le> i"
  shows "\<exists>s. desc_loop b i str = Ok s"
  using assms
proof (induction b i str rule: desc_loop.induct)
  case (1 b i str)
  show ?case
  proof (cases "i + 2 < length b")
    case False
    then show ?thesis by (subst desc_loop.simps) simp
  next
    case True
    then have "2 \<le> length (drop i b)" by simp
    from f16.get_long [OF this] obtain v where g: "get_u16 (drop i b) = Ok v" ..
    have r: "slice_from b i = Ok (drop i b)" using True by (simp add: slice_from_def)
    have v: "bind_res (slice_from b i) get_u16 = Ok v" using r g by simp
    have idx: "i div 2 - 3 < length str" using True "1.prems" by linarith
    show ?thesis
    proof (cases "v = 0")
      case True
      with r g idx \<open>i + 2 < length b\<close> show ?thesis
        by (subst desc_loop.simps) (simp add: slice_def)
    next
      case False
      have "\<exists>s. desc_loop b (i + 2) (str[i div 2 - 3 := v]) = Ok s"
        using "1.IH" [OF True False idx] "1.prems" by simp
      with r g idx True False show ?thesis by (subst desc_loop.simps) simp
    qed
  qed
qed


end
