(* ===== verification/Power_Ctl_Correct.thy ===== *)
theory Power_Ctl_Correct
  imports Power_Ctl
begin

text \<open>
  The correctness of the power-control service: which boot option a \<open>RestartTo\<close> order selects
  and what it stores, the error branches, the platform halves, and the reading of boot-option
  descriptions.  The sample machine serves the instances that show each hypothesis can hold.
\<close>

lemma getBootDesc_option:
  assumes "fs (getFileName name)
             = Some (put_u32 a @ put_u32 attr @ put_u16 plen @ concat (map put_u16 us) @ put_u16 0 @ rest)"
    and "0 \<notin> set us" and "rest \<noteq> []"
  shows "getBootDesc (FsContext fs) name = Ok (runes_str (utf16_decode us))"
proof -
  let ?b = "put_u32 attr @ put_u16 plen @ concat (map put_u16 us) @ put_u16 0 @ rest"
  let ?pre = "put_u32 attr @ put_u16 plen"
  have ev: "getEnvVar (FsContext fs) name = Ok ?b" by (rule getEnvVar_value) (rule assms(1))
  have "desc_loop (?pre @ concat (map put_u16 us) @ put_u16 0 @ rest) (6 + 2 * length ([] :: u16 list))
          ([] @ replicate (length ?b div 2) 0) = Ok (runes_str (utf16_decode ([] @ us)))"
    by (rule desc_loop_text) (use assms(2,3) in \<open>auto simp: f16.length_put f32.length_put\<close>)
  then have "desc_loop ?b 6 (replicate (length ?b div 2) 0) = Ok (runes_str (utf16_decode us))"
    by simp
  moreover have "get_u32 ?b = Ok attr" by (rule f32.get_put)
  moreover have "bind_res (slice_from ?b 4) get_u16 = Ok plen"
    by (simp add: slice_from_def f32.length_put f16.get_put)
  ultimately show ?thesis by (simp add: getBootDesc_def ev del: bind_res_Ok_iff length_append)
qed

lemma getEnvVar_file:
  assumes "fs (getFileName name) = Some file" and "4 \<le> length file"
  shows "getEnvVar (FsContext fs) name = Ok (drop 4 file)"
  using assms
  by (auto simp: getEnvVar_def FsContext_def GetSizeHint_def efi_get_def readEfiVarFileName_def Let_def)

lemma move_to_front_filter:
  "t < length order \<Longrightarrow>
     filter (\<lambda>v. v \<noteq> order ! t) (move_to_front order t) = filter (\<lambda>v. v \<noteq> order ! t) order"
  by (subst (3) id_take_nth_drop [of t order]) (simp_all add: move_to_front_def)

lemma boot_desc_cong:
  assumes "fs (getFileName (boot_name boot)) = gs (getFileName (boot_name boot))"
  shows "boot_desc (FsContext fs) boot = boot_desc (FsContext gs) boot"
proof -
  have "efi_get fs (boot_name boot) = efi_get gs (boot_name boot)"
    by (rule ext) (simp add: efi_get_def readEfiVarFileName_def assms)
  then have g: "ctx_Get (FsContext fs) (boot_name boot) = ctx_Get (FsContext gs) (boot_name boot)"
    by (intro ext) (simp add: FsContext_def)
  have h: "ctx_GetSizeHint (FsContext fs) (boot_name boot) = ctx_GetSizeHint (FsContext gs) (boot_name boot)"
    by (simp add: FsContext_def GetSizeHint_def assms)
  show ?thesis unfolding boot_desc_def getBootDesc_def getEnvVar_def g h ..
qed

section \<open>A sample machine\<close>

text \<open>Two boot options, \<open>L\<close> and \<open>W\<close>, in this order, and a firmware that takes every write.\<close>

definition demo_option :: "u16 list \<Rightarrow> u8 list" where
  "demo_option us = put_u32 1 @ put_u16 4 @ concat (map put_u16 us) @ put_u16 0 @ [0x7F, 0xFF, 4, 0]"

definition demo_vars :: efivarfs where
  "demo_vars =
     [getFileName ''BootOrder'' \<mapsto> put_u32 7 @ concat (map put_u16 [1, 2]),
      getFileName ''Boot0001'' \<mapsto> put_u32 7 @ demo_option [76],
      getFileName ''Boot0002'' \<mapsto> put_u32 7 @ demo_option [87]]"

definition demo_machine :: "efivarfs machine" where
  "demo_machine = \<lparr>vars = demo_vars, actions = []\<rparr>"

definition demo_env :: env where
  "demo_env = \<lparr>refuses = (\<lambda>f b. None), reboot = (\<lambda>c. Some (-1)), command = (\<lambda>c. ([], None))\<rparr>"

definition demo_redhat_vars :: efivarfs where
  "demo_redhat_vars =
     [getFileName ''BootOrder'' \<mapsto> put_u32 7 @ concat (map put_u16 [1]),
      getFileName ''Boot0001'' \<mapsto> put_u32 7 @ demo_option [82, 101, 100, 32, 72, 97, 116]]"

lemma demo_order: "BootOrder_Get (FsContext demo_vars) = Ok (7, [1, 2])"
  by code_simp


lemma demo_chars: "char_of (49::nat) = CHR ''1''" "char_of (50::nat) = CHR ''2''"
    "char_of (76::nat) = CHR ''L''" "char_of (87::nat) = CHR ''W''"
  by code_simp+

lemma demo_name: "boot_name 1 = ''Boot0001''" "boot_name 2 = ''Boot0002''"
  by (simp_all add: boot_name_def fmt_04d_def pad4_def num_str.simps digit_char_def demo_chars
      numeral_3_eq_3)

lemma demo_trim: "str_trim_space ''L'' = ''L''"  "str_trim_space ''W'' = ''W''"
  by (simp_all add: str_trim_space_def trim_left_id go_spaces_def)

lemma demo_getdesc: "getBootDesc (FsContext demo_vars) ''Boot0001'' = Ok ''L''" "getBootDesc (FsContext demo_vars) ''Boot0002'' = Ok ''W''"
  using getBootDesc_option [of demo_vars "''Boot0001''" 7 1 4 "[76]" "[0x7F, 0xFF, 4, 0]"]
   getBootDesc_option [of demo_vars "''Boot0002''" 7 1 4 "[87]" "[0x7F, 0xFF, 4, 0]"]
  by (simp_all add: demo_vars_def demo_option_def runes_str_def utf8_rune_def demo_chars)

lemma demo_descs: "boot_descs (FsContext demo_vars) [1, 2] = Ok [''L'', ''W'']"
  by (simp add: boot_desc_def demo_name demo_getdesc demo_trim)

lemma demo_machine_order: "BootOrder_Get (FsContext (vars demo_machine)) = Ok (7, [1, 2])"
  by (simp add: demo_machine_def demo_order)

lemma demo_machine_descs: "boot_descs (FsContext (vars demo_machine)) [1, 2] = Ok [''L'', ''W'']"
  by (simp add: demo_machine_def demo_descs del: boot_descs.simps)

lemma demo_takes: "refuses demo_env f b = None"
  by (simp add: demo_env_def)

lemma demo_targets: "last_match ''W'' [''L'', ''W''] (Some 1)" "last_match ''X'' [''L'', ''W''] None"
  by (auto simp: last_match_def str_contains_def less_Suc_eq)

section \<open>Properties\<close>

text \<open>
  C9: a successful \<open>RestartTo\<close> stores, under the attributes the boot order had, a permutation
  of it that begins with the last entry whose description contains the request and keeps the
  other entries in their order; no other variable changes, and only then is the restart taken.
\<close>

theorem RestartTo_success:
  assumes "BootOrder_Get (FsContext (vars m)) = Ok (attr, order)"
    and "boot_descs (FsContext (vars m)) order = Ok ds"
    and "last_match entry ds (Some t)"
    and "length order \<le> 1024"
    and "refuses E (getFileName ''BootOrder'')
           (put_u32 attr @ concat (map put_u16 (move_to_front order t))) = None"
  shows "\<exists>fs order'. RestartTo E ops entry m = Restart ops (m\<lparr>vars := fs\<rparr>)
     \<and> BootOrder_Get (FsContext fs) = Ok (attr, order')
     \<and> mset order' = mset order \<and> hd order' = order ! t
     \<and> filter (\<lambda>v. v \<noteq> order ! t) order' = filter (\<lambda>v. v \<noteq> order ! t) order
     \<and> (\<forall>n. n \<noteq> ''BootOrder'' \<longrightarrow> ReadAll (FsContext fs) n = ReadAll (FsContext (vars m)) n)"
proof -
  have t: "t < length order"
    using assms(3) boot_descs_length [OF assms(2)] by (simp add: last_match_def)
  let ?new = "move_to_front order t"
  obtain fs where "efi_set (refuses E) (vars m) ''BootOrder'' attr (concat (map put_u16 ?new)) = (None, fs)"
    using assms(5) by (simp add: efi_set_def)
  then have "st_Set (file_store E) ''BootOrder'' attr (concat (map put_u16 ?new)) m = (None, m\<lparr>vars := fs\<rparr>)"
    by (simp add: file_store_def)
  note moved = on_files.order_moved [OF _ _ assms(3) _ this]
  have "RestartTo E ops entry m = Restart ops (m\<lparr>vars := fs\<rparr>)"
    and "BootOrder_Get (FsContext fs) = Ok (attr, ?new)"
    and "n \<noteq> ''BootOrder'' \<Longrightarrow> ReadAll (FsContext fs) n = ReadAll (FsContext (vars m)) n" for n
    using moved(1) [where restart = "Restart ops"] moved(2) moved(3) [where n = n] assms(1,2,4) t
    by (simp_all add: file_store_def RestartTo_def move_to_front_length)
  then show ?thesis
    using move_to_front_mset [OF t] move_to_front_filter [OF t]
    by (intro exI [of _ fs] exI [of _ ?new]) (simp add: move_to_front_def)
qed

theorem RestartTo_success_witness:
  "\<exists>fs order'. RestartTo demo_env (linux_ops demo_env) ''W'' demo_machine
       = Restart (linux_ops demo_env) (demo_machine\<lparr>vars := fs\<rparr>)
     \<and> BootOrder_Get (FsContext fs) = Ok (7, order') \<and> mset order' = mset [1, 2] \<and> hd order' = 2"
  using RestartTo_success [OF demo_machine_order demo_machine_descs demo_targets(1) _ demo_takes,
      of "linux_ops demo_env"] by auto

text \<open>
  C10: when no boot entry matches, or the firmware refuses the write, \<open>RestartTo\<close> returns an
  error, leaves every variable as it was and takes no system action.
\<close>

theorem RestartTo_failure:
  assumes "BootOrder_Get (FsContext (vars m)) = Ok (attr, order)"
    and "boot_descs (FsContext (vars m)) order = Ok ds"
    and "last_match entry ds t"
    and "t = None \<or> (\<forall>f b. refuses E f b \<noteq> None)"
  shows "\<exists>e. RestartTo E ops entry m = (Err e, m)"
proof (cases t)
  case None
  then have "find_target (FsContext (vars m)) entry 0 order None = Ok None"
    using find_target_eq [OF assms(2,3)] by simp
  with assms(1) show ?thesis by (simp add: RestartTo_eq)
next
  case (Some i)
  with assms(4) have "\<exists>e. refuses E f b = Some e" for f b by auto
  then obtain e0 where "refuses E (getFileName ''BootOrder'')
      (put_u32 attr @ concat (map put_u16 (move_to_front order i))) = Some e0" by blast
  then obtain e where "efi_set (refuses E) (vars m) ''BootOrder'' attr
      (concat (map put_u16 (move_to_front order i))) = (Some e, vars m)"
    by (simp add: efi_set_def)
  with RestartTo_found [OF assms(1,2) assms(3) [unfolded Some]] show ?thesis by simp
qed

theorem RestartTo_failure_witness:
  "\<exists>e. RestartTo demo_env (linux_ops demo_env) ''X'' demo_machine = (Err e, demo_machine)"
  by (rule RestartTo_failure [OF demo_machine_order demo_machine_descs demo_targets(2)]) simp

text \<open>
  \<open>RestartToOnce\<close> restarts exactly when the write of \<open>BootNext\<close> fails: an accepted write
  stores the target under the default attributes and returns success without restarting; a
  refused one goes on to restart with the variables unchanged.
\<close>

lemma RestartToOnce_inverted:
  assumes "BootOrder_Get (FsContext (vars m)) = Ok (attr, order)"
    and "boot_descs (FsContext (vars m)) order = Ok ds"
    and "last_match ''Red Hat'' ds (Some t)"
  shows "case refuses E (getFileName ''BootNext'') (put_u32 7 @ put_u16 (order ! t)) of
      None \<Rightarrow> \<exists>fs. RestartToOnce E ops 2 m = (Ok (), m\<lparr>vars := fs\<rparr>)
                  \<and> BootNext_Get (FsContext fs) = Ok (7, order ! t)
    | Some e \<Rightarrow> RestartToOnce E ops 2 m = Restart ops m"
proof -
  have attrs: "defaultAttrs = 7" by (simp add: defaultAttrs_def)
  have ft: "find_target (FsContext (vars m)) ''Red Hat'' 0 order None = Ok (Some t)"
    using find_target_eq [OF assms(2,3)] .
  show ?thesis
  proof (cases "refuses E (getFileName ''BootNext'') (put_u32 7 @ put_u16 (order ! t))")
    case (Some e)
    with assms(1) ft attrs show ?thesis
      by (simp add: RestartToOnce_def RestartToOnce_on_def file_store_def BootNext_Set_def efi_set_def)
  next
    case None
    then obtain fs where fs: "efi_set (refuses E) (vars m) ''BootNext'' 7 (put_u16 (order ! t)) = (None, fs)"
      by (simp add: efi_set_def)
    have "ReadAll (FsContext fs) ''BootNext'' = Ok (7, put_u16 (order ! t))"
      using efi.rd_wr [OF fs] by (simp add: f16.length_put)
    moreover have "put_u16 (order ! t) \<noteq> []" using f16.length_put [of "order ! t"] by auto
    ultimately have "BootNext_Get (FsContext fs) = Ok (7, order ! t)"
      using le_put_inverse_16 [of "order ! t"]
      by (simp add: BootNext_Get_def f16.length_put) (simp add: put_u16_def)
    with None assms(1) ft attrs fs show ?thesis
      by (auto simp: RestartToOnce_def RestartToOnce_on_def file_store_def BootNext_Set_def)
  qed
qed

lemma demo_redhat:
  "BootOrder_Get (FsContext demo_redhat_vars) = Ok (7, [1])" "boot_descs (FsContext demo_redhat_vars) [1] = Ok [''Red Hat'']"
proof -
  have "ReadAll (FsContext demo_redhat_vars) ''BootOrder'' = Ok (7, concat (map put_u16 [1]))"
    by (rule ReadAll_exact) (simp_all add: demo_redhat_vars_def f16.length_put)
  then show "BootOrder_Get (FsContext demo_redhat_vars) = Ok (7, [1])" by (rule BootOrder_Get_encoded)
  have "getBootDesc (FsContext demo_redhat_vars) ''Boot0001'' = Ok (runes_str (utf16_decode [82, 101, 100, 32, 72, 97, 116]))"
    by (rule getBootDesc_option [where rest = "[0x7F, 0xFF, 4, 0]"])
       (simp_all add: demo_redhat_vars_def demo_option_def)
  moreover have "map char_of [82 :: nat, 101, 100, 32, 72, 97, 116] = ''Red Hat''"
    by code_simp
  then have "runes_str (utf16_decode [82, 101, 100, 32, 72, 97, 116]) = ''Red Hat''"
    by (simp add: runes_str_def utf8_rune_def)
  moreover have "str_trim_space ''Red Hat'' = ''Red Hat''"
    by (simp add: str_trim_space_def trim_left_id go_spaces_def)
  ultimately show "boot_descs (FsContext demo_redhat_vars) [1] = Ok [''Red Hat'']"
    by (simp add: boot_desc_def demo_name)
qed

lemma RestartToOnce_inverted_witness:
  "\<exists>fs. RestartToOnce demo_env (linux_ops demo_env) 2 \<lparr>vars = demo_redhat_vars, actions = []\<rparr>
       = (Ok (), \<lparr>vars = fs, actions = []\<rparr>) \<and> BootNext_Get (FsContext fs) = Ok (7, 1)"
proof -
  let ?m = "\<lparr>vars = demo_redhat_vars, actions = []\<rparr>"
  have "last_match ''Red Hat'' [''Red Hat''] (Some 0)"
    by (auto simp: last_match_def str_contains_def)
  with RestartToOnce_inverted [of ?m 7 "[1]" "[''Red Hat'']" 0 demo_env "linux_ops demo_env"]
  show ?thesis by (simp add: demo_redhat demo_takes del: boot_descs.simps)
qed

text \<open>
  Under Linux a restart or shutdown order that returns to the caller at all is reported as
  failed with result -1, and the kernel was asked to sync before the reboot call.
\<close>

lemma linux_power_orders:
  assumes "po_order req = PowerStatusCommand_Restart \<or> po_order req = PowerStatusCommand_Shutdown"
    and "PowerCtl E (linux_ops E) req m = (r, m')"
  shows "(r = Blocked \<or> (\<exists>n. r = Ok \<lparr>res_code = - 1, res_message = ''Restart failed:'' @ str_itoa n\<rparr>))
     \<and> vars m' = vars m \<and> (\<exists>cmd. actions m' = actions m @ [Sync, Reboot cmd])"
  using assms
  by (auto simp: PowerCtl_def PowerCtl_on_def PowerStatusCommand_defs linux_ops_def linux_Restart_def
      linux_Shutdown_def linux_reboot_def Let_def split: option.splits)

lemma linux_power_orders_witness:
  "\<exists>n. PowerCtl demo_env (linux_ops demo_env) \<lparr>po_order = 1, po_bootEntry = []\<rparr> demo_machine
     = (Ok \<lparr>res_code = - 1, res_message = ''Restart failed:'' @ str_itoa n\<rparr>,
        act (Reboot ''RB_AUTOBOOT'') (act Sync demo_machine))"
proof -
  let ?req = "\<lparr>po_order = 1, po_bootEntry = []\<rparr>"
  have run: "PowerCtl demo_env (linux_ops demo_env) ?req demo_machine
      = (Ok \<lparr>res_code = - 1, res_message = ''Restart failed:'' @ str_itoa (- 1)\<rparr>,
         act (Reboot ''RB_AUTOBOOT'') (act Sync demo_machine))"
    by (simp add: PowerCtl_def PowerCtl_on_def PowerStatusCommand_defs linux_ops_def linux_Restart_def
        linux_reboot_def demo_env_def)
  have "po_order ?req = PowerStatusCommand_Restart \<or> po_order ?req = PowerStatusCommand_Shutdown"
    by (simp add: PowerStatusCommand_defs)
  from linux_power_orders [OF this run] run show ?thesis by auto
qed

text \<open>
  The Windows \<open>Logout\<close> logs nobody off and reports success whenever the session query
  itself succeeds, whatever sessions it lists.
\<close>

lemma windows_Logout_skips:
  assumes "snd (command E [''query'', ''session'']) = None"
  shows "windows_Logout E m = (Ok (), act (Command [''query'', ''session'']) m)"
  using assms
  by (cases "command E [''query'', ''session'']") (simp add: windows_Logout_def)

lemma windows_Logout_skips_witness:
  "windows_Logout (demo_env\<lparr>command := (\<lambda>c. ('' x  u  1  Active'', None))\<rparr>) demo_machine
     = (Ok (), act (Command [''query'', ''session'']) demo_machine)"
  by (rule windows_Logout_skips) simp

text \<open>
  The description of a load option is the text before the terminating zero unit, decoded
  from UTF-16: for every text of non-zero Unicode scalars followed by at least one more byte,
  parsing what firmware stores gives the text in UTF-8.
\<close>

lemma getBootDesc_roundtrip:
  assumes "fs (getFileName name) = Some (put_u32 a @ put_u32 attr @ put_u16 plen
             @ concat (map put_u16 (concat (map utf16_units text))) @ put_u16 0 @ rest)"
    and "\<forall>r \<in> set text. scalar r \<and> 0 < r" and "rest \<noteq> []"
  shows "getBootDesc (FsContext fs) name = Ok (runes_str text)"
proof -
  have nz: "0 \<notin> set (concat (map utf16_units text))"
    using assms(2) utf16_units_nonzero by auto
  have "getBootDesc (FsContext fs) name = Ok (runes_str (utf16_decode (concat (map utf16_units text))))"
    by (rule getBootDesc_option [where a = a and attr = attr and plen = plen and rest = rest])
       (fact assms(1) nz assms(3))+
  then show ?thesis using assms(2) by (simp add: utf16_decode_text)
qed

lemma getBootDesc_roundtrip_witness:
  "getBootDesc (FsContext [getFileName ''Boot0000'' \<mapsto> put_u32 7 @ put_u32 1 @ put_u16 4
       @ concat (map put_u16 (concat (map utf16_units [0x1F600, 65]))) @ put_u16 0 @ [0x7F]]) ''Boot0000''
     = Ok (runes_str [0x1F600, 65])"
  by (rule getBootDesc_roundtrip [where rest = "[0x7F]"]) (simp_all add: scalar_def)

text \<open>
  Reading a description panics exactly when the variable file is shorter than its four
  attribute bytes, or holds a value of one to five bytes; in every other case, a missing
  variable included, it returns a string.
\<close>

lemma getBootDesc_total:
  "(\<exists>s. getBootDesc (FsContext fs) name = Ok s) \<longleftrightarrow>
     (case fs (getFileName name) of
        None \<Rightarrow> True
      | Some file \<Rightarrow> length file = 4 \<or> 10 \<le> length file)"
proof (cases "fs (getFileName name)")
  case None
  then show ?thesis by (simp add: getBootDesc_def getEnvVar_def FsContext_def GetSizeHint_def)
next
  case (Some v)
  show ?thesis
  proof (cases "length v < 4")
    case True
    with Some show ?thesis by (auto simp: getBootDesc_def getEnvVar_def FsContext_def GetSizeHint_def)
  next
    case False
    let ?b = "drop 4 v"
    have ev: "getEnvVar (FsContext fs) name = Ok ?b" by (rule getEnvVar_file) (use Some False in auto)
    have "\<exists>s. desc_loop ?b 6 (replicate (length ?b div 2) 0) = Ok s"
      by (rule desc_loop_no_panic) simp_all
    moreover have "(\<exists>v. get_u32 ?b = Ok v) \<longleftrightarrow> 4 \<le> length ?b" by (rule f32.get_Ok_iff)
    moreover have "(\<exists>v. get_u16 (drop 4 ?b) = Ok v) \<longleftrightarrow> 2 \<le> length (drop 4 ?b)"
      by (rule f16.get_Ok_iff)
    ultimately show ?thesis
      using Some False ev by (auto simp: getBootDesc_def slice_from_def)
  qed
qed

text \<open>
  The variable looked up for a boot number is named in decimal, while the firmware names it
  in hexadecimal: the two agree below ten only, and from ten on the description found does
  not depend on the entry's own variable.
\<close>

lemma boot_name_decimal:
  "(boot_name boot = ''Boot'' @ fmt_04X (unat boot) \<longleftrightarrow> unat boot < 10)
   \<and> (10 \<le> unat boot \<longrightarrow>
        boot_desc (FsContext (fs(getFileName (''Boot'' @ fmt_04X (unat boot)) := x))) boot = boot_desc (FsContext fs) boot)"
proof -
  have name: "boot_name boot = ''Boot'' @ fmt_04X (unat boot) \<longleftrightarrow> unat boot < 10"
    by (simp add: boot_name_def fmt_04d_eq_04X_iff)
  moreover have "boot_desc (FsContext (fs(getFileName (''Boot'' @ fmt_04X (unat boot)) := x))) boot = boot_desc (FsContext fs) boot"
    if "10 \<le> unat boot"
    using that name by (intro boot_desc_cong) (auto simp del: append_Cons append_Nil)
  ultimately show ?thesis by blast
qed

lemma boot_name_decimal_witness:
  "boot_name 10 \<noteq> ''Boot000A''
   \<and> boot_desc (FsContext (demo_vars(getFileName ''Boot000A'' := None))) 10 = boot_desc (FsContext demo_vars) 10"
proof -
  have "fmt_04X (unat (10 :: u16)) = ''000A''"
    by (simp add: fmt_04X_def pad4_def num_str.simps digit_char_def numeral_3_eq_3) code_simp
  then show ?thesis using boot_name_decimal [of "10" demo_vars None] by simp
qed

end
