(* ===== verification/Disk_Tools.thy ===== *)
theory Disk_Tools
  imports Go_Bytes
begin

text \<open>
  The pure and the read-only part of \<open>tools/parted/parted_linux.go\<close>: the arithmetic that
  places a partition, the look-up of block devices in \<open>/sys/class/block\<close> and
  \<open>/proc/partitions\<close>, the mixed-endian form of a UUID, the patch of a boot-configuration
  element, and the command lines of the file-system makers.  What a file or a directory
  holds is an argument; an error of the read is \<open>None\<close>.
\<close>

section \<open>Arithmetic\<close>

text \<open>\<open>GCD\<close>: Euclid's loop on Go's \<open>int\<close>, whose remainder takes the sign of the dividend.\<close>

function GCD_int :: "int \<Rightarrow> int \<Rightarrow> int" where
  "GCD_int a b = (if b = 0 then a else GCD_int b (go_rem a b))"
  by pat_completeness auto
termination
proof (relation "measure (\<lambda>(a, b). nat \<bar>b\<bar>)", goal_cases)
  case (2 a b)
  then show ?case using go_rem_abs [of a b] by (simp add: pos_mod_bound)
qed simp

declare GCD_int.simps [simp del]

text \<open>\<open>LCM(a, b, integers...)\<close>: the product wraps; dividing by a zero \<open>GCD\<close> panics.\<close>

definition LCM2 :: "int \<Rightarrow> int \<Rightarrow> int res" where
  "LCM2 a b =
     (if GCD_int a b = 0 then Panic DivideByZero
      else Ok (wrap_i64 (go_quot (wrap_i64 (a * b)) (GCD_int a b))))"

fun LCM_int :: "int \<Rightarrow> int \<Rightarrow> int list \<Rightarrow> int res" where
  "LCM_int a b [] = LCM2 a b"
| "LCM_int a b (c # cs) = bind_res (LCM2 a b) (\<lambda>r. LCM_int r c cs)"

lemma GCD_gcd: "0 \<le> a \<Longrightarrow> 0 \<le> b \<Longrightarrow> GCD_int a b = gcd a b"
proof (induction a b rule: GCD_int.induct)
  case (1 a b)
  show ?case
  proof (cases "b = 0")
    case True
    with "1.prems" show ?thesis by (simp add: GCD_int.simps)
  next
    case False
    with "1.prems" have "GCD_int b (a mod b) = gcd b (a mod b)" using "1.IH" by simp
    with False "1.prems" show ?thesis
      by (subst GCD_int.simps) (simp add: gcd_red_int [of a b] flip: )
  qed
qed

text \<open>
  The placement of a new partition: the first multiple of \<open>LCM(34, 2048)\<close> not below the end
  of the last partition, in C's \<open>long long\<close>; and its end, the size in megabytes turned into
  sectors, where the product is taken in \<open>uint64\<close>.
\<close>

definition mkpart_start :: "int \<Rightarrow> int res" where
  "mkpart_start start =
     bind_res (LCM_int 34 2048 []) (\<lambda>lcm.
       Ok (wrap_i64 (wrap_i64 (go_quot (wrap_i64 (start - 1)) lcm + 1) * lcm)))"

definition mkpart_end :: "int \<Rightarrow> u64 \<Rightarrow> int \<Rightarrow> int res" where
  "mkpart_end start sz sector =
     (if sector = 0 then Panic DivideByZero
      else Ok (wrap_i64 (start + wrap_i64 (go_quot (sint (sz * 1000 * 1000)) sector))))"

section \<open>UUIDs and boot-configuration elements\<close>

text \<open>
  \<open>EncodeUUID\<close>: the first three groups are byte-swapped into a copy of the data.  Writing a
  group is \<open>copy\<close> of its little-endian bytes; reading one indexes the data.
\<close>

definition EncodeUUID :: "u8 list \<Rightarrow> u8 list res" where
  "EncodeUUID data =
     bind_res (copy_at 0 data (replicate 16 0)) (\<lambda>ndata.
     bind_res (be_uint 4 data) (\<lambda>g1.
     bind_res (copy_at 0 (le_put 4 g1) ndata) (\<lambda>ndata.
     bind_res (bind_res (slice_from data 4) (be_uint 2)) (\<lambda>g2.
     bind_res (copy_at 4 (le_put 2 g2) ndata) (\<lambda>ndata.
     bind_res (bind_res (slice_from data 6) (be_uint 2)) (\<lambda>g3.
     copy_at 6 (le_put 2 g3) ndata))))))"

text \<open>
  The body of the walk of \<open>BCDFix\<close> for one element: the partition's UUID goes to offset 32,
  the disk's to offset 56.
\<close>

definition bcd_patch :: "u8 list \<Rightarrow> u8 list \<Rightarrow> u8 list \<Rightarrow> u8 list res" where
  "bcd_patch partUUID diskUUID data =
     bind_res (copy_at 32 partUUID data) (\<lambda>newData. copy_at 56 diskUUID newData)"

section \<open>Device look-up\<close>

text \<open>
  \<open>GetDiskDevByLocation\<close>: the entries of \<open>/sys/class/block/\<close> in directory order with their
  link targets; the first whose target contains the location gives the device.
\<close>

fun disk_by_location :: "string \<Rightarrow> (string \<times> string) list \<Rightarrow> string" where
  "disk_by_location loc [] = []"
| "disk_by_location loc ((name, info) # es) =
     (if str_contains info loc
      then ''/dev/'' @ last (str_split ''/block/'' info)
      else disk_by_location loc es)"

definition GetDiskDevByLocation :: "(string \<times> string) list option \<Rightarrow> string \<Rightarrow> string" where
  "GetDiskDevByLocation block loc =
     (case block of None \<Rightarrow> [] | Some es \<Rightarrow> disk_by_location loc es)"

text \<open>
  \<open>GetDevByPartNum\<close>: in the table of \<open>/proc/partitions\<close>, the row of the disk, then the row
  with the same major number and the minor number advanced by the partition number.
\<close>

fun find_minor :: "string \<Rightarrow> string \<Rightarrow> string list \<Rightarrow> string option" where
  "find_minor major minor [] = None"
| "find_minor major minor (device # ds) =
     (let fields = str_fields device in
      if length fields \<noteq> 4 then find_minor major minor ds
      else if fields ! 0 = major \<and> fields ! 1 = minor then Some (''/dev/'' @ fields ! 3)
      else find_minor major minor ds)"

fun find_disk :: "string \<Rightarrow> int \<Rightarrow> string list \<Rightarrow> string list \<Rightarrow> string" where
  "find_disk devName partNum devices [] = []"
| "find_disk devName partNum devices (device # ds) =
     (let fields = str_fields device in
      if length fields \<noteq> 4 then find_disk devName partNum devices ds
      else if fields ! 3 = devName then
        (case str_atoi (fields ! 1) of
           None \<Rightarrow> find_disk devName partNum devices ds
         | Some minorNum \<Rightarrow>
             (case find_minor (fields ! 0) (str_itoa (wrap_i64 (minorNum + partNum))) devices of
                Some dev \<Rightarrow> dev
              | None \<Rightarrow> find_disk devName partNum devices ds))
      else find_disk devName partNum devices ds)"

definition GetDevByPartNum :: "string option \<Rightarrow> string \<Rightarrow> int \<Rightarrow> string" where
  "GetDevByPartNum table disk partNum =
     (let slices = str_split ''/dev/'' disk in
      if length slices < 2 then []
      else case table of
        None \<Rightarrow> []
      | Some text \<Rightarrow>
          (let devices = tl (str_split [CHR 0x0A] text)
           in find_disk (slices ! 1) partNum devices devices))"

text \<open>
  \<open>GetDiskAndPartNum\<close>: the parent directory of a partition in the device tree, and the
  difference of the two device numbers.  The link of the class directory and the device
  number of a path are arguments.
\<close>

definition GetDiskAndPartNum ::
  "(string \<Rightarrow> goerr + string) \<Rightarrow> (string \<Rightarrow> u64 option) \<Rightarrow> string \<Rightarrow> (string \<times> int) res" where
  "GetDiskAndPartNum readlink rdev part =
     (let dev = (if str_contains part ''/'' then last (str_split ''/'' part) else part) in
      case readlink (''/sys/class/block/'' @ dev) of
        Inl e \<Rightarrow> Panic (Explicit e)
      | Inr devPath \<Rightarrow>
          (let parts = str_split ''/'' devPath in
           if length parts < 2 then Panic IndexRange
           else
             let parentDev = parts ! (length parts - 2) in
             case rdev part of
               None \<Rightarrow> Panic (Explicit (''Dev: '' @ part @ '' not found''))
             | Some st \<Rightarrow>
                 (case rdev (''/dev/'' @ parentDev) of
                    None \<Rightarrow> Panic (Explicit (''Dev: '' @ part @ '' not found''))
                  | Some pst \<Rightarrow> Ok (''/dev/'' @ parentDev, sint (st - pst)))))"

section \<open>File-system makers\<close>

definition Mkntfs_cmd :: "string \<Rightarrow> string \<Rightarrow> string list" where
  "Mkntfs_cmd target label =
     (if label \<noteq> [] then [''mkntfs'', ''-Q'', ''-L'', label, target]
      else [''mkntfs'', ''-Q'', target])"

definition Mkvfat_cmd :: "string \<Rightarrow> string \<Rightarrow> string list" where
  "Mkvfat_cmd target label =
     (if label \<noteq> [] then [''mkfs.vfat'', target] else [''mkfs.vfat'', ''-n'', label, target])"

end
