(* ===== verification/Disk_Tools_Correct.thy ===== *)
theory Disk_Tools_Correct
  imports Disk_Tools
begin

text \<open>
  The correctness of the disk tools: the arithmetic of \<open>GCD\<close>, \<open>LCM\<close> and the placement of a
  partition, the UUID transform and the element patch, the two device look-ups and the
  command lines.
\<close>

section \<open>Arithmetic\<close>

lemma LCM2_lcm:
  assumes "0 < a" and "0 < b" and "a * b < 2 ^ 63"
  shows "LCM2 a b = Ok (lcm a b)"
proof -
  have g: "GCD_int a b = gcd a b" using assms by (intro GCD_gcd) auto
  have w: "wrap_i64 (a * b) = a * b"
    using assms by (intro wrap_i64_id) (auto intro: order.trans [of _ 0])
  have q: "go_quot (a * b) (gcd a b) = lcm a b"
    using assms by (simp add: lcm_altdef_int)
  have "lcm a b \<le> a * b"
    using assms by (intro zdvd_imp_le) (auto intro: lcm_least)
  then have "wrap_i64 (lcm a b) = lcm a b"
    using assms by (intro wrap_i64_id) (auto intro: order.trans [of _ 0])
  with g w q assms show ?thesis by (simp add: LCM2_def)
qed

lemma prod_list_pos_int: "\<forall>c \<in> set cs. 0 < (c :: int) \<Longrightarrow> 1 \<le> prod_list cs"
proof (induction cs)
  case (Cons c cs)
  then show ?case using mult_mono [of 1 c 1 "prod_list cs"] by simp
qed simp

text \<open>
  \<open>LCM\<close> over positive arguments whose product fits an \<open>int\<close> is their least common
  multiple.
\<close>

lemma LCM_correct:
  assumes "0 < a" and "0 < b" and "\<forall>c \<in> set cs. 0 < c" and "a * b * prod_list cs < 2 ^ 63"
  shows "LCM_int a b cs = Ok (foldl lcm (lcm a b) cs)"
  using assms
proof (induction cs arbitrary: a b)
  case Nil
  then show ?case by (simp add: LCM2_lcm)
next
  case (Cons c cs)
  have P: "1 \<le> prod_list cs"
    using Cons.prems(3) by (intro prod_list_pos_int) auto
  have cP: "1 \<le> c * prod_list cs"
    using Cons.prems(3) P mult_mono [of 1 c 1 "prod_list cs"] by simp
  have ab: "0 < a * b" using Cons.prems by simp
  have le: "lcm a b \<le> a * b"
    using Cons.prems by (intro zdvd_imp_le) (auto intro: lcm_least)
  have "a * b * 1 \<le> a * b * (c * prod_list cs)"
    using ab cP by (intro mult_left_mono) simp_all
  have "a * b * (c * prod_list cs) < 2 ^ 63"
    using Cons.prems(4) by (simp add: ac_simps)
  note small = this
  have "a * b < 2 ^ 63" using small \<open>a * b * 1 \<le> a * b * (c * prod_list cs)\<close> by linarith
  then have step: "LCM2 a b = Ok (lcm a b)"
    using Cons.prems by (intro LCM2_lcm) auto
  have "lcm a b * (c * prod_list cs) \<le> a * b * (c * prod_list cs)"
    using le cP by (intro mult_right_mono) auto
  also have "\<dots> < 2 ^ 63" by (rule small)
  finally have "lcm a b * c * prod_list cs < 2 ^ 63" by (simp only: mult.assoc)
  then have "LCM_int (lcm a b) c cs = Ok (foldl lcm (lcm (lcm a b) c) cs)"
    using Cons.prems by (intro Cons.IH) (auto simp: lcm_pos_int)
  with step show ?case by simp
qed

lemma LCM_correct_witness: "LCM_int 34 2048 [12] = Ok 104448"
proof -
  have "LCM_int 34 2048 [12] = Ok (foldl lcm (lcm 34 2048) [12])"
    by (rule LCM_correct) simp_all
  also have "foldl lcm (lcm (34 :: int) 2048) [12] = 104448" by code_simp
  finally show ?thesis .
qed

lemma lcm_34_2048: "LCM2 34 2048 = Ok 34816"
  by code_simp

text \<open>
  C37: a new partition starts at a multiple of 34816 sectors, at most one multiple behind the
  last sector in use, and behind that sector except when the sector's number is itself a
  positive multiple: then the new partition starts at this sector and overlaps the last one.
\<close>

theorem mkpart_start_aligned:
  assumes "0 \<le> e" and "e < 2 ^ 62"
  shows "\<exists>r. mkpart_start e = Ok r \<and> 34816 dvd r \<and> r \<le> e + 34816
     \<and> (if 0 < e \<and> 34816 dvd e then r = e else e < r)"
proof (cases "e = 0")
  case True
  have "mkpart_start 0 = Ok 34816" by code_simp
  with True show ?thesis by simp
next
  case False
  define q where "q = (e - 1) div 34816"
  define m where "m = (e - 1) mod 34816"
  have e: "e = q * 34816 + m + 1" and m: "0 \<le> m" "m < 34816"
    by (simp_all add: q_def m_def)
  have q: "0 \<le> q" using assms False by (simp add: q_def pos_imp_zdiv_nonneg_iff)
  have "wrap_i64 (e - 1) = e - 1" "wrap_i64 (q + 1) = q + 1"
    "wrap_i64 ((q + 1) * 34816) = (q + 1) * 34816"
    using assms e m q by (auto intro!: wrap_i64_id)
  then have r: "mkpart_start e = Ok ((q + 1) * 34816)"
    using assms False by (simp add: mkpart_start_def lcm_34_2048 q_def)
  have "34816 dvd e \<longleftrightarrow> (m + 1) mod 34816 = 0"
    unfolding e by (simp add: dvd_eq_mod_eq_0 add.assoc)
  also have "\<dots> \<longleftrightarrow> m = 34815" using m by (cases "m = 34815") auto
  finally have "34816 dvd e \<longleftrightarrow> m = 34815" .
  with r e m assms(1) False show ?thesis by (auto simp: algebra_simps)
qed

theorem mkpart_start_aligned_witness:
  "(\<exists>r. mkpart_start 226222 = Ok r \<and> 226222 < r \<and> 34816 dvd r) \<and> mkpart_start 69632 = Ok 69632"
  using mkpart_start_aligned [of 226222] mkpart_start_aligned [of 69632] by auto

lemma sint_megabytes:
  assumes "unat (sz :: u64) < 9000000000000"
  shows "sint (sz * 1000 * 1000) = int (unat sz) * 1000000"
proof -
  have "unat (sz * 1000 * 1000) = unat sz * 1000000"
    using assms by (simp add: unat_word_ariths)
  then have u: "uint (sz * 1000 * 1000) = int (unat sz) * 1000000"
    by (metis int_ops(7) of_nat_numeral uint_nat)
  have "int (unat sz) < int 9000000000000" using assms by (simp only: of_nat_less_iff)
  moreover have "sint (sz * 1000 * 1000) = signed_take_bit 63 (uint (sz * 1000 * 1000))"
    by (simp add: sint_uint)
  moreover have "signed_take_bit 63 (x * 1000000) = x * 1000000"
    if "0 \<le> x" "x < 9000000000000" for x :: int
    using that by (intro signed_take_bit_int_eq_self) auto
  ultimately show ?thesis unfolding u by (simp del: of_nat_unat)
qed

lemma div_512_bound: "x < 9000000000000000000 \<Longrightarrow> x div 512 < (4611686018427387904 :: int)"
  by linarith

text \<open>
  The end of a partition is its start plus the requested megabytes in sectors as long as
  the byte count fits; from 2^64 bytes on the count wraps, and 18446744073710 megabytes become
  fewer sectors than one megabyte.
\<close>

lemma mkpart_end_sectors:
  assumes "unat sz < 9000000000000" and "0 \<le> start" and "start < 2 ^ 62" and "512 \<le> sector"
  shows "mkpart_end start sz sector = Ok (start + int (unat sz) * 1000000 div sector)
     \<and> mkpart_end start 18446744073710 512 = Ok (start + 875)"
proof
  let ?n = "int (unat sz) * 1000000"
  have mb: "sint (sz * 1000 * 1000) = ?n"
    using assms(1) by (intro sint_megabytes) simp
  have n: "0 \<le> ?n" "?n < 9000000000000000000"
    using assms(1) [folded of_nat_less_iff [where ?'a = int]] by simp_all
  have d: "0 \<le> ?n div sector" using n assms(4) by (simp add: pos_imp_zdiv_nonneg_iff)
  have "?n div sector \<le> ?n div 512"
    by (rule zdiv_mono2) (use n assms(4) in auto)
  moreover have "?n div 512 < 2 ^ 62" using div_512_bound [OF n(2)] by simp
  ultimately have "?n div sector < 2 ^ 62" by (rule order.strict_trans1)
  then have "wrap_i64 (?n div sector) = ?n div sector"
    "wrap_i64 (start + ?n div sector) = start + ?n div sector"
    using d assms(2,3) by (auto intro!: wrap_i64_id)
  then show "mkpart_end start sz sector = Ok (start + ?n div sector)"
    using mb assms(4) n by (simp add: mkpart_end_def)
  have "wrap_i64 (start + 875) = start + 875"
    using assms(2,3) by (intro wrap_i64_id) auto
  then show "mkpart_end start 18446744073710 512 = Ok (start + 875)"
    by (simp add: mkpart_end_def wrap_i64_id)
qed

lemma mkpart_end_sectors_witness: "mkpart_end 34816 100 512 = Ok (34816 + 195312)"
  using mkpart_end_sectors [of 100 34816 512] by simp

section \<open>UUIDs and elements\<close>

lemma be_uint_bytes: "be_uint k b = Ok v \<Longrightarrow> le_put k v = rev (take k b)"
  using le_put_get [of "rev (take k b)"] by (auto simp: be_uint_def min_def split: if_splits)

lemma be_uint_Ok: "k \<le> length b \<Longrightarrow> \<exists>v. be_uint k b = Ok v"
  by (simp add: be_uint_def)

text \<open>Overwriting the front of a buffer group by group.\<close>

lemma copy_at_front:
  "length pre = k \<Longrightarrow> k + length src \<le> length buf \<Longrightarrow>
     copy_at k src (pre @ drop k buf) = Ok ((pre @ src) @ drop (k + length src) buf)"
  by (simp add: copy_at_def add.commute)

lemma EncodeUUID_bytes:
  assumes "8 \<le> length data"
  shows "EncodeUUID data = Ok (rev (take 4 data) @ rev (take 2 (drop 4 data))
           @ rev (take 2 (drop 6 data)) @ drop 8 (take 16 data) @ replicate (16 - length data) 0)"
proof -
  define nd where "nd = take 16 data @ replicate (16 - length data) (0 :: u8)"
  have len: "length nd = 16" by (simp add: nd_def)
  have c0: "copy_at 0 data (replicate 16 0) = Ok nd" by (simp add: copy_at_def nd_def)
  obtain g1 where g1: "be_uint 4 data = Ok g1" using be_uint_Ok [of 4 data] assms by auto
  obtain g2 where g2: "be_uint 2 (drop 4 data) = Ok g2"
    using be_uint_Ok [of 2 "drop 4 data"] assms by fastforce
  obtain g3 where g3: "be_uint 2 (drop 6 data) = Ok g3"
    using be_uint_Ok [of 2 "drop 6 data"] assms by fastforce
  let ?a = "le_put 4 g1" and ?b = "le_put 2 g2" and ?c = "le_put 2 g3"
  have c1: "copy_at 0 ?a nd = Ok (?a @ drop 4 nd)"
    using copy_at_front [of "[]" 0 ?a nd] len by simp
  have c2: "copy_at 4 ?b (?a @ drop 4 nd) = Ok ((?a @ ?b) @ drop 6 nd)"
    using copy_at_front [of ?a 4 ?b nd] len by simp
  have c3: "copy_at 6 ?c ((?a @ ?b) @ drop 6 nd) = Ok ((?a @ ?b @ ?c) @ drop 8 nd)"
    using copy_at_front [of "?a @ ?b" 6 ?c nd] len by simp
  have s4: "slice_from data 4 = Ok (drop 4 data)" and s6: "slice_from data 6 = Ok (drop 6 data)"
    using assms by (simp_all add: slice_from_def)
  have "EncodeUUID data = Ok ((?a @ ?b @ ?c) @ drop 8 nd)"
    unfolding EncodeUUID_def c0 bind_res.simps g1 c1 s4 g2 c2 s6 g3 c3 ..
  moreover have "drop 8 nd = drop 8 (take 16 data) @ replicate (16 - length data) 0"
    using assms by (simp add: nd_def)
  ultimately show ?thesis
    using be_uint_bytes [OF g1] be_uint_bytes [OF g2] be_uint_bytes [OF g3] by simp
qed

lemma EncodeUUID_twice:
  assumes len: "length data = 16"
  shows "is_ok (EncodeUUID data) \<and> bind_res (EncodeUUID data) EncodeUUID = Ok data"
proof -
  let ?u = "rev (take 4 data) @ rev (take 2 (drop 4 data)) @ rev (take 2 (drop 6 data)) @ drop 8 data"
  have "EncodeUUID data = Ok ?u" using EncodeUUID_bytes [of data] len by simp
  moreover have "EncodeUUID ?u = Ok (take 4 data @ take 2 (drop 4 data) @ take 2 (drop 6 data) @ drop 8 data)"
    using EncodeUUID_bytes [of ?u] len by simp
  moreover have "take 4 data @ take 2 (drop 4 data) @ take 2 (drop 6 data) @ drop 8 data = data"
    by (metis (no_types, lifting) append_take_drop_id drop_drop numeral_plus_numeral
        semiring_norm(2) semiring_norm(3) semiring_norm(4) semiring_norm(5) semiring_norm(6))
  ultimately show ?thesis by simp
qed

text \<open>
  \<open>EncodeUUID\<close> is defined exactly on data of at least eight bytes, always gives sixteen,
  reverses the first three groups of a sixteen-byte UUID and is its own inverse on those.
\<close>

lemma EncodeUUID_involution:
  "(length data < 8 \<longrightarrow> EncodeUUID data = Panic IndexRange)
   \<and> (8 \<le> length data \<longrightarrow> (\<exists>u. EncodeUUID data = Ok u \<and> length u = 16))
   \<and> (length data = 16 \<longrightarrow> bind_res (EncodeUUID data) EncodeUUID = Ok data)"
proof (intro conjI impI)
  assume "length data < 8"
  then show "EncodeUUID data = Panic IndexRange"
    by (auto simp: EncodeUUID_def copy_at_def be_uint_def slice_from_def)
next
  assume "8 \<le> length data"
  from EncodeUUID_bytes [OF this] this
  show "\<exists>u. EncodeUUID data = Ok u \<and> length u = 16" by (auto simp: min_def)
next
  assume "length data = 16"
  then show "bind_res (EncodeUUID data) EncodeUUID = Ok data" by (simp add: EncodeUUID_twice)
qed

lemma EncodeUUID_involution_witness:
  "EncodeUUID [] = Panic IndexRange
   \<and> bind_res (EncodeUUID [0,1,2,3,4,5,6,7,8,9,10,11,12,13,14,15]) EncodeUUID
     = Ok [0,1,2,3,4,5,6,7,8,9,10,11,12,13,14,15]"
  using EncodeUUID_involution [of "[]"]
    EncodeUUID_involution [of "[0,1,2,3,4,5,6,7,8,9,10,11,12,13,14,15]"] by simp

text \<open>
  Patching an element of at least 72 bytes with two sixteen-byte UUIDs keeps its length,
  puts the partition's at 32 and the disk's at 56 and changes no other byte; an element
  shorter than 56 bytes makes the slice expression panic.
\<close>

lemma bcd_patch_frame:
  assumes "length part = 16" and "length disk = 16"
  shows "(72 \<le> length data \<longrightarrow> (\<exists>d. bcd_patch part disk data = Ok d \<and> length d = length data
            \<and> take 16 (drop 32 d) = part \<and> take 16 (drop 56 d) = disk
            \<and> take 32 d = take 32 data \<and> take 8 (drop 48 d) = take 8 (drop 48 data)
            \<and> drop 72 d = drop 72 data))
     \<and> (length data < 56 \<longrightarrow> bcd_patch part disk data = Panic SliceBounds)"
  using assms
  by (auto simp: bcd_patch_def copy_at_def min_def split: if_splits)

lemma bcd_patch_frame_witness:
  "\<exists>d. bcd_patch (replicate 16 1) (replicate 16 2) (replicate 88 0) = Ok d
     \<and> take 16 (drop 56 d) = replicate 16 2 \<and> length d = 88"
  using bcd_patch_frame [of "replicate 16 1" "replicate 16 2" "replicate 88 0"] by auto

section \<open>Device look-up\<close>

text \<open>The rows of a partition table: the lines of four fields, in order.\<close>

definition rows :: "string list \<Rightarrow> string list list" where
  "rows lines = filter (\<lambda>r. length r = 4) (map str_fields lines)"

lemma find_minor_rows:
  "find_minor major minor ls =
     map_option (\<lambda>r. ''/dev/'' @ r ! 3) (find (\<lambda>r. r ! 0 = major \<and> r ! 1 = minor) (rows ls))"
  by (induction ls) (auto simp: rows_def Let_def)

lemma find_disk_first:
  assumes "find (\<lambda>r. r ! 3 = name) (rows ls) = Some r" and "str_atoi (r ! 1) = Some m"
    and "find_minor (r ! 0) (str_itoa (wrap_i64 (m + k))) devs = Some dev"
  shows "find_disk name k devs ls = dev"
  using assms by (induction ls) (auto simp: rows_def Let_def split: if_splits)

text \<open>
  \<open>GetDevByPartNum\<close> finds the partition: if the table, after its heading line, has a row
  for the disk with minor number \<open>m\<close>, the first row with the same major number and minor
  number \<open>m + k\<close> gives the device of partition \<open>k\<close>.
\<close>

lemma GetDevByPartNum_finds:
  assumes "\<forall>l \<in> set (h # ls). CHR 0x0A \<notin> set l"
    and "\<not> sublist ''/dev/'' name"
    and "find (\<lambda>r. r ! 3 = name) (rows ls) = Some disk"
    and "disk ! 1 = str_itoa m" and "0 \<le> m" and "m + k < 2 ^ 63" and "0 \<le> k"
    and "find (\<lambda>r. r ! 0 = disk ! 0 \<and> r ! 1 = str_itoa (m + k)) (rows ls) = Some part"
  shows "GetDevByPartNum (Some (str_join [CHR 0x0A] (h # ls))) (''/dev/'' @ name) k
           = ''/dev/'' @ part ! 3"
proof -
  have "str_split ''/dev/'' (''/dev/'' @ name) = [] # str_split ''/dev/'' name"
    by (subst str_split.simps) simp
  then have dev: "str_split ''/dev/'' (''/dev/'' @ name) = [[], name]"
    using assms(2) by (simp add: str_split_no_sep)
  have lines: "str_split [CHR 0x0A] (str_join [CHR 0x0A] (h # ls)) = h # ls"
    using assms(1) by (intro str_split_join_char) auto
  have "str_atoi (disk ! 1) = Some m" using assms(4-7) by (simp add: str_atoi_itoa)
  moreover have "wrap_i64 (m + k) = m + k" using assms(5-7) by (intro wrap_i64_id) auto
  ultimately have "find_disk name k ls ls = ''/dev/'' @ part ! 3"
    using assms(3,8) by (intro find_disk_first) (auto simp: find_minor_rows)
  then show ?thesis
    unfolding GetDevByPartNum_def Let_def dev by (simp add: lines del: str_join.simps)
qed

lemma GetDevByPartNum_finds_witness:
  "GetDevByPartNum
     (Some (str_join [CHR 0x0A] (''major minor  #blocks  name'' # [[], ''   8        0  100 sda'',
        ''   8        1  40 sda1'', ''   8        2  60 sda2''])))
     (''/dev/'' @ ''sda'') 2 = ''/dev/'' @ [''8'', ''2'', ''60'', ''sda2''] ! 3"
proof (rule GetDevByPartNum_finds [where m = 0 and disk = "[''8'', ''0'', ''100'', ''sda'']"])
  have rows: "rows [[], ''   8        0  100 sda'', ''   8        1  40 sda1'', ''   8        2  60 sda2'']
      = [[''8'', ''0'', ''100'', ''sda''], [''8'', ''1'', ''40'', ''sda1''], [''8'', ''2'', ''60'', ''sda2'']]"
    by code_simp
  have itoa: "str_itoa 0 = ''0''" "str_itoa 2 = ''2''" by code_simp+
  show "find (\<lambda>r. r ! 3 = ''sda'') (rows [[], ''   8        0  100 sda'', ''   8        1  40 sda1'',
      ''   8        2  60 sda2'']) = Some [''8'', ''0'', ''100'', ''sda'']"
    unfolding rows by simp
  show "find (\<lambda>r. r ! 0 = [''8'', ''0'', ''100'', ''sda''] ! 0 \<and> r ! 1 = str_itoa (0 + 2))
      (rows [[], ''   8        0  100 sda'', ''   8        1  40 sda1'', ''   8        2  60 sda2''])
      = Some [''8'', ''2'', ''60'', ''sda2'']"
    unfolding rows by (simp add: itoa)
  show "\<not> sublist ''/dev/'' ''sda''" by (simp flip: str_index_None_iff)
  show "[''8'', ''0'', ''100'', ''sda''] ! 1 = str_itoa 0" by (simp add: itoa)
qed simp_all

text \<open>
  \<open>GetDiskDevByLocation\<close> returns the last path component below \<open>/block/\<close> of the first
  directory entry whose link contains the location, and nothing exactly when no entry does.
\<close>

lemma GetDiskDevByLocation_first:
  "GetDiskDevByLocation (Some es) loc =
     (case find (\<lambda>(name, info). sublist loc info) es of
        None \<Rightarrow> []
      | Some (name, info) \<Rightarrow> ''/dev/'' @ last (str_split ''/block/'' info))"
proof -
  have "disk_by_location loc es =
     (case find (\<lambda>(name, info). sublist loc info) es of
        None \<Rightarrow> []
      | Some (name, info) \<Rightarrow> ''/dev/'' @ last (str_split ''/block/'' info))"
    by (induction es) (auto simp: str_contains_iff)
  then show ?thesis by (simp add: GetDiskDevByLocation_def)
qed

text \<open>
  \<open>Mkvfat\<close> drops a label that is given and passes an empty one: its command line carries
  the label option exactly when there is no label, the opposite of \<open>Mkntfs\<close>.
\<close>

lemma Mkvfat_label_inverted:
  "(''-n'' \<in> set (Mkvfat_cmd ''/dev/sda1'' label) \<longleftrightarrow> label = [])
   \<and> (''-L'' \<in> set (Mkntfs_cmd ''/dev/sda1'' label) \<longleftrightarrow> label \<noteq> [])"
  by (auto simp: Mkvfat_cmd_def Mkntfs_cmd_def)

end
