(* ===== verification/Disk_Format.thy ===== *)
theory Disk_Format
  imports Disk_Tools Api
begin

text \<open>
  Partitioning: the libparted wrappers of \<open>tools/parted/parted_linux.go\<close> that change a
  partition table, and the RPC \<open>FormatDisks\<close> of \<open>service/maintenance_linux.go\<close> that drives
  them.  libparted, the block layer and the commands are parameters; an in-memory partition
  table is a value of the type \<open>'d\<close>, the world outside one of \<open>'w\<close>.
\<close>

section \<open>The partition tables of libparted\<close>

text \<open>\<open>PedPartition\<close>: its number, geometry, and the file system probed (none: a null pointer).\<close>

record ped_part =
  pp_num :: int
  pp_start :: int
  pp_end :: int
  pp_length :: int
  pp_fs :: "string option"

record 'd ped =
  p_sector :: "'d \<Rightarrow> int"
  p_count :: "'d \<Rightarrow> 32 word"
  p_get :: "'d \<Rightarrow> int \<Rightarrow> ped_part option"
  p_delete :: "'d \<Rightarrow> ped_part \<Rightarrow> 'd option"
  p_fs_known :: "string \<Rightarrow> bool"
  p_new :: "'d \<Rightarrow> string \<Rightarrow> int \<Rightarrow> int \<Rightarrow> ped_part option"
  p_constraint :: "'d \<Rightarrow> bool"
  p_add :: "'d \<Rightarrow> ped_part \<Rightarrow> (ped_part \<times> 'd) option"
  p_flag :: "string \<Rightarrow> int"
  p_set_flag :: "'d \<Rightarrow> ped_part \<Rightarrow> int \<Rightarrow> bool \<Rightarrow> 'd option"
  p_set_name :: "'d \<Rightarrow> ped_part \<Rightarrow> string \<Rightarrow> 'd option"

definition GetPartitionCount :: "'d ped \<Rightarrow> 'd \<Rightarrow> int" where
  "GetPartitionCount P d = sint (p_count P d)"

definition GetPartition :: "'d ped \<Rightarrow> 'd \<Rightarrow> int \<Rightarrow> ped_part option" where
  "GetPartition P d partNum = p_get P d partNum"

text \<open>\<open>GetSizeMB\<close>: the byte count is taken in \<open>long long\<close> and divided as \<open>uint64\<close>.\<close>

definition GetSizeMB :: "'d ped \<Rightarrow> 'd \<Rightarrow> ped_part \<Rightarrow> u64" where
  "GetSizeMB P d p = (word_of_int (wrap_i64 (pp_length p * p_sector P d)) :: u64) div 1000 div 1000"

text \<open>\<open>GetFSType\<close> reads through the pointer to the file-system type.\<close>

definition GetFSType :: "ped_part \<Rightarrow> string res" where
  "GetFSType p = (case pp_fs p of None \<Rightarrow> Panic NilDeref | Some t \<Rightarrow> Ok t)"

definition RmPart :: "'d ped \<Rightarrow> int \<Rightarrow> 'd \<Rightarrow> 'd res" where
  "RmPart P partNum d =
     (case GetPartition P d partNum of
        None \<Rightarrow> Err ''coudln't find partition to delete''
      | Some part \<Rightarrow>
          (case p_delete P d part of
             None \<Rightarrow> Err ''coudln't delete partition''
           | Some d' \<Rightarrow> Ok d'))"

definition SetFlag :: "'d ped \<Rightarrow> ped_part \<Rightarrow> string \<Rightarrow> ('d, unit) io" where
  "SetFlag P p flag d =
     (let pFlag = p_flag P flag in
      if pFlag < 0 then (Err ''Couldn't found flag'', d)
      else case p_set_flag P d p pFlag True of
        None \<Rightarrow> (Err ''couldn't set flag'', d)
      | Some d' \<Rightarrow> (Ok (), d'))"

definition ClearFlag :: "'d ped \<Rightarrow> ped_part \<Rightarrow> string \<Rightarrow> ('d, unit) io" where
  "ClearFlag P p flag d =
     (let pFlag = p_flag P flag in
      if pFlag < 0 then (Err ''couldn't found flag'', d)
      else case p_set_flag P d p pFlag False of
        None \<Rightarrow> (Err ''couldn't set flag'', d)
      | Some d' \<Rightarrow> (Ok (), d'))"

definition SetLabel :: "'d ped \<Rightarrow> ped_part \<Rightarrow> string \<Rightarrow> ('d, unit) io" where
  "SetLabel P p label d =
     (case p_set_name P d p label of
        None \<Rightarrow> (Err ''couldn't set name of partition'', d)
      | Some d' \<Rightarrow> (Ok (), d'))"

text \<open>Where \<open>MkPart\<close> looks for the end of the last partition.\<close>

definition last_end :: "'d ped \<Rightarrow> 'd \<Rightarrow> int" where
  "last_end P d =
     (let lastPartNum = GetPartitionCount P d in
      if 0 < lastPartNum
      then (case GetPartition P d lastPartNum of None \<Rightarrow> 0 | Some lastPart \<Rightarrow> pp_end lastPart)
      else 0)"

text \<open>\<open>MkPart\<close>: the errors of \<open>SetFlag\<close> and \<open>SetLabel\<close> are dropped.\<close>

definition MkPart ::
  "'d ped \<Rightarrow> string \<Rightarrow> u64 \<Rightarrow> string list \<Rightarrow> string \<Rightarrow> 'd \<Rightarrow> (ped_part option \<times> 'd) res" where
  "MkPart P partType sz flags label d =
     bind_res (mkpart_start (last_end P d)) (\<lambda>start.
     bind_res (mkpart_end start sz (p_sector P d)) (\<lambda>end.
       if \<not> p_fs_known P partType then Panic (Explicit ''Fs not found'')
       else case p_new P d partType start end of
         None \<Rightarrow> Panic (Explicit ''partition couldn't be created'')
       | Some newPart \<Rightarrow>
           if \<not> p_constraint P d then Panic NilDeref
           else (case p_add P d newPart of
             None \<Rightarrow> Ok (None, d)
           | Some (pPart, d1) \<Rightarrow>
               (let d2 = fold (\<lambda>flag d. snd (SetFlag P pPart flag d)) flags d1
                in Ok (Some pPart, snd (SetLabel P pPart label d2))))))"

section \<open>The service\<close>

text \<open>
  The state of a \<open>FormatDisks\<close> call: the world, the status messages sent, the commands run.
  The system answers for the block layer, for opening and labelling a device, for the three
  commits and for the commands.
\<close>

record 'w fmt =
  fm_world :: 'w
  fm_sent :: "string list"
  fm_ran :: "string list list"

record ('d, 'w) system =
  s_block :: "'w \<Rightarrow> (string \<times> string) list option"
  s_table :: "'w \<Rightarrow> string option"
  s_device :: "'w \<Rightarrow> string \<Rightarrow> bool"
  s_disk :: "'w \<Rightarrow> string \<Rightarrow> 'd option"
  s_label_known :: "string \<Rightarrow> bool"
  s_fresh :: "'w \<Rightarrow> string \<Rightarrow> string \<Rightarrow> 'd option"
  s_commit :: "'d \<Rightarrow> 'w \<Rightarrow> bool \<times> 'w"
  s_commit_dev :: "'d \<Rightarrow> 'w \<Rightarrow> bool \<times> 'w"
  s_commit_os :: "'d \<Rightarrow> 'w \<Rightarrow> bool \<times> 'w"
  s_run :: "string list \<Rightarrow> 'w \<Rightarrow> goerr option \<times> 'w"

definition send :: "string \<Rightarrow> 'w fmt \<Rightarrow> 'w fmt" where
  "send msg f = f\<lparr>fm_sent := fm_sent f @ [msg]\<rparr>"

definition commit_stage :: "('w \<Rightarrow> bool \<times> 'w) \<Rightarrow> goerr \<Rightarrow> ('w fmt, unit) io" where
  "commit_stage act msg f =
     (let (res, w) = act (fm_world f) in
      (if res then Ok () else Err msg, f\<lparr>fm_world := w\<rparr>))"

definition Commit :: "('d, 'w) system \<Rightarrow> 'd \<Rightarrow> ('w fmt, unit) io" where
  "Commit S d =
     bind_io (commit_stage (s_commit S d) ''couldn't commit'') (\<lambda>_.
     bind_io (commit_stage (s_commit_dev S d) ''couldn't commit to dev'') (\<lambda>_.
     commit_stage (s_commit_os S d) ''couldn't commit to os''))"

definition MkLabel :: "('d, 'w) system \<Rightarrow> string \<Rightarrow> string \<Rightarrow> ('w fmt, 'd) io" where
  "MkLabel S diskDev diskType f =
     (if \<not> s_label_known S diskType
      then (Panic (Explicit (''Couldn't found disk type:'' @ diskType)), f)
      else case s_fresh S (fm_world f) diskDev diskType of
        None \<Rightarrow> (Panic (Explicit ''Couldn't create disk''), f)
      | Some d \<Rightarrow> (Ok d, f))"

text \<open>Running a file-system maker: \<open>cmd.Run\<close> of \<open>Mkntfs\<close> and \<open>Mkvfat\<close>.\<close>

definition run_cmd :: "('d, 'w) system \<Rightarrow> string list \<Rightarrow> ('w fmt, unit) io" where
  "run_cmd S cmd f =
     (let (e, w) = s_run S cmd (fm_world f) in
      (case e of None \<Rightarrow> Ok () | Some e \<Rightarrow> Err e, f\<lparr>fm_world := w, fm_ran := fm_ran f @ [cmd]\<rparr>))"

text \<open>
  The loop that deletes the partitions from a mismatch on: its body increments the loop
  variable \<open>i\<close> of the enclosing range, while the number it deletes, \<open>pi + 1\<close>, stays.
\<close>

function del_loop :: "'d ped \<Rightarrow> int \<Rightarrow> int \<Rightarrow> 'd \<Rightarrow> 'd res" where
  "del_loop P pi i d =
     (if i < GetPartitionCount P d
      then bind_res (RmPart P (pi + 1) d) (\<lambda>d'. del_loop P pi (i + 1) d')
      else Ok d)"
  by pat_completeness auto
termination
proof (relation "measure (\<lambda>(P, pi, i, d). nat (2 ^ 31 - i))", goal_cases)
  case (2 P pi i d d')
  have "sint (p_count P d) < 2 ^ 31" using sint_lt [of "p_count P d"] by simp
  with 2 have "i < 2 ^ 31" by (simp add: GetPartitionCount_def)
  then show ?case by simp
qed simp

declare del_loop.simps [simp del]

text \<open>
  The comparison of sizes is on \<open>float64\<close>; it agrees with the one on integers, since the
  left side is below \<open>2^53\<close> and a request rounded to a float stays that far away.
\<close>

definition part_differs :: "'d ped \<Rightarrow> 'd \<Rightarrow> ped_part \<Rightarrow> PartitionInfo \<Rightarrow> bool res" where
  "part_differs P d p part =
     bind_res (GetFSType p) (\<lambda>pType.
       Ok (2 < \<bar>uint (GetSizeMB P d p) - uint (pi_size part)\<bar> \<or> pi_type part \<noteq> pType))"

definition make_part :: "'d ped \<Rightarrow> PartitionInfo \<Rightarrow> 'd \<Rightarrow> 'd res" where
  "make_part P part d =
     bind_res (MkPart P (pi_type part) (pi_size part) (pi_flags part) (pi_label part) d)
       (\<lambda>(np, d'). case np of None \<Rightarrow> Err ''couldn't create partition'' | Some _ \<Rightarrow> Ok d')"

text \<open>One round of the loop over the requested partitions, for index \<open>i\<close>.\<close>

definition part_step ::
  "'d ped \<Rightarrow> string \<Rightarrow> int \<Rightarrow> PartitionInfo \<Rightarrow> 'd \<Rightarrow> ('w fmt, 'd) io" where
  "part_step P diskDev i part d f =
     (case GetPartition P d (i + 1) of
        None \<Rightarrow>
          (make_part P part d,
           send (''Creating '' @ num_str 10 (unat (pi_size part)) @ ''MB '' @ pi_type part
                 @ '' partition on disk '' @ diskDev) f)
      | Some pPart \<Rightarrow>
          (case part_differs P d pPart part of
             Ok False \<Rightarrow> (Ok d, f)
           | Ok True \<Rightarrow>
               (bind_res (del_loop P i i d) (make_part P part),
                send (''Deleting existing partition '' @ str_itoa (i + 1) @ '' on disk '' @ diskDev) f)
           | Err e \<Rightarrow> (Err e, f)
           | Panic p \<Rightarrow> (Panic p, f)
           | Blocked \<Rightarrow> (Blocked, f)))"

fun part_loop ::
  "'d ped \<Rightarrow> string \<Rightarrow> int \<Rightarrow> PartitionInfo list \<Rightarrow> 'd \<Rightarrow> ('w fmt, 'd) io" where
  "part_loop P diskDev i [] d f = (Ok d, f)"
| "part_loop P diskDev i (part # parts) d f =
     bind_io (part_step P diskDev i part d) (\<lambda>d'. part_loop P diskDev (i + 1) parts d') f"

text \<open>The table of a device: the one found, or a fresh one of the requested type.\<close>

definition open_table :: "('d, 'w) system \<Rightarrow> string \<Rightarrow> string \<Rightarrow> ('w fmt, 'd) io" where
  "open_table S diskDev partitionType f =
     (case s_disk S (fm_world f) diskDev of
        Some d \<Rightarrow> (Ok d, f)
      | None \<Rightarrow>
          MkLabel S diskDev partitionType
            (send (''No partition table found. Creating '' @ partitionType @ '' partition table'') f))"

definition layout_disk :: "'d ped \<Rightarrow> ('d, 'w) system \<Rightarrow> DiskLayout \<Rightarrow> ('w fmt, unit) io" where
  "layout_disk P S disk f =
     (let loc = dl_location disk;
          diskDev = GetDiskDevByLocation (s_block S (fm_world f)) loc in
      if diskDev = [] then (Err ''device not found'', f)
      else if \<not> s_device S (fm_world f) diskDev then (Err ''disk not found'', f)
      else
        bind_io (open_table S diskDev (dl_partitionType disk)) (\<lambda>pDisk.
        bind_io (part_loop P diskDev 0 (dl_partitions disk) pDisk) (\<lambda>pDisk.
        Commit S pDisk)) (send (''Found device '' @ loc @ '' as '' @ diskDev) f))"

text \<open>Formatting one partition that exists: the flag \<open>format\<close> of the request is not read.\<close>

definition format_part ::
  "'d ped \<Rightarrow> ('d, 'w) system \<Rightarrow> string \<Rightarrow> 'd \<Rightarrow> int \<Rightarrow> PartitionInfo \<Rightarrow> ('w fmt, unit) io" where
  "format_part P S diskDev pDisk i part f =
     (case GetPartition P pDisk (i + 1) of
        None \<Rightarrow> (Ok (), f)
      | Some pPart \<Rightarrow>
          (let devPart = GetDevByPartNum (s_table S (fm_world f)) diskDev (i + 1) in
           if devPart = []
           then (Err (''couldn't find partition to format: '' @ diskDev @ '':'' @ str_itoa (i + 1)), f)
           else
             let f' = send (''Creating '' @ pi_type part @ '' fs on partition '' @ devPart) f in
             if pi_type part = ''ntfs'' then run_cmd S (Mkntfs_cmd devPart (pi_label part)) f'
             else if pi_type part = ''fat32'' then run_cmd S (Mkvfat_cmd devPart (pi_label part)) f'
             else (Ok (), f')))"

fun format_loop ::
  "'d ped \<Rightarrow> ('d, 'w) system \<Rightarrow> string \<Rightarrow> 'd \<Rightarrow> int \<Rightarrow> PartitionInfo list \<Rightarrow> ('w fmt, unit) io" where
  "format_loop P S diskDev pDisk i [] f = (Ok (), f)"
| "format_loop P S diskDev pDisk i (part # parts) f =
     bind_io (format_part P S diskDev pDisk i part)
       (\<lambda>_. format_loop P S diskDev pDisk (i + 1) parts) f"

text \<open>Without a partition table the first use of the disk dereferences a null pointer.\<close>

definition format_disk :: "'d ped \<Rightarrow> ('d, 'w) system \<Rightarrow> DiskLayout \<Rightarrow> ('w fmt, unit) io" where
  "format_disk P S disk f =
     (let diskDev = GetDiskDevByLocation (s_block S (fm_world f)) (dl_location disk) in
      if diskDev = [] then (Err ''device not found'', f)
      else if \<not> s_device S (fm_world f) diskDev then (Err ''disk not found'', f)
      else case s_disk S (fm_world f) diskDev of
        None \<Rightarrow> (Panic NilDeref, f)
      | Some pDisk \<Rightarrow>
          bind_io (format_loop P S diskDev pDisk 0 (dl_partitions disk)) (\<lambda>_. Commit S pDisk) f)"

fun each_disk :: "(DiskLayout \<Rightarrow> ('w fmt, unit) io) \<Rightarrow> DiskLayout list \<Rightarrow> ('w fmt, unit) io" where
  "each_disk act [] f = (Ok (), f)"
| "each_disk act (disk # disks) f = bind_io (act disk) (\<lambda>_. each_disk act disks) f"

definition FormatDisks :: "'d ped \<Rightarrow> ('d, 'w) system \<Rightarrow> DiskLayout list \<Rightarrow> ('w fmt, unit) io" where
  "FormatDisks P S disks =
     bind_io (each_disk (layout_disk P S) disks)
       (\<lambda>_ f. each_disk (format_disk P S) disks (send ''Creating filesystems'' f))"

end
