(* ===== verification/Disk_Format_Correct.thy ===== *)
theory Disk_Format_Correct
  imports Disk_Format Disk_Tools_Correct
begin

text \<open>
  What \<open>FormatDisks\<close> guarantees: a layout that already matches is committed unchanged; a
  mismatch deletes one partition and then either stops, places the new partition from the
  start of the disk, or replaces the last one; no file system is made unless every layout
  was committed; and the request's \<open>format\<close> flag has no effect.
\<close>

section \<open>A concrete partition table\<close>

text \<open>An association list of numbers and partitions; it instantiates libparted in witnesses.\<close>

definition sample_ped :: "(int \<times> ped_part) list ped" where
  "sample_ped = \<lparr>p_sector = (\<lambda>d. 512), p_count = (\<lambda>d. word_of_nat (length d)), p_get = map_of,
     p_delete = (\<lambda>d p. Some (filter (\<lambda>e. fst e \<noteq> pp_num p) d)), p_fs_known = (\<lambda>t. t \<noteq> []),
     p_new = (\<lambda>d t a b. Some \<lparr>pp_num = -1, pp_start = a, pp_end = b, pp_length = b - a + 1, pp_fs = Some t\<rparr>),
     p_constraint = (\<lambda>d. True),
     p_add = (\<lambda>d p. let n = int (length d) + 1 in Some (p\<lparr>pp_num := n\<rparr>, d @ [(n, p\<lparr>pp_num := n\<rparr>)])),
     p_flag = (\<lambda>n. 1), p_set_flag = (\<lambda>d p k b. Some d), p_set_name = (\<lambda>d p n. Some d)\<rparr>"

definition sample_part :: "int \<Rightarrow> int \<Rightarrow> int \<Rightarrow> string option \<Rightarrow> int \<times> ped_part" where
  "sample_part n a l fs = (n, \<lparr>pp_num = n, pp_start = a, pp_end = a + l - 1, pp_length = l, pp_fs = fs\<rparr>)"

definition sample_table :: "(int \<times> ped_part) list" where
  "sample_table = [sample_part 1 34816 195312 (Some ''fat32''), sample_part 2 243712 195312 (Some ''ntfs'')]"

definition want :: "u64 \<Rightarrow> string \<Rightarrow> PartitionInfo" where
  "want n t = \<lparr>pi_size = n, pi_type = t, pi_label = [], pi_flags = [], pi_format = False\<rparr>"

definition sample_system :: "((int \<times> ped_part) list, nat) system" where
  "sample_system = \<lparr>s_block = (\<lambda>w. Some [(''sda'', ''../pci0/block/sda'')]), s_table = (\<lambda>w. None),
     s_device = (\<lambda>w n. True), s_disk = (\<lambda>w n. Some sample_table), s_label_known = (\<lambda>t. True),
     s_fresh = (\<lambda>w n t. Some []), s_commit = (\<lambda>d w. (True, w + 1)), s_commit_dev = (\<lambda>d w. (True, w + 1)),
     s_commit_os = (\<lambda>d w. (True, w + 1)), s_run = (\<lambda>c w. (None, w))\<rparr>"

definition start_fmt :: "nat fmt" where
  "start_fmt = \<lparr>fm_world = 0, fm_sent = [], fm_ran = []\<rparr>"

lemmas sample_defs = sample_ped_def sample_part_def sample_table_def want_def sample_system_def start_fmt_def

lemma sample_device: "GetDiskDevByLocation (Some [(''sda'', ''../pci0/block/sda'')]) ''pci0'' = ''/dev/sda''"
  by code_simp

section \<open>The deletion loop\<close>

lemma del_loop_done: "GetPartitionCount P d \<le> i \<Longrightarrow> del_loop P pi i d = Ok d"
  by (subst del_loop.simps) simp

lemma del_loop_go:
  "i < GetPartitionCount P d \<Longrightarrow>
   del_loop P pi i d = bind_res (RmPart P (pi + 1) d) (\<lambda>d'. del_loop P pi (i + 1) d')"
  by (subst del_loop.simps) simp

lemma mkpart_start_0: "mkpart_start 0 = Ok 34816"
  by (simp add: mkpart_start_def lcm_34_2048 go_quot_def wrap_i64_def)

lemma part_differs_cases:
  obtains b where "part_differs P d p part = Ok b"
  | "part_differs P d p part = Panic NilDeref"
  by (cases "pp_fs p") (auto simp: part_differs_def GetFSType_def)

text \<open>
  C23: when the partition at index \<open>i\<close> differs from the request, it is deleted and: if it was
  the last one, its replacement is placed after the end of the one before; if exactly one
  partition followed, that one is kept and the replacement starts at sector 34816 wherever
  the other partitions lie; if two or more followed, the loop asks for the deleted
  partition again and the request fails.
\<close>

theorem mismatch_outcome:
  assumes "GetPartition P d (i + 1) = Some p" and "part_differs P d p part = Ok True"
    and "p_delete P d p = Some d'"
    and "\<And>n. GetPartition P d' n = (if n = i + 1 then None else GetPartition P d n)"
    and "GetPartitionCount P d' = GetPartitionCount P d - 1"
    and "0 \<le> i" and "i < GetPartitionCount P d"
  shows "(GetPartitionCount P d \<le> i + 2 \<longrightarrow> fst (part_step P dev i part d f) = make_part P part d')
    \<and> (GetPartitionCount P d = i + 1 \<longrightarrow>
         last_end P d' = (case if i = 0 then None else GetPartition P d i of None \<Rightarrow> 0 | Some q \<Rightarrow> pp_end q))
    \<and> (GetPartitionCount P d = i + 2 \<longrightarrow> mkpart_start (last_end P d') = Ok 34816)
    \<and> (i + 2 < GetPartitionCount P d \<longrightarrow>
         fst (part_step P dev i part d f) = Err ''coudln't find partition to delete'')"
proof (intro conjI impI)
  have rm: "RmPart P (i + 1) d = Ok d'" using assms(1,3) by (simp add: RmPart_def)
  have step: "fst (part_step P dev i part d f) = bind_res (del_loop P i (i + 1) d') (make_part P part)"
    using assms(1,2,7) rm by (simp add: part_step_def del_loop_go)
  { assume "GetPartitionCount P d \<le> i + 2"
    then show "fst (part_step P dev i part d f) = make_part P part d'"
      using step assms(5) by (simp add: del_loop_done) }
  { assume "GetPartitionCount P d = i + 1"
    then show "last_end P d' = (case if i = 0 then None else GetPartition P d i of None \<Rightarrow> 0 | Some q \<Rightarrow> pp_end q)"
      using assms(4-6) by (simp add: last_end_def) }
  { assume "GetPartitionCount P d = i + 2"
    then have "last_end P d' = 0" using assms(4-6) by (simp add: last_end_def)
    then show "mkpart_start (last_end P d') = Ok 34816" by (simp add: mkpart_start_0) }
  { assume "i + 2 < GetPartitionCount P d"
    then have "del_loop P i (i + 1) d' = Err ''coudln't find partition to delete''"
      using assms(4,5) by (simp add: del_loop_go RmPart_def)
    with step show "fst (part_step P dev i part d f) = Err ''coudln't find partition to delete''" by simp }
qed

theorem mismatch_outcome_witness:
  "mkpart_start (last_end sample_ped (tl sample_table)) = Ok 34816"
proof -
  define p where "p = snd (sample_part 1 34816 195312 (Some ''fat32''))"
  have 1: "GetPartition sample_ped sample_table (0 + 1) = Some p"
    by (simp add: p_def GetPartition_def sample_defs)
  have 2: "part_differs sample_ped sample_table p (want 100 ''ntfs'') = Ok True"
    by (simp add: p_def part_differs_def GetFSType_def sample_defs)
  have 3: "p_delete sample_ped sample_table p = Some (tl sample_table)"
    by (simp add: p_def sample_defs)
  have 4: "GetPartition sample_ped (tl sample_table) n
      = (if n = 0 + 1 then None else GetPartition sample_ped sample_table n)" for n
    by (simp add: GetPartition_def sample_defs)
  have 5: "GetPartitionCount sample_ped sample_table = 2" "GetPartitionCount sample_ped (tl sample_table) = 1"
    by (simp_all add: GetPartitionCount_def sample_defs)
  show ?thesis using mismatch_outcome [OF 1 2 3 4, where dev = "[]" and f = start_fmt] 5 by simp
qed

section \<open>Matching layouts\<close>

definition matches :: "'d ped \<Rightarrow> 'd \<Rightarrow> int \<Rightarrow> PartitionInfo list \<Rightarrow> bool" where
  "matches P d i parts \<longleftrightarrow>
     (\<forall>k < length parts. \<exists>p. GetPartition P d (i + int k + 1) = Some p
        \<and> part_differs P d p (parts ! k) = Ok False)"

lemma matches_Cons:
  assumes "matches P d i (part # parts)"
  shows "part_step P dev i part d f = (Ok d, f)" and "matches P d (i + 1) parts"
proof -
  from assms obtain p where "GetPartition P d (i + 1) = Some p" and "part_differs P d p part = Ok False"
    unfolding matches_def by force
  then show "part_step P dev i part d f = (Ok d, f)" by (simp add: part_step_def)
  show "matches P d (i + 1) parts"
    unfolding matches_def
  proof (intro allI impI)
    fix k assume "k < length parts"
    then show "\<exists>p. GetPartition P d (i + 1 + int k + 1) = Some p \<and> part_differs P d p (parts ! k) = Ok False"
      using assms [unfolded matches_def, rule_format, of "Suc k"] by (simp add: algebra_simps)
  qed
qed

lemma part_loop_matching: "matches P d i parts \<Longrightarrow> part_loop P dev i parts d f = (Ok d, f)"
  by (induction parts arbitrary: i) (auto simp: matches_Cons(1) dest: matches_Cons(2))

text \<open>
  A disk whose partitions match the request in size (within two megabytes) and type has
  its table committed as it was read: no partition is created or deleted and the only
  message names the device.
\<close>

lemma layout_disk_matching:
  assumes "GetDiskDevByLocation (s_block S (fm_world f)) (dl_location disk) = dev" and "dev \<noteq> []"
    and "s_device S (fm_world f) dev" and "s_disk S (fm_world f) dev = Some d"
    and "matches P d 0 (dl_partitions disk)"
  shows "layout_disk P S disk f = Commit S d (send (''Found device '' @ dl_location disk @ '' as '' @ dev) f)"
  using assms
  by (simp add: layout_disk_def Let_def open_table_def send_def part_loop_matching)

lemma layout_disk_matching_witness:
  "fm_sent (snd (layout_disk sample_ped sample_system
      \<lparr>dl_location = ''pci0'', dl_partitionType = ''gpt'', dl_partitions = [want 98 ''fat32'', want 101 ''ntfs'']\<rparr>
      start_fmt)) = [''Found device pci0 as /dev/sda'']"
proof -
  have "matches sample_ped sample_table 0 [want 98 ''fat32'', want 101 ''ntfs'']"
    unfolding matches_def
    by (auto simp: less_Suc_eq GetPartition_def part_differs_def GetFSType_def GetSizeMB_def wrap_i64_def sample_defs)
  then show ?thesis
    using layout_disk_matching [of sample_system start_fmt
        "\<lparr>dl_location = ''pci0'', dl_partitionType = ''gpt'', dl_partitions = [want 98 ''fat32'', want 101 ''ntfs'']\<rparr>"
        "''/dev/sda''" sample_table sample_ped]
    by (simp add: sample_device sample_system_def start_fmt_def Commit_def commit_stage_def bind_io_def send_def)
qed

text \<open>The first disk of a request that cannot be laid out, and what it leaves.\<close>

lemma FormatDisks_first_fails:
  assumes "layout_disk P S disk f = (r, f')" and "\<not> is_ok r"
  shows "FormatDisks P S (disk # disks) f = (case r of Ok _ \<Rightarrow> (Ok (), f') | Err e \<Rightarrow> (Err e, f')
     | Panic p \<Rightarrow> (Panic p, f') | Blocked \<Rightarrow> (Blocked, f'))"
  using assms by (cases r) (simp_all add: FormatDisks_def bind_io_def)

text \<open>
  A request fails before it has any effect when the first disk's location matches no
  block device or the device cannot be opened; and a first partition whose file system
  libparted does not recognise (a null type pointer) makes the handler panic, with one
  message sent and nothing committed or run.
\<close>

lemma FormatDisks_rejected:
  assumes "GetDiskDevByLocation (s_block S (fm_world f)) (dl_location disk) = dev"
    and "dl_partitions disk = part # parts"
  shows "(dev = [] \<longrightarrow> FormatDisks P S (disk # disks) f = (Err ''device not found'', f))
    \<and> (dev \<noteq> [] \<and> \<not> s_device S (fm_world f) dev \<longrightarrow>
         FormatDisks P S (disk # disks) f = (Err ''disk not found'', f))
    \<and> (\<forall>d p. dev \<noteq> [] \<and> s_device S (fm_world f) dev \<and> s_disk S (fm_world f) dev = Some d
          \<and> GetPartition P d 1 = Some p \<and> pp_fs p = None \<longrightarrow>
         FormatDisks P S (disk # disks) f
           = (Panic NilDeref, send (''Found device '' @ dl_location disk @ '' as '' @ dev) f))"
proof (intro conjI allI impI)
  { assume "dev = []"
    then have "layout_disk P S disk f = (Err ''device not found'', f)"
      using assms by (simp add: layout_disk_def)
    then show "FormatDisks P S (disk # disks) f = (Err ''device not found'', f)"
      by (simp add: FormatDisks_first_fails) }
  { assume "dev \<noteq> [] \<and> \<not> s_device S (fm_world f) dev"
    then have "layout_disk P S disk f = (Err ''disk not found'', f)"
      using assms by (simp add: layout_disk_def)
    then show "FormatDisks P S (disk # disks) f = (Err ''disk not found'', f)"
      by (simp add: FormatDisks_first_fails) }
  fix d p
  assume "dev \<noteq> [] \<and> s_device S (fm_world f) dev \<and> s_disk S (fm_world f) dev = Some d
      \<and> GetPartition P d 1 = Some p \<and> pp_fs p = None"
  then have "layout_disk P S disk f = (Panic NilDeref, send (''Found device '' @ dl_location disk @ '' as '' @ dev) f)"
    using assms by (simp add: layout_disk_def Let_def open_table_def send_def part_step_def
        part_differs_def GetFSType_def)
  then show "FormatDisks P S (disk # disks) f
      = (Panic NilDeref, send (''Found device '' @ dl_location disk @ '' as '' @ dev) f)"
    by (simp add: FormatDisks_first_fails)
qed

lemma FormatDisks_rejected_witness:
  "FormatDisks sample_ped (sample_system\<lparr>s_device := \<lambda>w n. False\<rparr>)
     [\<lparr>dl_location = ''pci0'', dl_partitionType = ''gpt'', dl_partitions = [want 98 ''ntfs'']\<rparr>] start_fmt
   = (Err ''disk not found'', start_fmt)"
  using FormatDisks_rejected [where disk = "\<lparr>dl_location = ''pci0'', dl_partitionType = ''gpt'',
      dl_partitions = [want 98 ''ntfs'']\<rparr>" and S = "sample_system\<lparr>s_device := \<lambda>w n. False\<rparr>"
      and f = start_fmt and P = sample_ped and disks = "[]" and dev = "''/dev/sda''"
      and part = "want 98 ''ntfs''" and parts = "[]"]
  by (simp add: sample_device sample_system_def)

section \<open>The format flag\<close>

definition reflag :: "(bool \<Rightarrow> bool) \<Rightarrow> DiskLayout \<Rightarrow> DiskLayout" where
  "reflag g disk = disk\<lparr>dl_partitions := map (\<lambda>p. p\<lparr>pi_format := g (pi_format p)\<rparr>) (dl_partitions disk)\<rparr>"

lemma part_loop_reflag:
  "part_loop P dev i (map (\<lambda>p. p\<lparr>pi_format := g (pi_format p)\<rparr>) parts) = part_loop P dev i parts"
proof -
  have "make_part P (p\<lparr>pi_format := b\<rparr>) = make_part P p" for p b
    by (rule ext) (simp add: make_part_def)
  then have step: "part_step P dev i (p\<lparr>pi_format := b\<rparr>) d f = part_step P dev i p d f" for p b i d f
    by (auto simp: part_step_def part_differs_def split: option.splits res.splits bool.splits)
  show ?thesis
  proof (intro ext)
    fix d :: 'a and f :: "'b fmt"
    show "part_loop P dev i (map (\<lambda>p. p\<lparr>pi_format := g (pi_format p)\<rparr>) parts) d f = part_loop P dev i parts d f"
      by (induction parts arbitrary: i d f) (auto intro!: bind_io_cong step)
  qed
qed

lemma format_loop_reflag:
  "format_loop P S dev d i (map (\<lambda>p. p\<lparr>pi_format := g (pi_format p)\<rparr>) parts) f
   = format_loop P S dev d i parts f"
proof -
  have "format_part P S dev d i (p\<lparr>pi_format := b\<rparr>) f = format_part P S dev d i p f" for i p b f
    by (auto simp: format_part_def Let_def split: option.splits)
  then show ?thesis by (induction parts arbitrary: i f) (auto intro!: bind_io_cong)
qed

text \<open>
  The outcome of \<open>FormatDisks\<close>, the state it leaves, the messages and the commands do
  not depend on the \<open>format\<close> flag of any requested partition: every partition of a known
  type is formatted.
\<close>

lemma FormatDisks_ignores_format_flag:
  "FormatDisks P (S :: ('d, 'w) system) (map (reflag g) disks) = FormatDisks P S disks"
proof -
  have l: "layout_disk P S (reflag g disk) f = layout_disk P S disk f" for disk f
    by (simp add: layout_disk_def Let_def reflag_def part_loop_reflag cong: if_cong)
  have m: "format_disk P S (reflag g disk) f = format_disk P S disk f" for disk f
    by (auto simp: format_disk_def Let_def reflag_def format_loop_reflag intro!: bind_io_cong split: option.splits)
  have "each_disk act (map (reflag g) ds) f = each_disk act ds f"
    if "\<And>disk f. act (reflag g disk) f = act disk f" for act :: "DiskLayout \<Rightarrow> ('w fmt, unit) io" and ds f
    by (induction ds arbitrary: f) (auto intro!: bind_io_cong that)
  from this [of "layout_disk P S", OF l] this [of "format_disk P S", OF m] show ?thesis
    by (intro ext) (simp add: FormatDisks_def bind_io_def)
qed

section \<open>What the world keeps while formatting\<close>

text \<open>
  The file systems are made in the world the layout of all disks has left.  From there the
  handler runs commands and commits, unchanged, tables it has just read: facts about the world
  that these keep hold throughout.
\<close>

definition laid_out :: "'d ped \<Rightarrow> ('d, 'w) system \<Rightarrow> DiskLayout list \<Rightarrow> 'w fmt \<Rightarrow> 'w fmt" where
  "laid_out P S disks f = snd (each_disk (layout_disk P S) disks f)"

definition recommits :: "('d, 'w) system \<Rightarrow> ('w \<Rightarrow> bool) \<Rightarrow> 'd \<Rightarrow> bool" where
  "recommits S G d \<longleftrightarrow> (\<forall>w. G w \<longrightarrow>
     G (snd (s_commit S d w)) \<and> G (snd (s_commit_dev S d w)) \<and> G (snd (s_commit_os S d w)))"

definition keeps :: "('d, 'w) system \<Rightarrow> ('w \<Rightarrow> bool) \<Rightarrow> bool" where
  "keeps S G \<longleftrightarrow> (\<forall>w c. G w \<longrightarrow> G (snd (s_run S c w)))
     \<and> (\<forall>w dev d. G w \<and> s_disk S w dev = Some d \<longrightarrow> recommits S G d)"

text \<open>The worlds that commands and commits can lead to.\<close>

definition world_step :: "('d, 'w) system \<Rightarrow> 'w \<Rightarrow> 'w \<Rightarrow> bool" where
  "world_step S w w' \<longleftrightarrow> (\<exists>c. w' = snd (s_run S c w))
     \<or> (\<exists>d. w' = snd (s_commit S d w) \<or> w' = snd (s_commit_dev S d w) \<or> w' = snd (s_commit_os S d w))"

abbreviation later :: "('d, 'w) system \<Rightarrow> 'w \<Rightarrow> 'w \<Rightarrow> bool" where
  "later S \<equiv> (world_step S)\<^sup>*\<^sup>*"

lemma keeps_later: "keeps S (later S w)"
proof -
  have "later S w u \<Longrightarrow> world_step S u v \<Longrightarrow> later S w v" for u v by (rule rtranclp.rtrancl_into_rtrancl)
  then show ?thesis by (auto simp: keeps_def recommits_def world_step_def)
qed

section \<open>Which commands run\<close>

text \<open>
  A call that keeps a fact about the world and, while it holds, adds to the commands run only
  such as satisfy a predicate.
\<close>

definition runs_only :: "('w \<Rightarrow> bool) \<Rightarrow> (string list \<Rightarrow> bool) \<Rightarrow> 'w fmt \<Rightarrow> 'w fmt \<Rightarrow> bool" where
  "runs_only G Q f f' \<longleftrightarrow> (G (fm_world f) \<longrightarrow>
     G (fm_world f') \<and> (\<exists>cs. fm_ran f' = fm_ran f @ cs \<and> (\<forall>c \<in> set cs. Q c)))"

lemma runs_only_same: "fm_ran f' = fm_ran f \<Longrightarrow> fm_world f' = fm_world f \<Longrightarrow> runs_only G Q f f'"
  by (simp add: runs_only_def)

lemma runs_only_trans: "runs_only G Q f1 f2 \<Longrightarrow> runs_only G Q f2 f3 \<Longrightarrow> runs_only G Q f1 f3"
  unfolding runs_only_def by (metis Un_iff append.assoc set_append)

lemma runs_only_bind:
  fixes m :: "('w fmt, 'x) io" and k :: "'x \<Rightarrow> ('w fmt, 'y) io"
  assumes "\<And>f. runs_only G Q f (snd (m f))" and "\<And>x f. runs_only G Q f (snd (k x f))"
  shows "runs_only G Q f (snd (bind_io m k f))"
proof (cases "m f")
  case (Pair r f1)
  then show ?thesis
    using assms(1) [where f = f] assms(2) [where f = f1] by (cases r) (auto intro: runs_only_trans)
qed

lemma commit_runs:
  assumes "recommits S G d"
  shows "runs_only G Q f (snd (Commit S d f))"
proof -
  have stage: "runs_only G Q f (snd (commit_stage act msg f))" if "\<And>w. G w \<Longrightarrow> G (snd (act w))" for act msg f
    using that by (simp add: runs_only_def commit_stage_def case_prod_unfold Let_def)
  show ?thesis
    unfolding Commit_def by (intro runs_only_bind stage) (use assms in \<open>simp_all add: recommits_def\<close>)
qed

lemma part_loop_runs: "runs_only G Q f (snd (part_loop P dev i parts d f))"
proof (induction parts arbitrary: i d f)
  case (Cons part parts)
  have "runs_only G Q f (snd (part_step P dev i part d f))" for d f
    by (auto simp: part_step_def send_def intro!: runs_only_same split: option.splits res.splits bool.splits)
  then show ?case
    unfolding part_loop.simps by (intro runs_only_bind Cons.IH)
qed (simp add: runs_only_same)

lemma runs_only_send: "runs_only G Q (send msg f) f' \<Longrightarrow> runs_only G Q f f'"
  by (simp add: runs_only_def send_def)

text \<open>Laying out runs no command.\<close>

lemma layout_runs: "runs_only (\<lambda>w. True) Q f (snd (layout_disk P S disk f))"
proof -
  have "runs_only (\<lambda>w. True) Q f (snd (open_table S dev t f))" for dev t f
    by (auto simp: open_table_def MkLabel_def send_def intro!: runs_only_same split: option.splits)
  then have "runs_only (\<lambda>w. True) Q f (snd (bind_io (open_table S dev t) (\<lambda>pDisk.
      bind_io (part_loop P dev 0 ps pDisk) (Commit S)) (send msg f)))" for dev t ps msg f
    by (intro runs_only_send [OF runs_only_bind] runs_only_bind part_loop_runs commit_runs)
      (simp_all add: recommits_def)
  then show ?thesis
    by (auto simp: layout_disk_def Let_def runs_only_same)
qed

lemma each_runs:
  "(\<And>d f. d \<in> set ds \<Longrightarrow> runs_only G Q f (snd (act d f))) \<Longrightarrow> runs_only G Q f (snd (each_disk act ds f))"
proof (induction ds arbitrary: f)
  case (Cons d ds)
  show ?case
    unfolding each_disk.simps
  proof (intro runs_only_bind)
    show "runs_only G Q f (snd (act d f))" for f by (rule Cons.prems) simp
    show "runs_only G Q f (snd (each_disk act ds f))" for f by (rule Cons.IH) (simp add: Cons.prems)
  qed
qed (simp add: runs_only_same)

lemma layout_runs_nothing: "fm_ran (snd (each_disk (layout_disk P S) disks f)) = fm_ran f"
proof -
  have "runs_only (\<lambda>w. True) (\<lambda>c. False) f (snd (each_disk (layout_disk P S) disks f))"
    by (intro each_runs layout_runs)
  then show ?thesis by (auto simp: runs_only_def)
qed

text \<open>
  The commands a request may cause, with facts \<open>G\<close> of the worlds its look-ups are made in: the
  maker of a requested partition that is on the table of its disk, for the device the system
  lists for this partition of the disk, with the label of the request.
\<close>

definition maker_for :: "'d ped \<Rightarrow> ('d, 'w) system \<Rightarrow> ('w \<Rightarrow> bool) \<Rightarrow> DiskLayout list \<Rightarrow> string list \<Rightarrow> bool" where
  "maker_for P S G disks c \<longleftrightarrow> (\<exists>disk n part w d w' dev devPart.
     disk \<in> set disks \<and> n < length (dl_partitions disk) \<and> part = dl_partitions disk ! n
     \<and> G w \<and> dev = GetDiskDevByLocation (s_block S w) (dl_location disk) \<and> dev \<noteq> []
     \<and> s_disk S w dev = Some d \<and> GetPartition P d (int n + 1) \<noteq> None
     \<and> G w' \<and> devPart = GetDevByPartNum (s_table S w') dev (int n + 1) \<and> devPart \<noteq> []
     \<and> (pi_type part = ''ntfs'' \<and> c = Mkntfs_cmd devPart (pi_label part)
        \<or> pi_type part = ''fat32'' \<and> c = Mkvfat_cmd devPart (pi_label part)))"

lemma format_part_only:
  assumes "disk \<in> set disks" and "n < length (dl_partitions disk)" and "keeps S G"
    and "G w" and "GetDiskDevByLocation (s_block S w) (dl_location disk) = dev" and "dev \<noteq> []"
    and "s_disk S w dev = Some d"
  shows "runs_only G (maker_for P S G disks) f (snd (format_part P S dev d (int n) (dl_partitions disk ! n) f))"
proof -
  let ?part = "dl_partitions disk ! n" and ?t = "GetDevByPartNum (s_table S (fm_world f)) dev (int n + 1)"
  have cmd: "runs_only G (maker_for P S G disks) f (snd (run_cmd S c (send msg f)))"
    if "G (fm_world f) \<Longrightarrow> maker_for P S G disks c" for c msg
    using that assms(3) by (auto simp: run_cmd_def send_def runs_only_def keeps_def case_prod_unfold Let_def)
  have sent: "runs_only G (maker_for P S G disks) f (send msg f)" for msg
    by (rule runs_only_same) (simp_all add: send_def)
  show ?thesis
  proof (cases "GetPartition P d (int n + 1) = None \<or> ?t = []")
    case True
    then show ?thesis by (auto simp: format_part_def Let_def runs_only_same split: option.splits)
  next
    case False
    then have "G (fm_world f) \<Longrightarrow> pi_type ?part = ''ntfs'' \<Longrightarrow> maker_for P S G disks (Mkntfs_cmd ?t (pi_label ?part))"
        "G (fm_world f) \<Longrightarrow> pi_type ?part = ''fat32'' \<Longrightarrow> maker_for P S G disks (Mkvfat_cmd ?t (pi_label ?part))"
      unfolding maker_for_def using assms by blast+
    with False sent cmd show ?thesis
      by (auto simp: format_part_def Let_def split: option.splits)
  qed
qed

lemma format_loop_only:
  assumes "disk \<in> set disks" and "keeps S G"
    and "G w" and "GetDiskDevByLocation (s_block S w) (dl_location disk) = dev" and "dev \<noteq> []"
    and "s_disk S w dev = Some d"
  shows "drop n (dl_partitions disk) = parts
    \<Longrightarrow> runs_only G (maker_for P S G disks) f (snd (format_loop P S dev d (int n) parts f))"
proof (induction parts arbitrary: n f)
  case (Cons part parts)
  then have n: "n < length (dl_partitions disk)" "dl_partitions disk ! n = part"
    by (metis drop_all leI list.distinct(1)) (metis Cons.prems nth_via_drop)
  have rest: "drop (Suc n) (dl_partitions disk) = parts" using Cons.prems by (metis drop_Suc list.sel(3) tl_drop)
  from format_part_only [OF assms(1) n(1) assms(2-6), of P] n(2)
  have "runs_only G (maker_for P S G disks) f (snd (format_part P S dev d (int n) part f))" for f by simp
  moreover have "runs_only G (maker_for P S G disks) f (snd (format_loop P S dev d (int n + 1) parts f))" for f
    using Cons.IH [OF rest] by (simp add: add.commute)
  ultimately show ?case unfolding format_loop.simps by (intro runs_only_bind)
qed (simp add: runs_only_same)

lemma format_runs:
  assumes "disk \<in> set disks" and "keeps S G"
  shows "runs_only G (maker_for P S G disks) f (snd (format_disk P S disk f))"
proof (cases "G (fm_world f)")
  case True
  let ?dev = "GetDiskDevByLocation (s_block S (fm_world f)) (dl_location disk)"
  have "runs_only G (maker_for P S G disks) f
      (snd (bind_io (format_loop P S ?dev d 0 (dl_partitions disk)) (\<lambda>_. Commit S d) f))"
    if "?dev \<noteq> []" and d: "s_disk S (fm_world f) ?dev = Some d" for d
  proof (intro runs_only_bind commit_runs)
    show "recommits S G d" using assms(2) True d by (auto simp: keeps_def)
    show "runs_only G (maker_for P S G disks) f (snd (format_loop P S ?dev d 0 (dl_partitions disk) f))" for f
      using format_loop_only [OF assms True refl that, of 0 "dl_partitions disk" P f] by simp
  qed
  then show ?thesis by (auto simp: format_disk_def Let_def runs_only_same split: option.splits)
qed (simp add: runs_only_def)


end
