(* ===== verification/Mounts.thy ===== *)
theory Mounts
  imports Disk_Tools
begin

text \<open>
  The part of \<open>tools/parted/parted_linux.go\<close> that mounts file systems: \<open>Mount\<close>, \<open>Unmount\<close>
  and \<open>CheckMount\<close>, and \<open>BCDFix\<close>, which rewrites the UUIDs in a boot-configuration store
  while two file systems are mounted.  The host state lists the temporary directories, the
  mounts made by the program, the directories whose unmounting failed, the files below the
  mount points and the commands that were run.
\<close>

section \<open>Mounting\<close>

record host =
  temps :: "string list"
  mounted :: "(string \<times> string) list"
  stuck :: "string list"
  files :: "string \<rightharpoonup> u8 list"
  ran :: "string list list"

text \<open>
  The environment: the names \<open>os.MkdirTemp\<close> draws in turn, the error of a command, and
  whether \<open>umount2\<close> takes a directory.
\<close>

record mount_env =
  draws :: "host \<Rightarrow> string list"
  runs :: "host \<Rightarrow> string list \<Rightarrow> goerr option"
  umounts :: "host \<Rightarrow> string \<Rightarrow> bool"

definition dir_exists :: "host \<Rightarrow> string \<Rightarrow> bool" where
  "dir_exists h d \<longleftrightarrow> d \<in> set (temps h) \<or> d \<in> fst ` set (mounted h) \<or> d \<in> set (stuck h)"

text \<open>\<open>os.MkdirTemp\<close> takes the first name drawn that does not exist.\<close>

definition MkdirTemp :: "mount_env \<Rightarrow> (host, string) io" where
  "MkdirTemp M h =
     (case find (\<lambda>d. \<not> dir_exists h d) (draws M h) of
        None \<Rightarrow> (Err ''file exists'', h)
      | Some d \<Rightarrow> (Ok d, h\<lparr>temps := d # temps h\<rparr>))"

fun mount_cmd :: "string \<Rightarrow> string \<Rightarrow> string \<Rightarrow> string list option" where
  "mount_cmd fsType target dir =
     (if fsType = ''ntfs'' then Some [''ntfs-3g'', target, dir]
      else if fsType = ''fat32'' then Some [''mount'', target, dir]
      else if fsType = ''winregfs'' then Some [''mount.winregfs'', target, dir]
      else None)"

text \<open>
  \<open>Mount\<close>: a file-system type outside the three known ones runs no command and still
  returns the fresh directory.
\<close>

definition Mount :: "mount_env \<Rightarrow> string \<Rightarrow> string \<Rightarrow> (host, string) io" where
  "Mount M target fsType =
     bind_io (MkdirTemp M) (\<lambda>dir h.
       case mount_cmd fsType target dir of
         None \<Rightarrow> (Ok dir, h)
       | Some cmd \<Rightarrow>
           (case runs M h cmd of
              Some e \<Rightarrow> (Err e, h\<lparr>ran := ran h @ [cmd]\<rparr>)
            | None \<Rightarrow> (Ok dir, h\<lparr>ran := ran h @ [cmd], mounted := (dir, target) # mounted h\<rparr>)))"

text \<open>
  \<open>Mount2\<close>, which no code calls: the system call instead of a command.  When it fails and
  \<open>errno\<close> is clear, the empty name is returned without an error.
\<close>

definition Mount2 :: "mount_env \<Rightarrow> (host \<Rightarrow> string \<Rightarrow> string \<Rightarrow> int \<times> goerr option) \<Rightarrow> string \<Rightarrow> (host, string) io" where
  "Mount2 M mount_call target =
     bind_io (MkdirTemp M) (\<lambda>dir h.
       let (res, err) = mount_call h target dir in
       if res \<noteq> 0 then (case err of None \<Rightarrow> (Ok [], h) | Some e \<Rightarrow> (Err e, h))
       else (Ok dir, h\<lparr>mounted := (dir, target) # mounted h\<rparr>))"

text \<open>\<open>Unmount\<close>: forced unmount, then the directory is removed.\<close>

definition Unmount :: "mount_env \<Rightarrow> string \<Rightarrow> (host, unit) io" where
  "Unmount M dir h =
     (if umounts M h dir
      then (Ok (), h\<lparr>mounted := filter (\<lambda>m. fst m \<noteq> dir) (mounted h),
                    temps := removeAll dir (temps h)\<rparr>)
      else (Err ''could't umount'', h\<lparr>stuck := dir # stuck h\<rparr>))"

text \<open>
  \<open>CheckMount\<close>: the mount point of the first entry of \<open>/proc/mounts\<close> for the device; the
  table is an argument, its entries device and directory.
\<close>

fun CheckMount :: "(string \<times> string) list \<Rightarrow> string \<Rightarrow> string" where
  "CheckMount [] target = []"
| "CheckMount ((fsname, dir) # es) target =
     (if fsname = target then dir else CheckMount es target)"

text \<open>The mounts in effect, but for those whose unmounting failed.\<close>

definition live :: "host \<Rightarrow> (string \<times> string) list" where
  "live h = filter (\<lambda>m. fst m \<notin> set (stuck h)) (mounted h)"

section \<open>Rewriting the boot configuration\<close>

text \<open>
  What \<open>BCDFix\<close> reads of the system: the class directory and partition table, the disks
  and partitions libparted opens with their UUIDs (empty when libparted has none), the
  outcome of \<open>os.Stat\<close>, and the files in the order of \<open>filepath.Walk\<close> with whether each is a
  directory.  A failing \<open>os.WriteFile\<close> either could not open the file or, having truncated it,
  wrote the given number of bytes.
\<close>

record bcd_env =
  b_block :: "(string \<times> string) list option"
  b_table :: "string option"
  b_device :: "string \<Rightarrow> bool"
  b_disk :: "string \<Rightarrow> bool"
  b_disk_uuid :: "string \<Rightarrow> u8 list"
  b_part_uuid :: "string \<Rightarrow> int \<Rightarrow> u8 list option"
  b_stat :: "host \<Rightarrow> string \<Rightarrow> goerr option"
  b_walk :: "host \<Rightarrow> string \<Rightarrow> (string \<times> bool) list"
  b_write :: "host \<Rightarrow> string \<Rightarrow> (nat option \<times> goerr) option"

text \<open>The visit of one file: only the application-device elements are patched.\<close>

definition bcd_visit :: "bcd_env \<Rightarrow> u8 list \<Rightarrow> u8 list \<Rightarrow> string \<times> bool \<Rightarrow> (host, unit) io" where
  "bcd_visit B partUUID diskUUID f h =
     (let fPath = path_join [fst f, []] in
      if snd f \<or> \<not> str_contains fPath ''1000001/Element.bin'' then (Ok (), h)
      else case files h fPath of
        None \<Rightarrow> (Err (''couldn't read bcd entry:'' @ fPath), h)
      | Some data \<Rightarrow>
          (case bcd_patch partUUID diskUUID data of
             Ok newData \<Rightarrow>
               (case b_write B h fPath of
                  Some (None, e) \<Rightarrow> (Err e, h)
                | Some (Some n, e) \<Rightarrow> (Err e, h\<lparr>files := (files h)(fPath \<mapsto> take n newData)\<rparr>)
                | None \<Rightarrow> (Ok (), h\<lparr>files := (files h)(fPath \<mapsto> newData)\<rparr>))
           | Err e \<Rightarrow> (Err e, h)
           | Panic p \<Rightarrow> (Panic p, h)
           | Blocked \<Rightarrow> (Blocked, h)))"

fun bcd_walk :: "bcd_env \<Rightarrow> u8 list \<Rightarrow> u8 list \<Rightarrow> (string \<times> bool) list \<Rightarrow> (host, unit) io" where
  "bcd_walk B partUUID diskUUID [] h = (Ok (), h)"
| "bcd_walk B partUUID diskUUID (f # fs) h =
     bind_io (bcd_visit B partUUID diskUUID f) (\<lambda>_. bcd_walk B partUUID diskUUID fs) h"

text \<open>The code under the mount of the system partition.\<close>

definition bcd_store :: "mount_env \<Rightarrow> bcd_env \<Rightarrow> u8 list \<Rightarrow> u8 list \<Rightarrow> string \<Rightarrow> (host, unit) io" where
  "bcd_store M B partUUID diskUUID mntDir h =
     (let bcdFilePath = mntDir @ ''/EFI/Microsoft/Boot/BCD'' in
      case b_stat B h bcdFilePath of
        Some e \<Rightarrow> (Err e, h)
      | None \<Rightarrow>
          bind_io (Mount M bcdFilePath ''winregfs'') (\<lambda>mntBCD.
            defer_io (Unmount M mntBCD)
              (\<lambda>h. bcd_walk B partUUID diskUUID (b_walk B h mntBCD) h)) h)"

definition bcd_body ::
  "mount_env \<Rightarrow> bcd_env \<Rightarrow> string \<Rightarrow> string \<Rightarrow> u32 \<Rightarrow> string \<Rightarrow> (host, unit) io" where
  "bcd_body M B espDisk osDisk osPartition mntDir h =
     (let osDiskDev = GetDiskDevByLocation (b_block B) osDisk in
      if osDiskDev = [] then (Err (''couldn't find os disk:'' @ osDisk), h)
      else if \<not> b_device B osDiskDev then (Err (''couldn't find esp disk dev:'' @ espDisk), h)
      else if \<not> b_disk B osDiskDev then (Err (''couldn't find esp disk:'' @ espDisk), h)
      else case EncodeUUID (b_disk_uuid B osDiskDev) of
        Err e \<Rightarrow> (Err e, h) | Panic p \<Rightarrow> (Panic p, h) | Blocked \<Rightarrow> (Blocked, h)
      | Ok diskUUID \<Rightarrow>
          (case b_part_uuid B osDiskDev (sint osPartition) of
             None \<Rightarrow> (Err (''couldn't find os part:'' @ osDisk @ '':'' @ num_str 10 (unat osPartition)), h)
           | Some raw \<Rightarrow>
               (case EncodeUUID raw of
                  Err e \<Rightarrow> (Err e, h) | Panic p \<Rightarrow> (Panic p, h) | Blocked \<Rightarrow> (Blocked, h)
                | Ok partUUID \<Rightarrow> bcd_store M B partUUID diskUUID mntDir h)))"

definition BCDFix ::
  "mount_env \<Rightarrow> bcd_env \<Rightarrow> string \<Rightarrow> u32 \<Rightarrow> string \<Rightarrow> u32 \<Rightarrow> (host, unit) io" where
  "BCDFix M B espDisk espPartition osDisk osPartition h =
     (let bcdDiskDev = GetDiskDevByLocation (b_block B) espDisk in
      if bcdDiskDev = [] then (Err (''couldn't find esp disk:'' @ espDisk), h)
      else
        let espPartDev = GetDevByPartNum (b_table B) bcdDiskDev (int (unat espPartition)) in
        if espPartDev = [] then
          (Err (''couldn't find esp partition:'' @ espDisk @ '':'' @ num_str 10 (unat espPartition)), h)
        else
          bind_io (Mount M espPartDev ''fat32'') (\<lambda>mntDir.
            defer_io (Unmount M mntDir) (bcd_body M B espDisk osDisk osPartition mntDir)) h)"

section \<open>Lemmas\<close>

lemma MkdirTemp_fresh:
  "MkdirTemp M h = (Ok d, h') \<Longrightarrow> \<not> dir_exists h d \<and> h' = h\<lparr>temps := d # temps h\<rparr>"
  by (auto simp: MkdirTemp_def find_Some_iff split: option.splits)

lemma MkdirTemp_fails: "MkdirTemp M h = (r, h') \<Longrightarrow> \<not> is_ok r \<Longrightarrow> h' = h"
  by (auto simp: MkdirTemp_def split: option.splits)

lemma Mount_Ok:
  assumes "Mount M target fsType h = (Ok d, h')"
  shows "\<not> dir_exists h d \<and> stuck h' = stuck h
    \<and> (mounted h' = (d, target) # mounted h \<or> mounted h' = mounted h)"
  using assms unfolding Mount_def
  by (auto elim!: bind_io_Ok_E dest!: MkdirTemp_fresh split: option.splits if_splits)

lemma Mount_fails:
  assumes "Mount M target fsType h = (r, h')" and "\<not> is_ok r"
  shows "live h' = live h"
proof (cases "MkdirTemp M h")
  case (Pair q h1)
  show ?thesis
  proof (cases "is_ok q")
    case True
    then obtain d where "q = Ok d" by (cases q) auto
    with assms Pair MkdirTemp_fresh [of M h d h1] show ?thesis
      by (auto simp: Mount_def live_def split: option.splits if_splits)
  next
    case False
    with assms Pair MkdirTemp_fails [OF Pair] show ?thesis
      by (cases q) (auto simp: Mount_def)
  qed
qed

interpretation mnt: bracket "Mount M target fsType" "Unmount M" live for M target fsType
proof (unfold_locales, goal_cases)
  case (1 h r h')
  then show ?case by (rule Mount_fails)
next
  case (2 h d h1 h2)
  from Mount_Ok [OF 2(1)] have fresh: "\<not> dir_exists h d" and st: "stuck h1 = stuck h"
    and mt: "mounted h1 = (d, target) # mounted h \<or> mounted h1 = mounted h" by auto
  have "fst m \<noteq> d" if "m \<in> set (mounted h)" for m
    using fresh that by (auto simp: dir_exists_def image_iff)
  then have "filter (\<lambda>m. fst m \<notin> set (stuck h) \<and> fst m \<noteq> d) (mounted h)
      = filter (\<lambda>m. fst m \<notin> set (stuck h)) (mounted h)"
    by (intro filter_cong) auto
  with st mt have drop: "filter (\<lambda>m. fst m \<noteq> d) (live h1) = live h"
    by (auto simp: live_def)
  show ?case
  proof (cases "umounts M h2 d")
    case True
    then have "live (snd (Unmount M d h2)) = filter (\<lambda>m. fst m \<noteq> d) (live h2)"
      by (simp add: Unmount_def live_def conj_commute)
    with drop 2(2) show ?thesis by simp
  next
    case False
    then have "live (snd (Unmount M d h2)) = filter (\<lambda>m. fst m \<noteq> d) (live h2)"
      by (simp add: Unmount_def live_def conj_commute)
    with drop 2(2) show ?thesis by simp
  qed
qed

lemma bcd_visit_live: "live (snd (bcd_visit B pu du f h)) = live h"
  by (auto simp: bcd_visit_def live_def Let_def split: option.splits res.splits)

lemma bcd_walk_live: "live (snd (bcd_walk B pu du fs h)) = live h"
proof (induction fs arbitrary: h)
  case (Cons f fs)
  show ?case
    using bcd_visit_live [of B pu du f h] Cons.IH
    by (auto simp: bind_io_def split: prod.splits res.splits)
qed simp

lemma bcd_store_live: "live (snd (bcd_store M B pu du mntDir h)) = live h"
proof -
  have "live (snd (bind_io (Mount M p ''winregfs'') (\<lambda>mntBCD. defer_io (Unmount M mntBCD)
          (\<lambda>h. bcd_walk B pu du (b_walk B h mntBCD) h)) h)) = live h" for p
    by (rule mnt.deferred_release) (rule bcd_walk_live)
  then show ?thesis by (auto simp: bcd_store_def Let_def split: option.splits)
qed

lemma bcd_body_live: "live (snd (bcd_body M B ed od op mntDir h)) = live h"
  by (auto simp: bcd_body_def Let_def bcd_store_live split: option.splits res.splits)

end
