(* ===== verification/Mounts_Correct.thy ===== *)
theory Mounts_Correct
  imports Mounts Disk_Tools_Correct
begin

text \<open>
  What mounting and rewriting the boot configuration guarantee: a mount that succeeds goes
  to a fresh directory, \<open>BCDFix\<close> leaves no mount of its own behind however it ends, and it
  changes the thirty-two bytes of the two UUIDs in application-device elements and nothing
  else.
\<close>

section \<open>Mounts\<close>

text \<open>
  A \<open>Mount\<close> that returns a directory made it fresh; the device is mounted there exactly
  when the file-system type is one of the three known ones, and for any other type the call
  still succeeds with an empty directory and no command run.
\<close>

lemma Mount_outcome:
  assumes "Mount M target fsType h = (Ok d, h')"
  shows "\<not> dir_exists h d \<and> d \<in> set (temps h')
    \<and> (if fsType \<in> {''ntfs'', ''fat32'', ''winregfs''}
       then mounted h' = (d, target) # mounted h \<and> (\<exists>cmd. ran h' = ran h @ [[cmd, target, d]])
       else mounted h' = mounted h \<and> ran h' = ran h)"
  using assms unfolding Mount_def
  by (auto elim!: bind_io_Ok_E dest!: MkdirTemp_fresh split: option.splits if_splits)

definition sample_env :: mount_env where
  "sample_env = \<lparr>draws = (\<lambda>h. [''/tmp/wim1'', ''/tmp/wim2'']), runs = (\<lambda>h c. None), umounts = (\<lambda>h d. True)\<rparr>"

definition sample_host :: host where
  "sample_host = \<lparr>temps = [''/tmp/wim1''], mounted = [], stuck = [], files = (\<lambda>p. None), ran = []\<rparr>"

lemma Mount_outcome_witness:
  "mounted (snd (Mount sample_env ''/dev/sda1'' ''ext4'' sample_host)) = []
   \<and> mounted (snd (Mount sample_env ''/dev/sda1'' ''ntfs'' sample_host)) = [(''/tmp/wim2'', ''/dev/sda1'')]"
proof -
  have "Mount sample_env ''/dev/sda1'' ''ext4'' sample_host
      = (Ok ''/tmp/wim2'', sample_host\<lparr>temps := [''/tmp/wim2'', ''/tmp/wim1'']\<rparr>)"
    by (simp add: Mount_def MkdirTemp_def dir_exists_def bind_io_def sample_env_def sample_host_def)
  moreover have "Mount sample_env ''/dev/sda1'' ''ntfs'' sample_host
      = (Ok ''/tmp/wim2'', sample_host\<lparr>temps := [''/tmp/wim2'', ''/tmp/wim1''],
           ran := [[''ntfs-3g'', ''/dev/sda1'', ''/tmp/wim2'']], mounted := [(''/tmp/wim2'', ''/dev/sda1'')]\<rparr>)"
    by (simp add: Mount_def MkdirTemp_def dir_exists_def bind_io_def sample_env_def sample_host_def)
  ultimately show ?thesis
    using Mount_outcome [of sample_env "''/dev/sda1''" "''ext4''" sample_host]
      Mount_outcome [of sample_env "''/dev/sda1''" "''ntfs''" sample_host]
    by (simp add: sample_host_def)
qed

section \<open>The boot-configuration store\<close>

text \<open>
  C6: however \<open>BCDFix\<close> ends (success, an error from any of its steps, a panic while an
  element is patched) the mounts in effect are those found before the call; only a mount
  whose own unmounting failed remains.
\<close>

theorem BCDFix_mounts:
  "live (snd (BCDFix M B espDisk espPartition osDisk osPartition h)) = live h"
proof -
  have "live (snd (bind_io (Mount M p ''fat32'') (\<lambda>mntDir. defer_io (Unmount M mntDir)
          (bcd_body M B espDisk osDisk osPartition mntDir)) h)) = live h" for p
    by (rule mnt.deferred_release) (rule bcd_body_live)
  then show ?thesis by (auto simp: BCDFix_def Let_def)
qed

text \<open>The bytes of an element outside the two UUIDs.\<close>

definition bcd_frame :: "u8 list \<Rightarrow> u8 list \<Rightarrow> bool" where
  "bcd_frame d d' \<longleftrightarrow> length d' = length d
     \<and> (\<forall>i < length d. (i < 32 \<or> 48 \<le> i) \<and> (i < 56 \<or> 72 \<le> i) \<longrightarrow> d' ! i = d ! i)"

text \<open>
  The files that differ are patched elements; of the one named, if any, there may be only a
  beginning.
\<close>

definition files_kept :: "string option \<Rightarrow> host \<Rightarrow> host \<Rightarrow> bool" where
  "files_kept broken h h' \<longleftrightarrow> (\<forall>p. files h' p = files h p
     \<or> str_contains p ''1000001/Element.bin''
       \<and> (\<exists>d d'. files h p = Some d \<and> bcd_frame d d'
           \<and> (files h' p = Some d' \<or> broken = Some p \<and> (\<exists>n. files h' p = Some (take n d')))))"

text \<open>A call that succeeds leaves no broken file, any other at most one.\<close>

definition at_most_broken :: "host \<Rightarrow> 'a res \<times> host \<Rightarrow> bool" where
  "at_most_broken h r \<longleftrightarrow> (\<exists>broken. (is_ok (fst r) \<longrightarrow> broken = None) \<and> files_kept broken h (snd r))"

lemma files_kept_same: "files h' = files h \<Longrightarrow> files_kept b h h'"
  by (simp add: files_kept_def)

lemma at_most_same: "files (snd r) = files h \<Longrightarrow> at_most_broken h r"
  unfolding at_most_broken_def using files_kept_same by blast

lemma bcd_frame_trans: "bcd_frame a b \<Longrightarrow> bcd_frame b c \<Longrightarrow> bcd_frame a c"
  by (simp add: bcd_frame_def)

lemma files_kept_trans:
  assumes 12: "files_kept None h1 h2" and 23: "files_kept b h2 h3"
  shows "files_kept b h1 h3"
  unfolding files_kept_def
proof
  fix p
  show "files h3 p = files h1 p \<or> str_contains p ''1000001/Element.bin''
      \<and> (\<exists>d d'. files h1 p = Some d \<and> bcd_frame d d'
           \<and> (files h3 p = Some d' \<or> b = Some p \<and> (\<exists>n. files h3 p = Some (take n d'))))"
    using 12 [unfolded files_kept_def, rule_format, of p] 23 [unfolded files_kept_def, rule_format, of p]
    by (cases "files h1 p"; cases "files h2 p") (auto intro: bcd_frame_trans)
qed

lemma files_kept_mono: "files_kept None h h' \<Longrightarrow> files_kept b h h'"
  by (rule files_kept_trans [OF _ files_kept_same]) simp_all

lemma at_most_trans: "files_kept None h h1 \<Longrightarrow> at_most_broken h1 r \<Longrightarrow> at_most_broken h r"
  unfolding at_most_broken_def using files_kept_trans by blast

lemma at_most_files: "at_most_broken h r \<Longrightarrow> files (snd r') = files (snd r) \<Longrightarrow> fst r' = fst r \<Longrightarrow> at_most_broken h r'"
  by (simp add: at_most_broken_def files_kept_def)

lemma at_most_Ok: "at_most_broken h (Ok x, h') \<Longrightarrow> files_kept None h h'"
  by (simp add: at_most_broken_def)

lemma EncodeUUID_length: "EncodeUUID u = Ok v \<Longrightarrow> length v = 16"
  by (auto simp: EncodeUUID_def dest!: copy_at_length)

lemma bcd_patch_bytes:
  assumes "bcd_patch pu du d = Ok d'" and "length pu = 16" and "length du = 16"
  shows "bcd_frame d d'"
proof -
  from assms(1) obtain e where e: "copy_at 32 pu d = Ok e" and d': "copy_at 56 du e = Ok d'"
    by (auto simp: bcd_patch_def)
  show ?thesis
    unfolding bcd_frame_def
    using copy_at_length [OF e] copy_at_length [OF d']
      copy_at_outside [OF e] copy_at_outside [OF d'] assms(2,3) by auto
qed

lemma bcd_visit_files:
  assumes "length pu = 16" and "length du = 16"
  shows "at_most_broken h (bcd_visit B pu du f h)"
proof -
  let ?p = "path_join [fst f, []]"
  consider (same) "files (snd (bcd_visit B pu du f h)) = files h"
    | (new) d d' where "str_contains ?p ''1000001/Element.bin''" "files h ?p = Some d" "bcd_frame d d'"
        "bcd_visit B pu du f h = (Ok (), h\<lparr>files := (files h)(?p \<mapsto> d')\<rparr>)"
    | (broken) d d' n e where "str_contains ?p ''1000001/Element.bin''" "files h ?p = Some d" "bcd_frame d d'"
        "bcd_visit B pu du f h = (Err e, h\<lparr>files := (files h)(?p \<mapsto> take n d')\<rparr>)"
    using bcd_patch_bytes [OF _ assms]
    by (fastforce simp: bcd_visit_def Let_def split: option.splits res.splits if_splits prod.splits)
  then show ?thesis
  proof cases
    case same
    then show ?thesis by (rule at_most_same)
  next
    case new
    then show ?thesis by (auto simp: at_most_broken_def files_kept_def)
  next
    case broken
    then show ?thesis by (auto simp: at_most_broken_def files_kept_def intro!: exI [of _ "Some ?p"])
  qed
qed

lemma bcd_walk_files:
  assumes "length pu = 16" and "length du = 16"
  shows "at_most_broken h (bcd_walk B pu du fs h)"
proof (induction fs arbitrary: h)
  case (Cons f fs)
  note v = bcd_visit_files [OF assms, of h B f]
  obtain r h1 where vis: "bcd_visit B pu du f h = (r, h1)" by (cases "bcd_visit B pu du f h")
  show ?case
  proof (cases r)
    case (Ok u)
    with v vis have "files_kept None h h1" using at_most_Ok [of h u h1] by simp
    from at_most_trans [OF this Cons.IH] vis Ok show ?thesis by simp
  qed (use v vis in \<open>simp_all add: at_most_broken_def\<close>)
qed (simp add: at_most_same)

lemma Mount_files: "Mount M t fs h = (r, h') \<Longrightarrow> files h' = files h"
  by (auto simp: Mount_def MkdirTemp_def bind_io_def split: option.splits res.splits if_splits)

lemma Unmount_files: "files (snd (Unmount M d h)) = files h"
  by (simp add: Unmount_def)

lemma mounted_files_kept:
  assumes "\<And>d h. at_most_broken h (body d h)"
  shows "at_most_broken h (bind_io (Mount M t fs) (\<lambda>d. defer_io (Unmount M d) (body d)) h)"
proof (cases "Mount M t fs h")
  case (Pair r h1)
  note same = Mount_files [OF Pair]
  show ?thesis
  proof (cases r)
    case (Ok d)
    have "at_most_broken h (body d h1)"
      using at_most_trans [OF files_kept_same [OF same] assms] .
    then have "at_most_broken h (defer_io (Unmount M d) (body d) h1)"
      by (rule at_most_files) (simp_all add: defer_io_def Unmount_files split: prod.split)
    with Pair Ok show ?thesis by simp
  qed (use Pair same in \<open>simp_all add: at_most_same\<close>)
qed

text \<open>
  C7: whatever its outcome, \<open>BCDFix\<close> changes no file whose path lacks
  \<open>1000001/Element.bin\<close>.  When it succeeds, a file that has it keeps its length and every byte
  outside the two sixteen-byte fields at 32 and 56; otherwise this holds of all of them but at
  most one, of which a failing write left only a beginning.
\<close>

theorem BCDFix_files:
  "if is_ok (fst (BCDFix M B espDisk espPartition osDisk osPartition h))
   then files_kept None h (snd (BCDFix M B espDisk espPartition osDisk osPartition h))
   else \<exists>p. files_kept (Some p) h (snd (BCDFix M B espDisk espPartition osDisk osPartition h))"
proof -
  have store: "at_most_broken h (bcd_store M B pu du d h)"
    if "length pu = 16" and "length du = 16" for pu du d h
    unfolding bcd_store_def Let_def
    using mounted_files_kept [of "\<lambda>d h. bcd_walk B pu du (b_walk B h d) h", OF bcd_walk_files [OF that]]
    by (auto simp: at_most_same split: option.splits)
  have body: "at_most_broken h (bcd_body M B espDisk osDisk osPartition d h)" for d h
    by (auto simp: bcd_body_def Let_def at_most_same dest!: EncodeUUID_length intro!: store
        split: option.splits res.splits)
  have "at_most_broken h (BCDFix M B espDisk espPartition osDisk osPartition h)"
    unfolding BCDFix_def Let_def
    using mounted_files_kept [of "bcd_body M B espDisk osDisk osPartition", OF body]
    by (auto simp: at_most_same)
  then obtain broken where b: "is_ok (fst (BCDFix M B espDisk espPartition osDisk osPartition h)) \<longrightarrow> broken = None"
      "files_kept broken h (snd (BCDFix M B espDisk espPartition osDisk osPartition h))"
    unfolding at_most_broken_def by blast
  then show ?thesis using files_kept_mono by (cases broken) auto
qed

section \<open>What is patched\<close>

text \<open>An element that carries both UUIDs, the second as far as it reaches.\<close>

definition patched :: "u8 list \<Rightarrow> u8 list \<Rightarrow> u8 list \<Rightarrow> bool" where
  "patched pu du d \<longleftrightarrow> 56 \<le> length d \<and> (\<forall>i < 16. d ! (32 + i) = pu ! i)
     \<and> (\<forall>i < 16. 56 + i < length d \<longrightarrow> d ! (56 + i) = du ! i)"

lemma bcd_patch_patched:
  assumes "bcd_patch pu du d = Ok d'" and "length pu = 16" and "length du = 16"
  shows "patched pu du d'"
proof -
  from assms(1) obtain e where e: "copy_at 32 pu d = Ok e" and d': "copy_at 56 du e = Ok d'"
    by (auto simp: bcd_patch_def)
  have len: "length e = length d" "length d' = length d" "56 \<le> length d"
    using copy_at_length [OF e] copy_at_length [OF d'] d' by (auto simp: copy_at_def split: if_splits)
  have "d' ! (32 + i) = pu ! i" if "i < 16" for i
    using copy_at_inside [OF e, of i] copy_at_outside [OF d', of "32 + i"] len that assms(2) by simp
  moreover have "d' ! (56 + i) = du ! i" if "i < 16" "56 + i < length d" for i
    using copy_at_inside [OF d', of i] len that assms(3) by simp
  ultimately show ?thesis using len by (simp add: patched_def)
qed

text \<open>The elements the walk is to patch, and those of them that are.\<close>

definition is_element :: "string \<times> bool \<Rightarrow> bool" where
  "is_element f \<longleftrightarrow> \<not> snd f \<and> str_contains (path_join [fst f, []]) ''1000001/Element.bin''"

definition holds_uuids :: "u8 list \<Rightarrow> u8 list \<Rightarrow> host \<Rightarrow> string \<Rightarrow> bool" where
  "holds_uuids pu du h p \<longleftrightarrow> (\<exists>d. files h p = Some d \<and> patched pu du d)"

lemma bcd_visit_patches:
  assumes "bcd_visit B pu du f h = (Ok (), h')" and "length pu = 16" and "length du = 16"
  shows "is_element f \<Longrightarrow> holds_uuids pu du h' (path_join [fst f, []])"
    and "holds_uuids pu du h p \<Longrightarrow> holds_uuids pu du h' p"
  using assms bcd_patch_patched [OF _ assms(2,3)]
  by (auto simp: bcd_visit_def is_element_def holds_uuids_def Let_def split: if_splits option.splits res.splits)

lemma bcd_walk_patches:
  assumes "bcd_walk B pu du fs h = (Ok (), h')" and "length pu = 16" and "length du = 16"
  shows "(\<forall>p. holds_uuids pu du h p \<longrightarrow> holds_uuids pu du h' p)
    \<and> (\<forall>f \<in> set fs. is_element f \<longrightarrow> holds_uuids pu du h' (path_join [fst f, []]))"
  using assms(1)
proof (induction fs arbitrary: h)
  case (Cons f fs)
  then obtain h1 where v: "bcd_visit B pu du f h = (Ok (), h1)" and w: "bcd_walk B pu du fs h1 = (Ok (), h')"
    by (auto elim!: bind_io_Ok_E)
  show ?case using bcd_visit_patches [OF v assms(2,3)] Cons.IH [OF w] by auto
qed simp

lemma deferred_Ok:
  assumes "bind_io (Mount M t fs) (\<lambda>d. defer_io (Unmount M d) (body d)) h = (Ok x, h')"
  obtains d h1 h2 where "files h1 = files h" and "body d h1 = (Ok x, h2)" and "files h' = files h2"
proof -
  from assms obtain d h1 where m: "Mount M t fs h = (Ok d, h1)"
      and b: "defer_io (Unmount M d) (body d) h1 = (Ok x, h')"
    by (elim bind_io_Ok_E)
  from b obtain h2 where "body d h1 = (Ok x, h2)" "h' = snd (Unmount M d h2)"
    by (auto simp: defer_io_def split: prod.splits)
  with that Mount_files [OF m] Unmount_files [of M d h2] show thesis by metis
qed

text \<open>
  C8: when \<open>BCDFix\<close> succeeds, every application-device element the walk of the mounted store
  meets carries the UUID of the operating system's partition at 32 and that of its disk at 56,
  both in the mixed byte order, and is long enough for the first.
\<close>

theorem BCDFix_patches:
  assumes "BCDFix M B espDisk espPartition osDisk osPartition h = (Ok (), h')"
  shows "\<exists>du raw pu dir h1. EncodeUUID (b_disk_uuid B (GetDiskDevByLocation (b_block B) osDisk)) = Ok du
    \<and> b_part_uuid B (GetDiskDevByLocation (b_block B) osDisk) (sint osPartition) = Some raw
    \<and> EncodeUUID raw = Ok pu \<and> files h1 = files h
    \<and> (\<forall>f \<in> set (b_walk B h1 dir). is_element f \<longrightarrow> holds_uuids pu du h' (path_join [fst f, []]))"
proof -
  from assms obtain p where "bind_io (Mount M p ''fat32'') (\<lambda>mntDir. defer_io (Unmount M mntDir)
      (bcd_body M B espDisk osDisk osPartition mntDir)) h = (Ok (), h')"
    by (auto simp: BCDFix_def Let_def split: if_splits)
  then obtain d h1 h2 where 1: "files h1 = files h" "bcd_body M B espDisk osDisk osPartition d h1 = (Ok (), h2)"
      "files h' = files h2"
    by (rule deferred_Ok)
  let ?dev = "GetDiskDevByLocation (b_block B) osDisk"
  from 1(2) obtain du raw pu where u: "EncodeUUID (b_disk_uuid B ?dev) = Ok du"
      "b_part_uuid B ?dev (sint osPartition) = Some raw" "EncodeUUID raw = Ok pu"
      and st: "bcd_store M B pu du d h1 = (Ok (), h2)"
    by (auto simp: bcd_body_def Let_def split: if_splits option.splits res.splits)
  from st obtain q where "bind_io (Mount M q ''winregfs'') (\<lambda>mntBCD. defer_io (Unmount M mntBCD)
      (\<lambda>h. bcd_walk B pu du (b_walk B h mntBCD) h)) h1 = (Ok (), h2)"
    by (auto simp: bcd_store_def Let_def split: option.splits)
  then obtain e h3 h4 where 2: "files h3 = files h1" "bcd_walk B pu du (b_walk B h3 e) h3 = (Ok (), h4)"
      "files h2 = files h4"
    by (rule deferred_Ok)
  from bcd_walk_patches [OF 2(2) EncodeUUID_length [OF u(3)] EncodeUUID_length [OF u(1)]]
  have "\<forall>f \<in> set (b_walk B h3 e). is_element f \<longrightarrow> holds_uuids pu du h' (path_join [fst f, []])"
    using 1(3) 2(3) by (simp add: holds_uuids_def)
  with u 1(1) 2(1) show ?thesis by metis
qed

text \<open>A store with one element of 72 bytes.\<close>

definition sample_bcd :: bcd_env where
  "sample_bcd = \<lparr>b_block = Some [(''sda'', ''../pci0/block/sda'')],
     b_table = Some (''major'' @ [CHR 0x0A] @ ''8 0 9 sda'' @ [CHR 0x0A] @ ''8 1 9 sda1''),
     b_device = (\<lambda>d. True), b_disk = (\<lambda>d. True), b_disk_uuid = (\<lambda>d. replicate 16 1),
     b_part_uuid = (\<lambda>d n. Some (replicate 16 2)), b_stat = (\<lambda>h p. None),
     b_walk = (\<lambda>h d. [(''/m/1000001/Element.bin'', False)]), b_write = (\<lambda>h p. None)\<rparr>"

definition bcd_host :: host where
  "bcd_host = sample_host\<lparr>files := [''/m/1000001/Element.bin'' \<mapsto> replicate 72 0]\<rparr>"

definition bcd_mounts :: mount_env where
  "bcd_mounts = sample_env\<lparr>draws := \<lambda>h. [''/tmp/wim2'', ''/tmp/wim3'']\<rparr>"

lemma deferred_result: "fst (defer_io release body h) = fst (body h)"
  by (simp add: defer_io_def split: prod.split)

lemma bcd_device: "GetDiskDevByLocation (b_block sample_bcd) ''pci0'' = ''/dev/sda''"
proof -
  have "GetDiskDevByLocation (Some [(''sda'', ''../pci0/block/sda'')]) ''pci0'' = ''/dev/sda''" by code_simp
  then show ?thesis by (simp add: sample_bcd_def)
qed

lemma bcd_part_device: "GetDevByPartNum (b_table sample_bcd) ''/dev/sda'' 1 = ''/dev/sda1''"
proof -
  have "GetDevByPartNum (Some (''major'' @ [CHR 0x0A] @ ''8 0 9 sda'' @ [CHR 0x0A] @ ''8 1 9 sda1''))
      ''/dev/sda'' 1 = ''/dev/sda1''" by code_simp
  then show ?thesis by (simp add: sample_bcd_def)
qed

lemma EncodeUUID_uniform: "EncodeUUID (replicate 16 b) = Ok (replicate 16 b)"
proof -
  have "replicate 16 b = [b,b,b,b,b,b,b,b,b,b,b,b,b,b,b,b]" by (simp add: numeral_eq_Suc)
  then show ?thesis using EncodeUUID_bytes [of "replicate 16 b"] by simp
qed

lemma bcd_element: "is_element (''/m/1000001/Element.bin'', False)"
  unfolding is_element_def by code_simp

lemma bcd_element_path: "path_join [''/m/1000001/Element.bin'', []] = ''/m/1000001/Element.bin''"
  by code_simp

theorem BCDFix_patches_witness:
  "\<exists>d. files (snd (BCDFix bcd_mounts sample_bcd ''pci0'' 1 ''pci0'' 2 bcd_host)) ''/m/1000001/Element.bin'' = Some d
     \<and> patched (replicate 16 2) (replicate 16 1) d"
proof -
  let ?run = "BCDFix bcd_mounts sample_bcd ''pci0'' 1 ''pci0'' 2 bcd_host"
  have uuids: "b_disk_uuid sample_bcd d = replicate 16 1" "b_part_uuid sample_bcd d n = Some (replicate 16 2)"
    "b_walk sample_bcd h d = [(''/m/1000001/Element.bin'', False)]" for d n h
    by (simp_all add: sample_bcd_def)
  have elem: "str_contains ''/m/1000001/Element.bin'' ''1000001/Element.bin''"
    using bcd_element bcd_element_path by (simp add: is_element_def)
  have part: "GetDevByPartNum (b_table sample_bcd) ''/dev/sda'' (int (unat (1 :: u32))) = ''/dev/sda1''"
    by (simp add: bcd_part_device)
  obtain new where new: "bcd_patch (replicate 16 2) (replicate 16 1) (replicate 72 0) = Ok new"
    by (simp add: bcd_patch_def copy_at_def)
  let ?h = "\<lambda>t m r. bcd_host\<lparr>temps := t, mounted := m, ran := r\<rparr>"
  have walk: "fst (bcd_walk sample_bcd (replicate 16 2) (replicate 16 1) [(''/m/1000001/Element.bin'', False)]
      (?h t m r)) = Ok ()" for t m r
    using new elem
    by (simp add: bcd_visit_def bcd_element_path bind_io_def bcd_host_def sample_bcd_def)
  have mount1: "Mount bcd_mounts ''/dev/sda1'' ''fat32'' bcd_host = (Ok ''/tmp/wim2'',
      ?h [''/tmp/wim2'', ''/tmp/wim1''] [(''/tmp/wim2'', ''/dev/sda1'')] [[''mount'', ''/dev/sda1'', ''/tmp/wim2'']])"
    by (simp add: Mount_def MkdirTemp_def dir_exists_def bind_io_def bcd_mounts_def bcd_host_def
        sample_env_def sample_host_def)
  have mount2: "Mount bcd_mounts p ''winregfs'' (?h [''/tmp/wim2'', ''/tmp/wim1''] m r) = (Ok ''/tmp/wim3'',
      ?h [''/tmp/wim3'', ''/tmp/wim2'', ''/tmp/wim1''] ((''/tmp/wim3'', p) # m) (r @ [[''mount.winregfs'', p, ''/tmp/wim3'']]))"
    if "fst ` set m = {''/tmp/wim2''}" for p m r
    using that by (simp add: Mount_def MkdirTemp_def dir_exists_def bind_io_def bcd_mounts_def bcd_host_def
        sample_env_def sample_host_def)
  have open_disk: "b_device sample_bcd d" "b_disk sample_bcd d" "b_stat sample_bcd h p = None" for d h p
    by (simp_all add: sample_bcd_def)
  have "fst ?run = Ok ()"
    unfolding BCDFix_def bcd_device Let_def part
    by (simp add: bind_io_def mount1 mount2 bcd_body_def bcd_store_def Let_def bcd_device open_disk uuids EncodeUUID_uniform
        walk deferred_result del: bcd_walk.simps)
  then obtain h' where run: "?run = (Ok (), h')" by (cases ?run; cases "fst ?run") auto
  from BCDFix_patches [OF run] show ?thesis
    unfolding bcd_device by (auto simp: run uuids EncodeUUID_uniform bcd_element bcd_element_path holds_uuids_def)
qed

end
