(* ===== verification/Image_Apply.thy ===== *)
theory Image_Apply
  imports Disk_Format Mounts
begin

text \<open>
  Applying a disk image: \<open>tools/wim/wim.go\<close> (the preparation of the target, the progress
  callback, the goroutine that extracts, with its unbuffered channels) and the RPCs \<open>BCDFix\<close>,
  \<open>ApplyImage\<close> and \<open>ApplyImage2\<close> of \<open>service/maintenance_linux.go\<close>.
\<close>

section \<open>The RPCs\<close>

text \<open>\<open>BCDFix\<close>: the status repeats the error that is also returned.\<close>

definition BCDFix_rpc ::
  "mount_env \<Rightarrow> bcd_env \<Rightarrow> BCDFixRequest \<Rightarrow> host \<Rightarrow> (string \<times> goerr option) res \<times> host" where
  "BCDFix_rpc M B req h =
     (let espDisk = bf_espDisk req; espPartition = bf_espPartition req;
          osDisk = bf_osDisk req; osPart = bf_osPartition req in
      case BCDFix M B espDisk espPartition osDisk osPart h of
        (Ok _, h') \<Rightarrow> (Ok (''success'', None), h')
      | (Err e, h') \<Rightarrow> (Ok (e, Some e), h')
      | (Panic p, h') \<Rightarrow> (Panic p, h')
      | (Blocked, h') \<Rightarrow> (Blocked, h'))"

text \<open>What the two handlers decide before anything is written.\<close>

datatype apply_plan =
    RunWimapply "string list"
  | UseLibrary string u32 string string

text \<open>\<open>fmt.Errorf\<close> with the verb \<open>%s\<close> and an integer.\<close>

definition bad_verb :: "u32 \<Rightarrow> string" where
  "bad_verb n = ''%!s(uint32='' @ num_str 10 (unat n) @ '')''"

text \<open>
  \<open>WIMOpen\<close>: the result code of the library with the error cgo makes of \<open>errno\<close>.  A code that
  reports a failure is not an error of the call when \<open>errno\<close> is clear.
\<close>

definition WIMOpen :: "(string \<Rightarrow> int \<times> goerr option) \<Rightarrow> string \<Rightarrow> unit res" where
  "WIMOpen wim_open img =
     (case wim_open img of
        (res, err) \<Rightarrow> if res \<noteq> 0 then (case err of None \<Rightarrow> Ok () | Some e \<Rightarrow> Err e) else Ok ())"

definition ApplyImage2_plan ::
  "'d ped \<Rightarrow> ('d, 'w) system \<Rightarrow> (string \<Rightarrow> int \<times> goerr option) \<Rightarrow> 'w \<Rightarrow> ApplyImageRequest \<Rightarrow> apply_plan res" where
  "ApplyImage2_plan P S wim_open w req =
     (let imgPath = ai_imagePath req; imgIndex = ai_imageIndex req;
          targetDisk = ai_targetDisk req; targetPart = ai_targetPartition req;
          disk = GetDiskDevByLocation (s_block S w) targetDisk;
          part = GetDevByPartNum (s_table S w) disk (uint targetPart) in
      if \<not> s_device S w disk then Err (''couldn't find device:'' @ disk)
      else case s_disk S w disk of
        None \<Rightarrow> Err (''couldn't find disk:'' @ disk)
      | Some ddisk \<Rightarrow>
          (case GetPartition P ddisk (uint targetPart) of
             None \<Rightarrow> Err (''couldn't find partition:'' @ num_str 10 (unat targetPart))
           | Some pPart \<Rightarrow>
               bind_res (WIMOpen wim_open (''/nfs/'' @ imgPath)) (\<lambda>_.
               bind_res (GetFSType pPart) (\<lambda>fs.
                 Ok (UseLibrary (''/nfs/'' @ imgPath) imgIndex part fs)))))"

definition ApplyImage_plan ::
  "'d ped \<Rightarrow> ('d, 'w) system \<Rightarrow> (string \<Rightarrow> int \<times> goerr option) \<Rightarrow> 'w \<Rightarrow> ApplyImageRequest \<Rightarrow> apply_plan res" where
  "ApplyImage_plan P S wim_open w req =
     (let imgPath = ai_imagePath req; imgIndex = ai_imageIndex req;
          targetDisk = ai_targetDisk req; targetPart = ai_targetPartition req;
          disk = GetDiskDevByLocation (s_block S w) targetDisk in
      if disk = [] then Err (''couldn't find disk device:'' @ targetDisk)
      else
        let part = GetDevByPartNum (s_table S w) disk (uint targetPart) in
        if part = [] then Err (''couldn't find partition device:'' @ bad_verb targetPart)
        else if \<not> s_device S w disk then Err (''couldn't find device:'' @ disk)
        else case s_disk S w disk of
          None \<Rightarrow> Err (''couldn't find disk:'' @ disk)
        | Some ddisk \<Rightarrow>
            (case GetPartition P ddisk (uint targetPart) of
               None \<Rightarrow> Err (''couldn't find partition:'' @ num_str 10 (unat targetPart))
             | Some pPart \<Rightarrow>
                 bind_res (GetFSType pPart) (\<lambda>fs.
                   if fs \<noteq> ''ntfs'' then ApplyImage2_plan P S wim_open w req
                   else Ok (RunWimapply [''wimapply'', ''/nfs/'' @ imgPath, num_str 10 (unat imgIndex), part]))))"

text \<open>
  The \<open>wimapply\<close> branch: what each \<open>Read\<close> of the pipe returns is sent trimmed, up to the
  first error; the answer is that of \<open>cmd.Wait\<close>.
\<close>

fun pipe_loop :: "(string + goerr) list \<Rightarrow> string list" where
  "pipe_loop [] = []"
| "pipe_loop (Inr e # rs) = []"
| "pipe_loop (Inl out # rs) = str_trim_space out # pipe_loop rs"

section \<open>Preparing the target\<close>

text \<open>
  \<open>Apply\<close> up to the start of its goroutine.  On each error path the error is sent on the
  unbuffered \<open>chFinish\<close> before the channel has been returned to anybody, so the send can
  never be received: the call is \<open>Blocked\<close>.
\<close>

definition mkfs_cmd :: "string \<Rightarrow> string \<Rightarrow> string list option" where
  "mkfs_cmd fsType target =
     (if fsType = ''ntfs'' then Some (Mkntfs_cmd target [])
      else if fsType = ''fat32'' then Some (Mkvfat_cmd target [])
      else None)"

fun send_unreceived :: "'a res \<times> 's \<Rightarrow> 'a res \<times> 's" where
  "send_unreceived (Ok x, s) = (Ok x, s)"
| "send_unreceived (Err e, s) = (Blocked, s)"
| "send_unreceived (Panic p, s) = (Panic p, s)"
| "send_unreceived (Blocked, s) = (Blocked, s)"

definition run_mkfs :: "mount_env \<Rightarrow> string list option \<Rightarrow> (host, unit) io" where
  "run_mkfs M c h =
     (case c of
        None \<Rightarrow> (Ok (), h)
      | Some cmd \<Rightarrow>
          (case runs M h cmd of None \<Rightarrow> Ok () | Some e \<Rightarrow> Err e, h\<lparr>ran := ran h @ [cmd]\<rparr>))"

definition Apply_setup ::
  "mount_env \<Rightarrow> (host \<Rightarrow> (string \<times> string) list) \<Rightarrow> string \<Rightarrow> string \<Rightarrow> (host, string) io" where
  "Apply_setup M mtab target fsType h =
     send_unreceived
       (bind_io (\<lambda>h. let dir = CheckMount (mtab h) target in
                     if dir \<noteq> [] then Unmount M dir h else (Ok (), h))
       (\<lambda>_. bind_io (run_mkfs M (mkfs_cmd fsType target))
       (\<lambda>_. Mount M target fsType)) h)"

section \<open>Extraction and its channels\<close>

text \<open>
  A call of the progress callback: the message type of wimlib and the stream counters.  The
  status text; the percentage is computed in the counters' 64-bit unsigned type.
\<close>

record wim_msg =
  wm_type :: int
  wm_completed :: u64
  wm_total :: u64

definition status_of :: "wim_msg \<Rightarrow> string res" where
  "status_of m =
     (if wm_type m = 0 then Ok ''Extracting started''
      else if wm_type m = 3 then Ok ''Creating directories''
      else if wm_type m = 4 then
        (if wm_total m = 0 then Panic DivideByZero
         else Ok (''Extracting files ('' @ num_str 10 (unat (wm_completed m)) @ ''/''
                  @ num_str 10 (unat (wm_total m)) @ '' ''
                  @ num_str 10 (unat ((wm_completed m * 100) div wm_total m)) @ ''%)''))
      else if wm_type m = 6 then Ok ''Extracting metadata''
      else Ok [])"

text \<open>
  The goroutine: inside the library with the callbacks still to come, its result code and
  the error cgo pairs with it (from \<open>errno\<close>, possibly none); blocked sending nil from the
  callback; blocked sending the error; at its deferred calls; behind \<open>Unmount\<close>; behind the
  closing of \<open>chFinish\<close>; ended, with both channels closed; or panicked, which takes the process
  down.  The client's handler: in its \<open>select\<close>, or returned.  The deferred \<open>Unmount\<close> of the
  target drops its error; the state says whether it was called, and whether it succeeded.
\<close>

datatype worker =
    Extracting "wim_msg list" int "goerr option"
  | SendingNil "wim_msg list" int "goerr option"
  | SendingErr "goerr option"
  | Deferred
  | Released
  | Closing
  | Ended
  | Crashed panic

datatype receiver = Selecting | Returned "goerr option"

record wim_state =
  wk :: worker
  rx :: receiver
  told :: "string list"
  unmounted :: "bool option"

text \<open>
  A status is sent without blocking: it arrives when the receiver is at its \<open>select\<close>, and is
  dropped when the receiver is busy or gone.
\<close>

inductive wstep :: "wim_state \<Rightarrow> wim_state \<Rightarrow> bool" where
  deliver: "wk s = Extracting (m # ms) r e \<Longrightarrow> wm_type m \<noteq> 7 \<Longrightarrow> status_of m = Ok t \<Longrightarrow> t \<noteq> []
    \<Longrightarrow> rx s = Selecting
    \<Longrightarrow> wstep s (s\<lparr>wk := Extracting ms r e, told := told s @ [t]\<rparr>)"
| drop: "wk s = Extracting (m # ms) r e \<Longrightarrow> wm_type m \<noteq> 7 \<Longrightarrow> status_of m = Ok t
    \<Longrightarrow> wstep s (s\<lparr>wk := Extracting ms r e\<rparr>)"
| crash: "wk s = Extracting (m # ms) r e \<Longrightarrow> wm_type m \<noteq> 7 \<Longrightarrow> status_of m = Panic p
    \<Longrightarrow> wstep s (s\<lparr>wk := Crashed p\<rparr>)"
| applied: "wk s = Extracting (m # ms) r e \<Longrightarrow> wm_type m = 7 \<Longrightarrow> rx s = Selecting
    \<Longrightarrow> wstep s (s\<lparr>wk := SendingNil ms r e, told := told s @ [''Image applied successfully'']\<rparr>)"
| applied_drop: "wk s = Extracting (m # ms) r e \<Longrightarrow> wm_type m = 7
    \<Longrightarrow> wstep s (s\<lparr>wk := SendingNil ms r e\<rparr>)"
| recv_nil: "wk s = SendingNil ms r e \<Longrightarrow> rx s = Selecting
    \<Longrightarrow> wstep s (s\<lparr>wk := Extracting ms r e, rx := Returned None\<rparr>)"
| failed: "wk s = Extracting [] r e \<Longrightarrow> r \<noteq> 0 \<Longrightarrow> wstep s (s\<lparr>wk := SendingErr e\<rparr>)"
| finished: "wk s = Extracting [] r e \<Longrightarrow> r = 0 \<Longrightarrow> wstep s (s\<lparr>wk := Deferred\<rparr>)"
| recv_err: "wk s = SendingErr e \<Longrightarrow> rx s = Selecting
    \<Longrightarrow> wstep s (s\<lparr>wk := Deferred, rx := Returned e\<rparr>)"
| release: "wk s = Deferred \<Longrightarrow> wstep s (s\<lparr>wk := Released, unmounted := Some success\<rparr>)"
| close_finish: "wk s = Released \<Longrightarrow> wstep s (s\<lparr>wk := Closing\<rparr>)"
| close_progress: "wk s = Closing \<Longrightarrow> wstep s (s\<lparr>wk := Ended\<rparr>)"
| recv_closed: "wk s = Closing \<or> wk s = Ended \<Longrightarrow> rx s = Selecting \<Longrightarrow> wstep s (s\<lparr>rx := Returned None\<rparr>)"
| recv_closed_status: "wk s = Ended \<Longrightarrow> rx s = Selecting \<Longrightarrow> wstep s (s\<lparr>told := told s @ [[]]\<rparr>)"

inductive_cases wstep_cases: "wstep s t"

definition wim_init :: "wim_msg list \<Rightarrow> int \<Rightarrow> goerr option \<Rightarrow> wim_state" where
  "wim_init ms r e =
     \<lparr>wk = Extracting ms r e, rx = Selecting, told = [''Applying image''], unmounted = None\<rparr>"

abbreviation wim_reach :: "wim_msg list \<Rightarrow> int \<Rightarrow> goerr option \<Rightarrow> wim_state \<Rightarrow> bool" where
  "wim_reach ms r e s \<equiv> wstep\<^sup>*\<^sup>* (wim_init ms r e) s"

section \<open>The handler\<close>

text \<open>
  The external program: its pipe, its start, what is read of the pipe and the answer of
  \<open>Wait\<close>; the statuses that are sent and the error that is returned.
\<close>

record wimapply_env =
  wa_pipe :: "goerr option"
  wa_start :: "goerr option"
  wa_reads :: "(string + goerr) list"
  wa_wait :: "goerr option"

definition run_wimapply :: "wimapply_env \<Rightarrow> string list \<times> goerr option" where
  "run_wimapply W =
     (case wa_pipe W of
        Some err \<Rightarrow> ([], Some err)
      | None \<Rightarrow>
          (case wa_start W of
             Some err \<Rightarrow> ([], Some err)
           | None \<Rightarrow> (pipe_loop (wa_reads W), wa_wait W)))"

text \<open>
  The library: the target is prepared, then the goroutine extracts into the directory while
  the handler is in its \<open>select\<close>; the callbacks, the result and its error are those of
  extracting into that directory.
\<close>

definition run_library ::
  "mount_env \<Rightarrow> (host \<Rightarrow> (string \<times> string) list) \<Rightarrow> (string \<Rightarrow> wim_msg list \<times> int \<times> goerr option)
   \<Rightarrow> string \<Rightarrow> string \<Rightarrow> (host, string \<times> wim_state) io" where
  "run_library M mtab extract part fs =
     bind_io (Apply_setup M mtab part fs) (\<lambda>dir h.
       case extract dir of (ms, r, e) \<Rightarrow> (Ok (dir, wim_init ms r e), h))"

datatype apply_result =
    Finished "string list" "goerr option"
  | Extraction string wim_state

definition ApplyImage ::
  "'d ped \<Rightarrow> ('d, 'w) system \<Rightarrow> (string \<Rightarrow> int \<times> goerr option) \<Rightarrow> 'w
   \<Rightarrow> mount_env \<Rightarrow> (host \<Rightarrow> (string \<times> string) list) \<Rightarrow> (string list \<Rightarrow> wimapply_env)
   \<Rightarrow> (string \<Rightarrow> u32 \<Rightarrow> string \<Rightarrow> wim_msg list \<times> int \<times> goerr option)
   \<Rightarrow> ApplyImageRequest \<Rightarrow> (host, apply_result) io" where
  "ApplyImage P S wim_open w M mtab W extract req h =
     (case ApplyImage_plan P S wim_open w req of
        Err e \<Rightarrow> (Err e, h)
      | Panic p \<Rightarrow> (Panic p, h)
      | Blocked \<Rightarrow> (Blocked, h)
      | Ok (RunWimapply cmd) \<Rightarrow>
          (case run_wimapply (W cmd) of
             (sent, err) \<Rightarrow>
               (Ok (Finished sent err), if wa_pipe (W cmd) = None then h\<lparr>ran := ran h @ [cmd]\<rparr> else h))
      | Ok (UseLibrary img idx part fs) \<Rightarrow>
          bind_io (run_library M mtab (extract img idx) part fs)
            (\<lambda>(dir, s). ret (Extraction dir s)) h)"

text \<open>\<open>WIM.Cancel\<close> cancels nothing.\<close>

definition wim_Cancel :: "('s, unit) io" where
  "wim_Cancel = ret ()"

end
