(* ===== verification/Image_Apply_Correct.thy ===== *)
theory Image_Apply_Correct
  imports Image_Apply Disk_Format_Correct Mounts_Correct
begin

text \<open>
  What applying an image guarantees: which requests reach the image library, which failures
  leave the client waiting forever, when the client is told that the image was applied, and
  when the target is released.
\<close>

section \<open>The extraction as a transition system\<close>

definition sevens :: "wim_msg list \<Rightarrow> nat" where
  "sevens ms = length (filter (\<lambda>m. wm_type m = 7) ms)"

lemma sevens_simps [simp]:
  "sevens [] = 0" "sevens (m # ms) = (if wm_type m = 7 then 1 else 0) + sevens ms"
  "sevens (ms @ ns) = sevens ms + sevens ns"
  by (simp_all add: sevens_def)

definition silent_or_nil :: "wim_state \<Rightarrow> bool" where
  "silent_or_nil s \<longleftrightarrow> rx s = Selecting \<or> rx s = Returned None"

text \<open>The invariant, by the position of the goroutine.\<close>

definition wim_inv :: "wim_msg list \<Rightarrow> int \<Rightarrow> goerr option \<Rightarrow> wim_state \<Rightarrow> bool" where
  "wim_inv ms r e s =
     (case wk s of
        Extracting ms' r' e' \<Rightarrow> r' = r \<and> e' = e \<and> unmounted s = None \<and> silent_or_nil s
          \<and> (\<exists>pre. ms = pre @ ms' \<and> sevens pre = (if rx s = Selecting then 0 else 1))
      | SendingNil ms' r' e' \<Rightarrow> r' = r \<and> e' = e \<and> unmounted s = None \<and> silent_or_nil s
          \<and> (\<exists>pre. ms = pre @ ms' \<and> sevens pre = (if rx s = Selecting then 1 else 2))
      | SendingErr e' \<Rightarrow> e' = e \<and> r \<noteq> 0 \<and> unmounted s = None \<and> silent_or_nil s
          \<and> sevens ms = (if rx s = Selecting then 0 else 1)
      | Deferred \<Rightarrow> unmounted s = None
          \<and> (if r = 0 then silent_or_nil s \<and> sevens ms = (if rx s = Selecting then 0 else 1)
             else sevens ms = 0 \<and> rx s = Returned e)
      | Released \<Rightarrow> unmounted s \<noteq> None
          \<and> (if r = 0 then silent_or_nil s \<and> sevens ms = (if rx s = Selecting then 0 else 1)
             else sevens ms = 0 \<and> rx s = Returned e)
      | Closing \<Rightarrow> unmounted s \<noteq> None
          \<and> (if r = 0 then silent_or_nil s \<and> (sevens ms = 0 \<or> sevens ms = 1 \<and> rx s \<noteq> Selecting)
             else sevens ms = 0 \<and> rx s = Returned e)
      | Ended \<Rightarrow> unmounted s \<noteq> None
          \<and> (if r = 0 then silent_or_nil s \<and> (sevens ms = 0 \<or> sevens ms = 1 \<and> rx s \<noteq> Selecting)
             else sevens ms = 0 \<and> rx s = Returned e)
      | Crashed p \<Rightarrow> unmounted s = None \<and> silent_or_nil s \<and> (rx s = Selecting \<or> 0 < sevens ms))"

lemma wim_inv_init: "wim_inv ms r e (wim_init ms r e)"
  by (simp add: wim_inv_def wim_init_def silent_or_nil_def)

lemma pre_snoc:
  "\<exists>pre. ms = pre @ m # ms' \<and> sevens pre = n \<Longrightarrow> k = n + (if wm_type m = 7 then 1 else 0) \<Longrightarrow>
   \<exists>pre. ms = pre @ ms' \<and> sevens pre = k"
  by (metis append.assoc append_Cons append_Nil sevens_simps add_0_right)

lemma wim_inv_step: "wstep s t \<Longrightarrow> wim_inv ms r e s \<Longrightarrow> wim_inv ms r e t"
proof (induction rule: wstep.induct)
  case (deliver s m ms' r' e' u)
  then show ?case by (auto simp: wim_inv_def silent_or_nil_def intro: pre_snoc)
next
  case (drop s m ms' r' e' u)
  then show ?case by (auto simp: wim_inv_def silent_or_nil_def intro: pre_snoc)
next
  case (applied s m ms' r' e')
  then show ?case by (auto simp: wim_inv_def silent_or_nil_def intro: pre_snoc)
next
  case (applied_drop s m ms' r' e')
  then show ?case by (auto simp: wim_inv_def silent_or_nil_def intro: pre_snoc)
qed (auto simp: wim_inv_def silent_or_nil_def split: if_splits)

lemma wim_reach_inv: "wim_reach ms r e s \<Longrightarrow> wim_inv ms r e s"
  by (induction rule: rtranclp_induct) (auto intro: wim_inv_init wim_inv_step)

text \<open>
  C21: the handler returns without an error only if the library announced that the image was
  applied, or its result code is zero, or a failing result came with no \<open>errno\<close>, which is
  reported as success; and it returns an error only if the result code is not zero, with that
  error, and never after the announcement.
\<close>

theorem wim_report_sound:
  assumes "wim_reach ms r e s" and "rx s = Returned x"
  shows "(x = None \<longrightarrow> sevens ms \<noteq> 0 \<or> r = 0 \<or> e = None) \<and> (x \<noteq> None \<longrightarrow> r \<noteq> 0 \<and> x = e \<and> sevens ms = 0)"
  using wim_reach_inv [OF assms(1)] assms(2)
  by (auto simp: wim_inv_def silent_or_nil_def split: worker.splits if_splits)

definition wmsg :: "int \<Rightarrow> wim_msg" where
  "wmsg k = \<lparr>wm_type = k, wm_completed = 1, wm_total = 2\<rparr>"

theorem wim_report_sound_witness:
  "\<exists>s. wim_reach [wmsg 7] 5 (Some ''e'') s \<and> rx s = Returned None \<and> sevens [wmsg 7] \<noteq> 0"
proof -
  have "wstep (wim_init [wmsg 7] 5 (Some ''e'')) ((wim_init [wmsg 7] 5 (Some ''e''))\<lparr>wk := SendingNil [] 5 (Some ''e'')\<rparr>)"
    by (rule wstep.applied_drop [where m = "wmsg 7"]) (simp_all add: wim_init_def, simp add: wmsg_def)
  moreover have "wstep \<dots> ((wim_init [wmsg 7] 5 (Some ''e''))\<lparr>wk := Extracting [] 5 (Some ''e''), rx := Returned None\<rparr>)"
    using wstep.recv_nil [of "(wim_init [wmsg 7] 5 (Some ''e''))\<lparr>wk := SendingNil [] 5 (Some ''e'')\<rparr>" "[]" 5 "Some ''e''"]
    by (simp add: wim_init_def)
  ultimately have reach: "wim_reach [wmsg 7] 5 (Some ''e'')
      ((wim_init [wmsg 7] 5 (Some ''e''))\<lparr>wk := Extracting [] 5 (Some ''e''), rx := Returned None\<rparr>)"
    by (meson rtranclp.rtrancl_into_rtrancl rtranclp.rtrancl_refl)
  from wim_report_sound [OF reach, of None] have "sevens [wmsg 7] \<noteq> 0" by simp
  with reach show ?thesis
    by (intro exI [of _ "(wim_init [wmsg 7] 5 (Some ''e''))\<lparr>wk := Extracting [] 5 (Some ''e''), rx := Returned None\<rparr>"] conjI) simp_all
qed

text \<open>A library call that fails without setting \<open>errno\<close> is reported as a success.\<close>

lemma wim_failure_reported_as_success:
  assumes "r \<noteq> 0"
  shows "\<exists>s. wim_reach [] r None s \<and> rx s = Returned None"
proof -
  let ?a = "wim_init [] r None" and ?b = "(wim_init [] r None)\<lparr>wk := SendingErr None\<rparr>"
  have "wstep ?a ?b" using wstep.failed [of ?a r None] assms by (simp add: wim_init_def)
  moreover have "wstep ?b (?b\<lparr>wk := Deferred, rx := Returned None\<rparr>)"
    by (rule wstep.recv_err) (simp_all add: wim_init_def)
  ultimately have "wim_reach [] r None (?b\<lparr>wk := Deferred, rx := Returned None\<rparr>)"
    by (meson rtranclp.rtrancl_into_rtrancl rtranclp.rtrancl_refl)
  then show ?thesis by (intro exI conjI) (assumption, simp)
qed

text \<open>
  When the library announces the image as applied and then its result is not zero, or
  when it announces it twice, the target is never unmounted: the goroutine stays blocked
  sending to a handler that has returned.  In every run the unmounting follows the report
  of an announced image.
\<close>

lemma wim_never_released:
  assumes "wim_reach ms r e s"
  shows "(sevens ms \<noteq> 0 \<and> r \<noteq> 0 \<or> 1 < sevens ms \<longrightarrow> unmounted s = None)
    \<and> (unmounted s \<noteq> None \<and> sevens ms \<noteq> 0 \<longrightarrow> rx s = Returned None)"
  using wim_reach_inv [OF assms]
  by (auto simp: wim_inv_def silent_or_nil_def split: worker.splits if_splits)

section \<open>Liveness\<close>

text \<open>How far a run is from its end.\<close>

definition wim_left :: "wim_state \<Rightarrow> nat" where
  "wim_left s =
     (case wk s of
        Extracting ms r e \<Rightarrow> 2 * length ms + 7
      | SendingNil ms r e \<Rightarrow> 2 * length ms + 8
      | SendingErr e \<Rightarrow> 6
      | Deferred \<Rightarrow> 5
      | Released \<Rightarrow> 4
      | Closing \<Rightarrow> 2 + (if rx s = Selecting then 1 else 0)
      | Ended \<Rightarrow> (if rx s = Selecting then 1 else 0)
      | Crashed p \<Rightarrow> 0)"

definition no_panic :: "wim_msg list \<Rightarrow> bool" where
  "no_panic ms \<longleftrightarrow> (\<forall>m \<in> set ms. wm_type m = 4 \<longrightarrow> wm_total m \<noteq> 0)"

lemma status_Ok: "wm_type m = 4 \<longrightarrow> wm_total m \<noteq> 0 \<Longrightarrow> \<exists>t. status_of m = Ok t"
  by (auto simp: status_of_def)

lemma wim_next:
  assumes inv: "wim_inv ms r e s" and ok: "no_panic ms" and one: "sevens ms \<le> 1" and safe: "sevens ms = 0 \<or> r = 0"
    and live: "\<not> (wk s = Ended \<and> rx s \<noteq> Selecting)" and nc: "\<And>p. wk s \<noteq> Crashed p"
  shows "\<exists>t. wstep s t \<and> wim_left t < wim_left s \<and> (\<forall>p. wk t \<noteq> Crashed p)"
proof (cases "wk s")
  case (Extracting ms' r' e')
  show ?thesis
  proof (cases ms')
    case Nil
    then show ?thesis
      using Extracting wstep.failed [of s r' e'] wstep.finished [of s r' e']
      by (cases "r' = 0") (force simp: wim_left_def)+
  next
    case (Cons m ms'')
    show ?thesis
    proof (cases "wm_type m = 7")
      case True
      then show ?thesis
        using Extracting Cons wstep.applied_drop [of s m ms'' r' e'] by (force simp: wim_left_def)
    next
      case False
      have "m \<in> set ms" using inv Extracting Cons by (auto simp: wim_inv_def)
      then obtain t where "status_of m = Ok t" using ok status_Ok [of m] by (auto simp: no_panic_def)
      then show ?thesis
        using Extracting Cons False wstep.drop [of s m ms'' r' e' t] by (force simp: wim_left_def)
    qed
  qed
next
  case (SendingNil ms' r' e')
  then have "rx s = Selecting"
    using inv one by (auto simp: wim_inv_def silent_or_nil_def split: if_splits)
  then show ?thesis
    using SendingNil wstep.recv_nil [of s ms' r' e'] by (force simp: wim_left_def)
next
  case (SendingErr e')
  then have "rx s = Selecting"
    using inv safe by (auto simp: wim_inv_def split: if_splits)
  then show ?thesis
    using SendingErr wstep.recv_err [of s e'] by (force simp: wim_left_def)
next
  case Deferred
  then show ?thesis using wstep.release [of s] by (force simp: wim_left_def)
next
  case Released
  then show ?thesis using wstep.close_finish [of s] by (force simp: wim_left_def)
next
  case Closing
  then show ?thesis using wstep.close_progress [of s] by (force simp: wim_left_def)
next
  case Ended
  then show ?thesis using live wstep.recv_closed [of s] by (force simp: wim_left_def)
qed (use nc in auto)

text \<open>
  C22: when no progress message has a zero total, the image is announced at most once, and an
  announcement is followed by a zero result, then from every state that is reached without
  a crash the run can be completed: the handler returns the library's verdict (a failure
  without \<open>errno\<close> counts as none), both channels are closed, the goroutine has ended and has
  called \<open>Unmount\<close> on the target, which is released exactly if that call succeeds: its
  error is dropped, and the verdict is the same either way.
\<close>

theorem wim_completes:
  assumes "wim_reach ms r e s" and "no_panic ms" and "sevens ms \<le> 1" and "sevens ms = 0 \<or> r = 0"
    and "\<And>p. wk s \<noteq> Crashed p"
  shows "\<exists>t. wstep\<^sup>*\<^sup>* s t \<and> wk t = Ended \<and> unmounted t \<noteq> None
    \<and> rx t = Returned (if r = 0 then None else e)"
  using assms
proof (induction "wim_left s" arbitrary: s rule: less_induct)
  case less
  note inv = wim_reach_inv [OF less.prems(1)]
  show ?case
  proof (cases "wk s = Ended \<and> rx s \<noteq> Selecting")
    case True
    then show ?thesis using inv
      by (intro exI [of _ s]) (auto simp: wim_inv_def silent_or_nil_def split: if_splits)
  next
    case False
    from wim_next [OF inv less.prems(2-4) False less.prems(5)]
    obtain t where t: "wstep s t" "wim_left t < wim_left s" "\<And>p. wk t \<noteq> Crashed p" by blast
    moreover have "wim_reach ms r e t" using less.prems(1) t(1) by (rule rtranclp.rtrancl_into_rtrancl)
    ultimately obtain u where "wstep\<^sup>*\<^sup>* t u" "wk u = Ended" "unmounted u \<noteq> None"
        "rx u = Returned (if r = 0 then None else e)"
      using less.hyps [of t] less.prems(2-4) by blast
    with t(1) show ?thesis by (meson converse_rtranclp_into_rtranclp)
  qed
qed

theorem wim_completes_witness:
  "\<exists>t. wstep\<^sup>*\<^sup>* (wim_init [wmsg 4, wmsg 7] 0 None) t \<and> unmounted t \<noteq> None \<and> rx t = Returned None"
  using wim_completes [of "[wmsg 4, wmsg 7]" 0 None "wim_init [wmsg 4, wmsg 7] 0 None"]
  by (auto simp: wmsg_def no_panic_def wim_init_def)

section \<open>Before the extraction\<close>

text \<open>
  Preparing the target of an image never returns an error: on a failure of the file-system
  maker (or of the unmounting or the mounting) the call blocks forever; when the maker
  succeeds the outcome is that of the mount that follows it.
\<close>

lemma Apply_setup_blocks:
  assumes "CheckMount (mtab h) target = []" and "mkfs_cmd fsType target = Some c"
  shows "(runs M h c \<noteq> None \<longrightarrow> Apply_setup M mtab target fsType h = (Blocked, h\<lparr>ran := ran h @ [c]\<rparr>))
    \<and> (runs M h c = None \<longrightarrow> Apply_setup M mtab target fsType h
          = send_unreceived (Mount M target fsType (h\<lparr>ran := ran h @ [c]\<rparr>)))
    \<and> fst (Apply_setup M mtab target fsType h) \<noteq> Err e"
proof -
  have noerr: "fst (send_unreceived x) \<noteq> Err e" for x :: "string res \<times> host"
    by (cases x rule: send_unreceived.cases) auto
  show ?thesis
    using assms noerr
    by (auto simp: Apply_setup_def bind_io_def run_mkfs_def)
qed

lemma Apply_setup_blocks_witness:
  "Apply_setup (sample_env\<lparr>runs := \<lambda>h c. Some ''exit status 1''\<rparr>) (\<lambda>h. []) ''/dev/sda2'' ''ntfs'' sample_host
   = (Blocked, sample_host\<lparr>ran := [[''mkntfs'', ''-Q'', ''/dev/sda2'']]\<rparr>)"
  using Apply_setup_blocks [of "\<lambda>h. []" sample_host "''/dev/sda2''" "''ntfs''" "Mkntfs_cmd ''/dev/sda2'' []"
      "sample_env\<lparr>runs := \<lambda>h c. Some ''exit status 1''\<rparr>"]
  by (simp add: mkfs_cmd_def Mkntfs_cmd_def sample_env_def sample_host_def)

text \<open>
  Once the partition of an \<open>ApplyImage\<close> request is found, NTFS goes to the external program
  with the partition's device, any other recognised file system to the library, and an
  unrecognised one (a null type pointer) makes the handler panic.
\<close>

lemma ApplyImage_routes:
  assumes "GetDiskDevByLocation (s_block S w) (ai_targetDisk req) = disk" and "disk \<noteq> []"
    and "GetDevByPartNum (s_table S w) disk (uint (ai_targetPartition req)) = part" and "part \<noteq> []"
    and "s_device S w disk" and "s_disk S w disk = Some d"
    and "GetPartition P d (uint (ai_targetPartition req)) = Some p"
  shows "ApplyImage_plan P S wim_open w req =
    (case pp_fs p of
       None \<Rightarrow> Panic NilDeref
     | Some fs \<Rightarrow>
         if fs = ''ntfs''
         then Ok (RunWimapply [''wimapply'', ''/nfs/'' @ ai_imagePath req,
                                num_str 10 (unat (ai_imageIndex req)), part])
         else bind_res (WIMOpen wim_open (''/nfs/'' @ ai_imagePath req))
                (\<lambda>_. Ok (UseLibrary (''/nfs/'' @ ai_imagePath req) (ai_imageIndex req) part fs)))"
  using assms
  by (auto simp: ApplyImage_plan_def ApplyImage2_plan_def Let_def GetFSType_def split: option.splits)

definition apply_system :: "((int \<times> ped_part) list, nat) system" where
  "apply_system = sample_system\<lparr>s_table :=
     \<lambda>w. Some (''major'' @ [CHR 0x0A] @ ''8 0 9 sda'' @ [CHR 0x0A] @ ''8 2 9 sda2'')\<rparr>"

lemma apply_device:
  "GetDevByPartNum (Some (''major'' @ [CHR 0x0A] @ ''8 0 9 sda'' @ [CHR 0x0A] @ ''8 2 9 sda2'')) ''/dev/sda'' 2
   = ''/dev/sda2''"
  by code_simp

lemma ApplyImage_routes_witness:
  "ApplyImage_plan sample_ped apply_system (\<lambda>i. (0, None)) 0
     \<lparr>ai_imagePath = ''w.wim'', ai_imageIndex = 1, ai_targetDisk = ''pci0'', ai_targetPartition = 2\<rparr>
   = Ok (RunWimapply [''wimapply'', ''/nfs/w.wim'', num_str 10 1, ''/dev/sda2''])"
proof -
  let ?req = "\<lparr>ai_imagePath = ''w.wim'', ai_imageIndex = 1, ai_targetDisk = ''pci0'', ai_targetPartition = 2\<rparr>"
  have 1: "GetDiskDevByLocation (s_block apply_system 0) (ai_targetDisk ?req) = ''/dev/sda''"
    by (simp add: apply_system_def sample_system_def sample_device)
  have 2: "GetDevByPartNum (s_table apply_system 0) ''/dev/sda'' (uint (ai_targetPartition ?req)) = ''/dev/sda2''"
    using apply_device by (simp add: apply_system_def)
  show ?thesis
    using ApplyImage_routes [OF 1 _ 2, of sample_table sample_ped "snd (sample_part 2 243712 195312 (Some ''ntfs''))"]
    by (simp add: apply_system_def sample_defs GetPartition_def)
qed

section \<open>The handler\<close>

lemma ApplyImage_by_library:
  assumes "GetDiskDevByLocation (s_block S w) (ai_targetDisk req) = disk" and "disk \<noteq> []"
    and "GetDevByPartNum (s_table S w) disk (uint (ai_targetPartition req)) = part" and "part \<noteq> []"
    and "s_device S w disk" and "s_disk S w disk = Some d"
    and "GetPartition P d (uint (ai_targetPartition req)) = Some p" and "pp_fs p = Some fs" and "fs \<noteq> ''ntfs''"
    and "WIMOpen wim_open (''/nfs/'' @ ai_imagePath req) = Ok ()"
  shows "ApplyImage P S wim_open w M mtab W extract req
    = bind_io (run_library M mtab (extract (''/nfs/'' @ ai_imagePath req) (ai_imageIndex req)) part fs)
        (\<lambda>(dir, s). ret (Extraction dir s))"
  using ApplyImage_routes [OF assms(1-7), of wim_open] assms(8-10) by (auto simp: ApplyImage_def)

lemma Apply_setup_Ok:
  assumes "CheckMount (mtab h) part = []" and "Apply_setup M mtab part fs h = (Ok dir, h')"
  shows "\<not> dir_exists h dir
    \<and> (case mkfs_cmd fs part of
         Some c \<Rightarrow> mounted h' = (dir, part) # mounted h \<and> c \<in> set (ran h')
       | None \<Rightarrow> fs = ''winregfs'' \<or> mounted h' = mounted h \<and> ran h' = ran h)"
proof -
  let ?h = "case mkfs_cmd fs part of None \<Rightarrow> h | Some c \<Rightarrow> h\<lparr>ran := ran h @ [c]\<rparr>"
  have m: "Mount M part fs ?h = (Ok dir, h')"
  proof -
    have "send_unreceived x = (Ok y, s) \<Longrightarrow> x = (Ok y, s)" for x :: "string res \<times> host" and y s
      by (cases x rule: send_unreceived.cases) auto
    then show ?thesis using assms
      by (auto simp: Apply_setup_def bind_io_def run_mkfs_def split: option.splits res.splits prod.splits)
  qed
  have "dir_exists ?h dir = dir_exists h dir" "mounted ?h = mounted h"
    by (auto simp: dir_exists_def split: option.split)
  with Mount_outcome [OF m] show ?thesis
    by (auto simp: mkfs_cmd_def split: if_splits)
qed

text \<open>
  C28: for a partition that is not NTFS the handler never returns an error once the image is
  open: when the FAT maker fails it hangs.  When it goes on to extract, a FAT partition has
  been formatted and mounted at the fresh directory the image is extracted to; but for any
  other file system nothing was formatted or mounted, and the image is extracted into an
  empty directory of the running system instead of the partition.
\<close>

theorem ApplyImage_target:
  assumes "GetDiskDevByLocation (s_block S w) (ai_targetDisk req) = disk" and "disk \<noteq> []"
    and "GetDevByPartNum (s_table S w) disk (uint (ai_targetPartition req)) = part" and "part \<noteq> []"
    and "s_device S w disk" and "s_disk S w disk = Some d"
    and "GetPartition P d (uint (ai_targetPartition req)) = Some p" and "pp_fs p = Some fs" and "fs \<noteq> ''ntfs''"
    and "WIMOpen wim_open (''/nfs/'' @ ai_imagePath req) = Ok ()" and "CheckMount (mtab h) part = []"
  shows "(fs = ''fat32'' \<and> runs M h (Mkvfat_cmd part []) \<noteq> None \<longrightarrow>
        fst (ApplyImage P S wim_open w M mtab W extract req h) = Blocked)
    \<and> (\<forall>e. fst (ApplyImage P S wim_open w M mtab W extract req h) \<noteq> Err e)
    \<and> (\<forall>r h'. ApplyImage P S wim_open w M mtab W extract req h = (Ok r, h') \<longrightarrow>
        (\<exists>dir s. r = Extraction dir s \<and> \<not> dir_exists h dir
          \<and> (fs = ''fat32'' \<longrightarrow> mounted h' = (dir, part) # mounted h \<and> Mkvfat_cmd part [] \<in> set (ran h'))
          \<and> (fs \<notin> {''fat32'', ''winregfs''} \<longrightarrow> mounted h' = mounted h \<and> ran h' = ran h)))"
proof -
  note eq = ApplyImage_by_library [OF assms(1-10)]
  have noerr: "fst (Apply_setup M mtab part fs h) \<noteq> Err e" for e
  proof -
    have "fst (send_unreceived x) \<noteq> Err e" for x :: "string res \<times> host"
      by (cases x rule: send_unreceived.cases) auto
    then show ?thesis by (simp add: Apply_setup_def)
  qed
  obtain r1 h1 where s: "Apply_setup M mtab part fs h = (r1, h1)" by (cases "Apply_setup M mtab part fs h")
  have run: "ApplyImage P S wim_open w M mtab W extract req h =
     (case r1 of
        Ok dir \<Rightarrow> (case extract (''/nfs/'' @ ai_imagePath req) (ai_imageIndex req) dir of
                     (ms, r, e) \<Rightarrow> (Ok (Extraction dir (wim_init ms r e)), h1))
      | Err e \<Rightarrow> (Err e, h1) | Panic p \<Rightarrow> (Panic p, h1) | Blocked \<Rightarrow> (Blocked, h1))"
    by (simp add: eq run_library_def bind_io_def s split: res.split prod.split)
  have blocked: "fs = ''fat32'' \<and> runs M h (Mkvfat_cmd part []) \<noteq> None \<Longrightarrow> r1 = Blocked"
    using Apply_setup_blocks [of mtab h part fs "Mkvfat_cmd part []" M, OF assms(11)] s
    by (simp add: mkfs_cmd_def)
  show ?thesis
    using noerr s blocked Apply_setup_Ok [of mtab h part M fs, OF assms(11)] assms(9)
    by (auto simp: run mkfs_cmd_def split: res.splits prod.splits)
qed

definition ext4_table :: "(int \<times> ped_part) list" where
  "ext4_table = [sample_part 2 243712 195312 (Some ''ext4'')]"

text \<open>An image for an ext4 partition is extracted next to it.\<close>

definition ext4_request :: ApplyImageRequest where
  "ext4_request = \<lparr>ai_imagePath = ''w.wim'', ai_imageIndex = 1, ai_targetDisk = ''pci0'', ai_targetPartition = 2\<rparr>"

definition no_program :: "string list \<Rightarrow> wimapply_env" where
  "no_program c = \<lparr>wa_pipe = None, wa_start = Some ''not found'', wa_reads = [], wa_wait = None\<rparr>"

theorem ApplyImage_target_witness:
  "\<exists>dir s h'. ApplyImage sample_ped (apply_system\<lparr>s_disk := \<lambda>w d. Some ext4_table\<rparr>) (\<lambda>i. (0, None)) 0 sample_env
       (\<lambda>h. []) no_program (\<lambda>i x d. ([wmsg 7], 0, None)) ext4_request sample_host
     = (Ok (Extraction dir s), h') \<and> mounted h' = [] \<and> ran h' = []"
proof -
  let ?S = "apply_system\<lparr>s_disk := \<lambda>w d. Some ext4_table\<rparr>"
  let ?run = "ApplyImage sample_ped ?S (\<lambda>i. (0, None)) 0 sample_env (\<lambda>h. []) no_program
    (\<lambda>i x d. ([wmsg 7], 0, None)) ext4_request sample_host"
  have 1: "GetDiskDevByLocation (s_block ?S 0) (ai_targetDisk ext4_request) = ''/dev/sda''"
    by (simp add: apply_system_def sample_system_def sample_device ext4_request_def)
  have 2: "GetDevByPartNum (s_table ?S 0) ''/dev/sda'' (uint (ai_targetPartition ext4_request)) = ''/dev/sda2''"
    using apply_device by (simp add: apply_system_def ext4_request_def)
  have 3: "s_device ?S 0 ''/dev/sda''" "s_disk ?S 0 ''/dev/sda'' = Some ext4_table"
    by (simp_all add: apply_system_def sample_system_def)
  have 4: "GetPartition sample_ped ext4_table (uint (ai_targetPartition ext4_request)) = Some (snd (hd ext4_table))"
    by (simp add: ext4_request_def ext4_table_def sample_defs GetPartition_def)
  have 5: "pp_fs (snd (hd ext4_table)) = Some ''ext4''" by (simp add: ext4_table_def sample_part_def)
  have 6: "WIMOpen (\<lambda>i. (0, None)) (''/nfs/'' @ ai_imagePath ext4_request) = Ok ()" by (simp add: WIMOpen_def)
  have mnt: "Apply_setup sample_env (\<lambda>h. []) ''/dev/sda2'' ''ext4'' sample_host
      = (Ok ''/tmp/wim2'', sample_host\<lparr>temps := [''/tmp/wim2'', ''/tmp/wim1'']\<rparr>)"
    by (simp add: Apply_setup_def run_mkfs_def mkfs_cmd_def Mount_def MkdirTemp_def dir_exists_def bind_io_def
        sample_env_def sample_host_def)
  have "?run = (Ok (Extraction ''/tmp/wim2'' (wim_init [wmsg 7] 0 None)),
      sample_host\<lparr>temps := [''/tmp/wim2'', ''/tmp/wim1'']\<rparr>)"
    by (subst ApplyImage_by_library [OF 1 _ 2 _ 3 4 5 _ 6]) (simp_all add: run_library_def bind_io_def mnt)
  then obtain r h' where run: "?run = (Ok r, h')" by blast
  with ApplyImage_target [OF 1 _ 2 _ 3 4 5 _ 6, of "\<lambda>h. []" sample_host sample_env no_program
      "\<lambda>i x d. ([wmsg 7], 0, None)"]
  show ?thesis by (auto simp: sample_host_def)
qed

end
