(* ===== verification/File_Transfer.thy ===== *)
theory File_Transfer
  imports Go_Bytes Api
begin

text \<open>
  What the two file transfers of the agent, \<open>Upload\<close> of \<open>service/deployment.go\<close> and
  \<open>UpdateLoader\<close> of \<open>service/maintenance.go\<close>, have in common: the write of a chunk at the
  file offset, the progress text, the verification against the announced size and the
  SHA-1 sum (a parameter, \<open>H\<close>), and the interface of a receiver of chunks.
\<close>

text \<open>A write at an offset; the offset of a file written only here is at most its length.\<close>

definition pwrite :: "'a list \<Rightarrow> nat \<Rightarrow> 'a list \<Rightarrow> 'a list" where
  "pwrite content off data = take off content @ data @ drop (off + length data) content"

lemma pwrite_end [simp]: "pwrite content (length content) data = content @ data"
  by (simp add: pwrite_def)

lemma length_pwrite:
  "off \<le> length content \<Longrightarrow> length (pwrite content off data) = max (length content) (off + length data)"
  by (simp add: pwrite_def)

lemma take_pwrite:
  "off \<le> length content \<Longrightarrow>
   take (off + length data) (pwrite content off data) = take off content @ data"
  by (simp add: pwrite_def)

text \<open>
  \<open>strconv.FormatInt(int64(int(received)*100/int(total)), 10) + "%"\<close>: both counters are
  below \<open>2^32\<close>, so the product does not overflow; a zero total panics.
\<close>

definition progress_text :: "u32 \<Rightarrow> u32 \<Rightarrow> string res" where
  "progress_text received tot =
     (if tot = 0 then Panic DivideByZero
      else Ok (str_itoa (uint received * 100 div uint tot) @ ''%''))"

text \<open>The checks after the file was read back from its start.\<close>

definition verify_file :: "(u8 list \<Rightarrow> u8 list) \<Rightarrow> u8 list \<Rightarrow> u32 \<Rightarrow> string \<Rightarrow> goerr option" where
  "verify_file H content tot want =
     (if int (length content) \<noteq> uint tot then Some ''hashing error''
      else if hex_str (H content) \<noteq> want then Some ''hash error''
      else None)"

lemma verify_file_None:
  "verify_file H content tot want = None \<longleftrightarrow>
   int (length content) = uint tot \<and> hex_str (H content) = want"
  by (simp add: verify_file_def)

text \<open>
  A receiver of chunks: while it is ready, storing a chunk appends it to the content and
  adds its length to the 32-bit counter.
\<close>

locale chunk_sink =
  fixes put :: "u8 list \<Rightarrow> 's \<Rightarrow> 's"
    and content :: "'s \<Rightarrow> u8 list"
    and count :: "'s \<Rightarrow> u32"
    and ready :: "'s \<Rightarrow> bool"
  assumes put_ready: "ready s \<Longrightarrow> ready (put d s)"
    and put_content: "ready s \<Longrightarrow> content (put d s) = content s @ d"
    and put_count: "ready s \<Longrightarrow> count (put d s) = count s + word_of_nat (length d)"
begin

lemma puts_ready: "ready s \<Longrightarrow> ready (fold put ds s)"
  by (induction ds arbitrary: s) (auto intro: put_ready)

lemma puts_content: "ready s \<Longrightarrow> content (fold put ds s) = content s @ concat ds"
  by (induction ds arbitrary: s) (auto simp: put_ready put_content)

lemma puts_count: "ready s \<Longrightarrow> count (fold put ds s) = count s + word_of_nat (length (concat ds))"
  by (induction ds arbitrary: s) (auto simp: put_ready put_count)

end

end
