(* ===== verification/Deployment.thy ===== *)
theory Deployment
  imports File_Transfer
begin

text \<open>
  \<open>service/deployment.go\<close>.  \<open>Info\<close> and \<open>Exec\<close> are functions of what the system answers.
  \<open>Upload\<close> is a handler and the progress goroutines it starts; they share the counters, a
  mutex and the unbuffered channel \<open>stop\<close>, and run interleaved: one step of the relation is
  one step of one of them.
\<close>

section \<open>Info and Exec\<close>

definition Info :: "string option \<Rightarrow> InfoResponse" where
  "Info hostname =
     (case hostname of
        None \<Rightarrow> \<lparr>in_NodeId = 5, in_Hostname = ''os.Hostname()''\<rparr>
      | Some name \<Rightarrow> \<lparr>in_NodeId = 5, in_Hostname = name\<rparr>)"

definition Exec :: "(string list \<Rightarrow> goerr + string) \<Rightarrow> ExecRequest \<Rightarrow> ExecResponse" where
  "Exec run_program req =
     (case run_program (ex_Proc req # ex_Args req) of
        Inl errStr \<Rightarrow> \<lparr>er_Status = -1, er_ExitCode = 0, er_Out = None, er_Err = Some errStr\<rparr>
      | Inr outStr \<Rightarrow> \<lparr>er_Status = 0, er_ExitCode = 0, er_Out = Some outStr, er_Err = None\<rparr>)"

section \<open>Upload: state\<close>

text \<open>The file system and the hash, as the handler uses them.\<close>

record upload_env =
  e_hash :: "u8 list \<Rightarrow> u8 list"
  e_missing :: "string \<Rightarrow> bool"
  e_mkdir :: "string \<Rightarrow> goerr option"
  e_open :: "string \<Rightarrow> goerr option"
  e_write :: "string \<Rightarrow> nat \<Rightarrow> u8 list \<Rightarrow> (nat \<times> goerr) option"
  e_read :: "string \<Rightarrow> goerr option"

text \<open>
  The handler receives, is blocked sending on \<open>stop\<close>, is about to unlock the mutex after the
  value was taken, is blocked locking the mutex for a hash request, hashes with the mutex
  locked, or has returned.  Of the progress goroutines it started, \<open>up_reporters\<close> are in their
  loop and \<open>up_leaving\<close> took a value from \<open>stop\<close> and have their last report to send.  A crash is
  a panic of any of the goroutines.
\<close>

datatype phase =
    Receiving
  | StopSend
  | Unlocking
  | LockWait string
  | Hashing string
  | Answered "goerr option"

record upload =
  up_file :: "(string \<times> nat) option"
  up_total :: u32
  up_received :: u32
  up_locked :: bool
  up_store :: "string \<rightharpoonup> u8 list"
  up_dirs :: "string list"
  up_sent :: "string list"
  up_phase :: phase
  up_reporters :: nat
  up_leaving :: nat
  up_inbox :: "(goerr + UploadRequest) list"
  up_crash :: "panic option"

definition upload_start :: "(string \<rightharpoonup> u8 list) \<Rightarrow> (goerr + UploadRequest) list \<Rightarrow> upload" where
  "upload_start store inbox =
     \<lparr>up_file = None, up_total = 0, up_received = 0, up_locked = False, up_store = store,
      up_dirs = [], up_sent = [], up_phase = Receiving, up_reporters = 0, up_leaving = 0, up_inbox = inbox,
      up_crash = None\<rparr>"

definition answer :: "goerr option \<Rightarrow> upload \<Rightarrow> upload" where
  "answer r s = s\<lparr>up_phase := Answered r\<rparr>"

definition mu_Unlock :: "upload \<Rightarrow> upload" where
  "mu_Unlock s =
     (if up_locked s then s\<lparr>up_locked := False\<rparr>
      else s\<lparr>up_crash := Some (Explicit ''sync: unlock of unlocked mutex'')\<rparr>)"

section \<open>Upload: the handler\<close>

definition upload_dir :: "string \<Rightarrow> string" where
  "upload_dir destination = path_join [''c:/application'', destination]"

definition upload_path :: "string \<Rightarrow> string \<Rightarrow> string" where
  "upload_path destination fname = path_join [upload_dir destination, fname]"

text \<open>Making the directory and opening the file, without truncating it.\<close>

definition open_target :: "upload_env \<Rightarrow> string \<Rightarrow> string \<Rightarrow> upload \<Rightarrow> upload res" where
  "open_target E destination fname s =
     (let dstPath = upload_dir destination;
          p = upload_path destination fname in
      bind_res
        (if e_missing E dstPath
         then (case e_mkdir E dstPath of Some err \<Rightarrow> Err err | None \<Rightarrow> Ok (s\<lparr>up_dirs := dstPath # up_dirs s\<rparr>))
         else Ok s)
        (\<lambda>s. case e_open E p of
               Some err \<Rightarrow> Err err
             | None \<Rightarrow>
                 Ok (s\<lparr>up_store := (up_store s)(p \<mapsto> (case up_store s p of None \<Rightarrow> [] | Some c \<Rightarrow> c)),
                      up_file := Some (p, 0)\<rparr>)))"

definition upload_info :: "upload_env \<Rightarrow> MetaData \<Rightarrow> upload \<Rightarrow> upload" where
  "upload_info E m s =
     (let tot = MetaData_GetSize (Some m);
          fname = MetaData_GetName (Some m);
          destination = MetaData_GetDestination (Some m);
          s1 = s\<lparr>up_total := tot\<rparr> in
      case open_target E destination fname s1 of
        Ok s2 \<Rightarrow>
          if up_locked s2 then answer (Some ''mutex lock error'') s2
          else if tot = 0 then answer None s2
          else s2\<lparr>up_locked := True, up_reporters := up_reporters s2 + 1\<rparr>
      | Err e \<Rightarrow> answer (Some e) s1
      | Panic p \<Rightarrow> s1\<lparr>up_crash := Some p\<rparr>
      | Blocked \<Rightarrow> s1)"

text \<open>A chunk; without a file the write fails, with \<open>os.ErrInvalid\<close>.\<close>

definition store_chunk :: "u8 list \<Rightarrow> upload \<Rightarrow> upload" where
  "store_chunk data s =
     (case up_file s of
        None \<Rightarrow> s
      | Some (p, off) \<Rightarrow>
          s\<lparr>up_store := (up_store s)(p \<mapsto> pwrite (the (up_store s p)) off data),
            up_file := Some (p, off + length data),
            up_received := up_received s + word_of_nat (length data)\<rparr>)"

definition upload_chunk :: "upload_env \<Rightarrow> ChunkData \<Rightarrow> upload \<Rightarrow> upload" where
  "upload_chunk E c s =
     (case up_file s of
        None \<Rightarrow> answer (Some ''invalid argument'') s
      | Some (p, off) \<Rightarrow>
          (case e_write E p off (ck_data c) of
             Some (n, e) \<Rightarrow>
               answer (Some e)
                 (s\<lparr>up_store := (up_store s)(p \<mapsto> pwrite (the (up_store s p)) off (take n (ck_data c)))\<rparr>)
           | None \<Rightarrow>
               (let s' = store_chunk (ck_data c) s in
                if up_received s' = up_total s' then s'\<lparr>up_phase := StopSend\<rparr> else s')))"

text \<open>A hash request, once the mutex is locked; \<open>hashed\<close> below adds the deferred unlocking.\<close>

definition upload_hash :: "upload_env \<Rightarrow> string \<Rightarrow> upload \<Rightarrow> upload" where
  "upload_hash E want s =
     (case up_file s of
        None \<Rightarrow> answer (Some ''seek error:invalid argument'') s
      | Some (p, off) \<Rightarrow>
          (case e_read E p of
             Some e \<Rightarrow> answer (Some (''copy error:'' @ e)) s
           | None \<Rightarrow> answer (verify_file (e_hash E) (the (up_store s p)) (up_total s) want) s))"

definition upload_request :: "upload_env \<Rightarrow> UploadRequest \<Rightarrow> upload \<Rightarrow> upload" where
  "upload_request E r s =
     (case r of
        UploadInfo m \<Rightarrow> upload_info E m s
      | UploadChunk c \<Rightarrow> upload_chunk E c s
      | UploadHash want \<Rightarrow> s\<lparr>up_phase := LockWait want\<rparr>
      | UploadEmpty \<Rightarrow> s)"

section \<open>Upload: the interleaving\<close>

text \<open>
  The handler takes the next message; a progress goroutine sends a report, and keeps doing
  so after the handler has returned; one of them takes the value the handler sends on
  \<open>stop\<close>, and from then on the handler, which unlocks the mutex and goes on, and that goroutine,
  which sends a last report and ends, run independently of each other; a handler that waits for
  the mutex gets it when it is not locked, hashes, and unlocks it when it returns.
\<close>

inductive ustep :: "upload_env \<Rightarrow> upload \<Rightarrow> upload \<Rightarrow> bool" for E where
  recv: "up_crash s = None \<Longrightarrow> up_phase s = Receiving \<Longrightarrow> up_inbox s = Inr r # rest
    \<Longrightarrow> ustep E s (upload_request E r (s\<lparr>up_inbox := rest\<rparr>))"
| recv_err: "up_crash s = None \<Longrightarrow> up_phase s = Receiving \<Longrightarrow> up_inbox s = Inl e # rest
    \<Longrightarrow> ustep E s (answer (Some e) (s\<lparr>up_inbox := rest\<rparr>))"
| report: "up_crash s = None \<Longrightarrow> 0 < up_reporters s \<Longrightarrow> progress_text (up_received s) (up_total s) = Ok t
    \<Longrightarrow> ustep E s (s\<lparr>up_sent := up_sent s @ [t]\<rparr>)"
| report_crash: "up_crash s = None \<Longrightarrow> 0 < up_reporters s + up_leaving s
    \<Longrightarrow> progress_text (up_received s) (up_total s) = Panic p
    \<Longrightarrow> ustep E s (s\<lparr>up_crash := Some p\<rparr>)"
| stop: "up_crash s = None \<Longrightarrow> 0 < up_reporters s \<Longrightarrow> up_phase s = StopSend
    \<Longrightarrow> ustep E s (s\<lparr>up_phase := Unlocking, up_reporters := up_reporters s - 1, up_leaving := up_leaving s + 1\<rparr>)"
| leave: "up_crash s = None \<Longrightarrow> 0 < up_leaving s \<Longrightarrow> progress_text (up_received s) (up_total s) = Ok t
    \<Longrightarrow> ustep E s (s\<lparr>up_sent := up_sent s @ [t], up_leaving := up_leaving s - 1\<rparr>)"
| unlock: "up_crash s = None \<Longrightarrow> up_phase s = Unlocking
    \<Longrightarrow> ustep E s (mu_Unlock (s\<lparr>up_phase := Receiving\<rparr>))"
| locked: "up_crash s = None \<Longrightarrow> up_phase s = LockWait want \<Longrightarrow> \<not> up_locked s
    \<Longrightarrow> ustep E s (s\<lparr>up_phase := Hashing want, up_locked := True\<rparr>)"
| hashed: "up_crash s = None \<Longrightarrow> up_phase s = Hashing want
    \<Longrightarrow> ustep E s (mu_Unlock (upload_hash E want s))"

inductive_cases ustep_cases: "ustep E s t"

abbreviation ureach :: "upload_env \<Rightarrow> upload \<Rightarrow> upload \<Rightarrow> bool" where
  "ureach E \<equiv> (ustep E)\<^sup>*\<^sup>*"

section \<open>Chunks\<close>

definition up_content :: "upload \<Rightarrow> u8 list" where
  "up_content s = (case up_file s of None \<Rightarrow> [] | Some (p, off) \<Rightarrow> the (up_store s p))"

definition up_ready :: "upload \<Rightarrow> bool" where
  "up_ready s = (case up_file s of None \<Rightarrow> False
     | Some (p, off) \<Rightarrow> (case up_store s p of None \<Rightarrow> False | Some c \<Rightarrow> off = length c))"

interpretation upl: chunk_sink store_chunk up_content up_received up_ready
  by unfold_locales
    (auto simp: up_ready_def up_content_def store_chunk_def split: option.splits)

end
