(* ===== verification/Deployment_Correct.thy ===== *)
theory Deployment_Correct
  imports Deployment
begin

text \<open>
  What an upload guarantees: an answer without an error means that the bytes on disk have
  the announced length and sum; which message sequences are answered, with what, and which
  leave the handler blocked or bring the process down; and where the file goes.
\<close>

section \<open>Soundness\<close>

definition benign :: "upload_env \<Rightarrow> bool" where
  "benign E \<longleftrightarrow> e_mkdir E = (\<lambda>d. None) \<and> e_open E = (\<lambda>p. None)
     \<and> e_write E = (\<lambda>p n d. None) \<and> e_read E = (\<lambda>p. None)"

definition verified :: "upload_env \<Rightarrow> (goerr + UploadRequest) list \<Rightarrow> upload \<Rightarrow> bool" where
  "verified E inbox s \<longleftrightarrow> (\<exists>p off want. up_file s = Some (p, off)
     \<and> verify_file (e_hash E) (the (up_store s p)) (up_total s) want = None
     \<and> Inr (UploadHash want) \<in> set inbox)"

definition answer_inv :: "upload_env \<Rightarrow> (goerr + UploadRequest) list \<Rightarrow> upload \<Rightarrow> bool" where
  "answer_inv E inbox s \<longleftrightarrow> set (up_inbox s) \<subseteq> set inbox
     \<and> (\<forall>want. up_phase s = LockWait want \<or> up_phase s = Hashing want \<longrightarrow> Inr (UploadHash want) \<in> set inbox)
     \<and> (up_phase s = Answered None \<longrightarrow> up_total s = 0 \<or> verified E inbox s)"

lemmas upload_defs = upload_request_def upload_info_def upload_chunk_def upload_hash_def
  open_target_def store_chunk_def answer_def Let_def

lemma hash_answer_inv:
  assumes "set (up_inbox s) \<subseteq> set inbox" and "Inr (UploadHash want) \<in> set inbox"
  shows "answer_inv E inbox (upload_hash E want s)"
  using assms by (auto simp: answer_inv_def verified_def upload_hash_def answer_def split: option.splits)

lemma info_answer_inv:
  assumes "up_phase s = Receiving" and "set (up_inbox s) \<subseteq> set inbox"
  shows "answer_inv E inbox (upload_info E m s)"
  using assms by (auto simp: answer_inv_def upload_info_def open_target_def answer_def Let_def
      split: option.splits res.splits if_splits)

lemma chunk_answer_inv:
  assumes "up_phase s = Receiving" and "set (up_inbox s) \<subseteq> set inbox"
  shows "answer_inv E inbox (upload_chunk E c s)"
  using assms by (auto simp: answer_inv_def upload_chunk_def store_chunk_def answer_def Let_def
      split: option.splits if_splits)

lemma request_answer_inv:
  assumes "up_phase s = Receiving" and "up_inbox s = Inr r # rest" and "answer_inv E inbox s"
  shows "answer_inv E inbox (upload_request E r (s\<lparr>up_inbox := rest\<rparr>))"
proof -
  have sub: "set rest \<subseteq> set inbox" and "Inr r \<in> set inbox" using assms by (auto simp: answer_inv_def)
  then show ?thesis
  proof (cases r)
    case (UploadInfo m)
    show ?thesis using sub assms(1) unfolding upload_request_def UploadInfo UploadRequest.case
      by (intro info_answer_inv) simp_all
  next
    case (UploadChunk c)
    show ?thesis using sub assms(1) unfolding upload_request_def UploadChunk UploadRequest.case
      by (intro chunk_answer_inv) simp_all
  next
    case (UploadHash want)
    then show ?thesis using sub \<open>Inr r \<in> set inbox\<close> by (simp add: upload_request_def answer_inv_def)
  next
    case UploadEmpty
    show ?thesis using sub assms(1) by (simp add: upload_request_def UploadEmpty answer_inv_def)
  qed
qed

lemma answer_inv_Unlock: "answer_inv E inbox s \<Longrightarrow> answer_inv E inbox (mu_Unlock s)"
  by (simp add: answer_inv_def verified_def mu_Unlock_def)

lemma answer_inv_step: "ustep E s t \<Longrightarrow> answer_inv E inbox s \<Longrightarrow> answer_inv E inbox t"
proof (induction rule: ustep.induct)
  case (recv s r rest)
  then show ?case by (intro request_answer_inv)
next
  case (unlock s)
  then show ?case by (intro answer_inv_Unlock) (simp add: answer_inv_def)
next
  case (hashed s want)
  then show ?case by (intro answer_inv_Unlock hash_answer_inv) (auto simp: answer_inv_def)
qed (auto simp: answer_inv_def verified_def answer_def)

text \<open>
  C1: if the handler answers without an error, either the announced size is zero or the
  file it wrote has, at that moment and after it, exactly the announced number of bytes and
  the SHA-1 sum of a hash request of the stream; this holds in every interleaving with the
  progress goroutines and for every behaviour of the file system.
\<close>

theorem upload_sound:
  assumes "ureach E (upload_start store inbox) s" and "up_phase s = Answered None" and "up_total s \<noteq> 0"
  shows "\<exists>p off want. up_file s = Some (p, off)
    \<and> int (length (the (up_store s p))) = uint (up_total s)
    \<and> hex_str (e_hash E (the (up_store s p))) = want \<and> Inr (UploadHash want) \<in> set inbox"
proof -
  have "answer_inv E inbox s"
    using assms(1)
  proof (induction rule: rtranclp_induct)
    case base
    show ?case by (simp add: answer_inv_def upload_start_def)
  next
    case (step t u)
    from answer_inv_step [OF step.hyps(2) step.IH] show ?case .
  qed
  with assms(2,3) show ?thesis by (auto simp: answer_inv_def verified_def verify_file_None)
qed

section \<open>One file in order\<close>

text \<open>
  The message sequence of a client: the announcement, the chunks, the hash.  \<open>upto\<close> is what
  the first \<open>k\<close> chunks carry; \<open>hits\<close> says that the counter equals the announced size then.
\<close>

definition script :: "MetaData \<Rightarrow> ChunkData list \<Rightarrow> string \<Rightarrow> (goerr + UploadRequest) list" where
  "script m cs h = Inr (UploadInfo m) # map (\<lambda>c. Inr (UploadChunk c)) cs @ [Inr (UploadHash h)]"

definition upto_chunk :: "ChunkData list \<Rightarrow> nat \<Rightarrow> u8 list" where
  "upto_chunk cs k = concat (map ck_data (take k cs))"

definition hits :: "MetaData \<Rightarrow> ChunkData list \<Rightarrow> nat \<Rightarrow> bool" where
  "hits m cs k \<longleftrightarrow> 0 < k \<and> word_of_nat (length (upto_chunk cs k)) = md_size m"

definition meta_path :: "MetaData \<Rightarrow> string" where
  "meta_path m = upload_path (MetaData_GetDestination (Some m)) (MetaData_GetName (Some m))"

definition old_content :: "(string \<rightharpoonup> u8 list) \<Rightarrow> MetaData \<Rightarrow> u8 list" where
  "old_content store m = (case store (meta_path m) of None \<Rightarrow> [] | Some c \<Rightarrow> c)"

text \<open>The bytes received so far replace the front of what the file held before.\<close>

definition overlay :: "u8 list \<Rightarrow> u8 list \<Rightarrow> u8 list" where
  "overlay new old = new @ drop (length new) old"

lemma overlay_pwrite: "pwrite (overlay a old) (length a) d = overlay (a @ d) old"
  by (simp add: overlay_def pwrite_def add.commute)

definition stored :: "MetaData \<Rightarrow> ChunkData list \<Rightarrow> u8 list \<Rightarrow> nat \<Rightarrow> upload \<Rightarrow> bool" where
  "stored m cs old k s \<longleftrightarrow> k \<le> length cs \<and> up_total s = md_size m
     \<and> up_received s = word_of_nat (length (upto_chunk cs k))
     \<and> up_file s = Some (meta_path m, length (upto_chunk cs k))
     \<and> up_store s (meta_path m) = Some (overlay (upto_chunk cs k) old)"

definition left_over :: "ChunkData list \<Rightarrow> string \<Rightarrow> nat \<Rightarrow> (goerr + UploadRequest) list" where
  "left_over cs h k = map (\<lambda>c. Inr (UploadChunk c)) (drop k cs) @ [Inr (UploadHash h)]"

definition verdict :: "upload_env \<Rightarrow> MetaData \<Rightarrow> ChunkData list \<Rightarrow> string \<Rightarrow> u8 list \<Rightarrow> goerr option" where
  "verdict E m cs h old = verify_file (e_hash E) (overlay (upto_chunk cs (length cs)) old) (md_size m) h"

text \<open>The states a transfer goes through, by the phase of the handler.\<close>

definition script_inv ::
  "upload_env \<Rightarrow> (string \<rightharpoonup> u8 list) \<Rightarrow> MetaData \<Rightarrow> ChunkData list \<Rightarrow> string \<Rightarrow> upload \<Rightarrow> bool" where
  "script_inv E store m cs h s \<longleftrightarrow> up_crash s = None \<and>
     (case up_phase s of
        Receiving \<Rightarrow>
          s = upload_start store (script m cs h)
          \<or> (\<exists>k. stored m cs (old_content store m) k s \<and> up_inbox s = left_over cs h k
               \<and> (if hits m cs k then \<not> up_locked s \<and> up_reporters s = 0
                  else up_locked s \<and> up_reporters s = 1))
      | StopSend \<Rightarrow>
          (\<exists>k. stored m cs (old_content store m) k s \<and> up_inbox s = left_over cs h k
             \<and> hits m cs k \<and> up_locked s \<and> up_reporters s = 1)
      | Unlocking \<Rightarrow>
          (\<exists>k. stored m cs (old_content store m) k s \<and> up_inbox s = left_over cs h k
             \<and> hits m cs k \<and> up_locked s \<and> up_reporters s = 0)
      | LockWait want \<Rightarrow>
          want = h \<and> stored m cs (old_content store m) (length cs) s
          \<and> (if hits m cs (length cs) then \<not> up_locked s \<and> up_reporters s = 0
             else up_locked s \<and> up_reporters s = 1)
      | Hashing want \<Rightarrow>
          want = h \<and> stored m cs (old_content store m) (length cs) s
          \<and> hits m cs (length cs) \<and> up_locked s \<and> up_reporters s = 0
      | Answered r \<Rightarrow> hits m cs (length cs) \<and> r = verdict E m cs h (old_content store m)
          \<and> stored m cs (old_content store m) (length cs) s \<and> \<not> up_locked s \<and> up_reporters s = 0)"

lemma upto_chunk_Suc: "k < length cs \<Longrightarrow> upto_chunk cs (Suc k) = upto_chunk cs k @ ck_data (cs ! k)"
  by (simp add: upto_chunk_def take_Suc_conv_app_nth)

lemma left_over_step:
  "k < length cs \<Longrightarrow> left_over cs h k = Inr (UploadChunk (cs ! k)) # left_over cs h (Suc k)"
  by (simp add: left_over_def Cons_nth_drop_Suc [symmetric])

lemma left_over_end: "left_over cs h (length cs) = [Inr (UploadHash h)]"
  by (simp add: left_over_def)

lemma left_over_Inr: "left_over cs h k \<noteq> Inl e # rest" "Inl e # rest \<noteq> left_over cs h k"
  by (cases "drop k cs"; auto simp: left_over_def)+

lemma left_over_Cons: "\<exists>r rest. left_over cs h k = Inr r # rest"
  by (cases "drop k cs") (auto simp: left_over_def)

lemma progress_ok: "n \<noteq> 0 \<Longrightarrow> progress_text r n \<noteq> Panic p"
  by (simp add: progress_text_def)

lemma script_first:
  assumes "benign E" and "md_size m \<noteq> 0"
  shows "script_inv E store m cs h
     (upload_info E m ((upload_start store (script m cs h))\<lparr>up_inbox := left_over cs h 0\<rparr>))"
proof -
  have "\<not> hits m cs 0" by (simp add: hits_def)
  then show ?thesis
    using assms
    by (auto simp: script_inv_def upload_info_def open_target_def Let_def upload_start_def benign_def
        stored_def upto_chunk_def meta_path_def old_content_def overlay_def intro!: exI [of _ 0])
qed

lemma script_chunk:
  assumes "benign E" and "stored m cs old k s" and "k < length cs"
  shows "upload_chunk E (cs ! k) s =
     (if word_of_nat (length (upto_chunk cs (Suc k))) = md_size m
      then (store_chunk (ck_data (cs ! k)) s)\<lparr>up_phase := StopSend\<rparr>
      else store_chunk (ck_data (cs ! k)) s)"
    and "stored m cs old (Suc k) (store_chunk (ck_data (cs ! k)) s)"
  using assms
  by (auto simp: upload_chunk_def Let_def store_chunk_def stored_def benign_def upto_chunk_Suc overlay_pwrite)

lemma stored_cong:
  "up_total t = up_total s \<Longrightarrow> up_received t = up_received s \<Longrightarrow> up_file t = up_file s
   \<Longrightarrow> up_store t = up_store s \<Longrightarrow> stored m cs old k s \<Longrightarrow> stored m cs old k t"
  by (simp add: stored_def)

lemma script_recv:
  assumes inv: "script_inv E store m cs h s" and ph: "up_phase s = Receiving"
    and inb: "up_inbox s = Inr r # rest" and ok: "benign E" and nz: "md_size m \<noteq> 0"
    and early: "\<And>k. k < length cs \<Longrightarrow> \<not> hits m cs k"
  shows "script_inv E store m cs h (upload_request E r (s\<lparr>up_inbox := rest\<rparr>))"
proof (cases "s = upload_start store (script m cs h)")
  case True
  then have "r = UploadInfo m" and "rest = left_over cs h 0"
    using inb by (auto simp: upload_start_def script_def left_over_def)
  with True script_first [OF ok nz, of store cs h] show ?thesis by (simp add: upload_request_def)
next
  case False
  let ?old = "old_content store m"
  from inv ph False obtain k where st: "stored m cs ?old k s" and lo: "up_inbox s = left_over cs h k"
    and lk: "if hits m cs k then \<not> up_locked s \<and> up_reporters s = 0 else up_locked s \<and> up_reporters s = 1"
    and nc: "up_crash s = None"
    by (auto simp: script_inv_def)
  show ?thesis
  proof (cases "k < length cs")
    case True
    with early lk have lk1: "up_locked s" "up_reporters s = 1" by (auto split: if_splits)
    from True lo inb have r: "r = UploadChunk (cs ! k)" and rest: "rest = left_over cs h (Suc k)"
      by (auto simp: left_over_step)
    let ?s = "s\<lparr>up_inbox := rest\<rparr>"
    have st': "stored m cs ?old k ?s" using st by (rule stored_cong [rotated 4]) simp_all
    note new = script_chunk [OF ok st' True]
    have "stored m cs ?old (Suc k) ((store_chunk (ck_data (cs ! k)) ?s)\<lparr>up_phase := StopSend\<rparr>)"
      using new(2) by (rule stored_cong [rotated 4]) simp_all
    moreover have "hits m cs (Suc k) \<longleftrightarrow> word_of_nat (length (upto_chunk cs (Suc k))) = md_size m"
      by (simp add: hits_def)
    ultimately show ?thesis
      using r rest nc lk1 ph new st'
      by (auto simp: upload_request_def script_inv_def store_chunk_def stored_def)
  next
    case False
    with st have k: "k = length cs" by (simp add: stored_def)
    with lo inb have r: "r = UploadHash h" and rest: "rest = []" by (auto simp: left_over_end)
    show ?thesis
      using k r rest st lk nc ph
      by (auto simp: upload_request_def script_inv_def stored_def)
  qed
qed

lemma stored_fields [simp]:
  "stored m cs old k (s\<lparr>up_sent := x\<rparr>) = stored m cs old k s"
  "stored m cs old k (s\<lparr>up_leaving := n\<rparr>) = stored m cs old k s"
  "stored m cs old k (s\<lparr>up_reporters := n\<rparr>) = stored m cs old k s"
  "stored m cs old k (s\<lparr>up_phase := ph\<rparr>) = stored m cs old k s"
  "stored m cs old k (s\<lparr>up_locked := l\<rparr>) = stored m cs old k s"
  by (simp_all add: stored_def)

text \<open>The progress goroutines only report, once there is one.\<close>

lemma script_sent:
  assumes "script_inv E store m cs h s" and "0 < up_reporters s + up_leaving s"
  shows "script_inv E store m cs h (s\<lparr>up_sent := x, up_leaving := n\<rparr>)"
    and "md_size m \<noteq> 0 \<Longrightarrow> progress_text (up_received s) (up_total s) \<noteq> Panic p"
proof -
  have "s \<noteq> upload_start store (script m cs h)" using assms(2) by (auto simp: upload_start_def)
  with assms(1) show "script_inv E store m cs h (s\<lparr>up_sent := x, up_leaving := n\<rparr>)"
    and "md_size m \<noteq> 0 \<Longrightarrow> progress_text (up_received s) (up_total s) \<noteq> Panic p"
    by (cases "up_phase s"; auto simp: script_inv_def progress_ok stored_def split: if_splits)+
qed

lemma script_step:
  assumes "ustep E s t" and "script_inv E store m cs h s" and "benign E" and "md_size m \<noteq> 0"
    and "\<And>k. k < length cs \<Longrightarrow> \<not> hits m cs k"
  shows "script_inv E store m cs h t"
  using assms
proof (induction rule: ustep.induct)
  case (recv s r rest)
  then show ?case by (intro script_recv)
next
  case (recv_err s e rest)
  then have False by (auto simp: script_inv_def upload_start_def script_def left_over_Inr)
  then show ?case ..
next
  case (report s u)
  then have "script_inv E store m cs h (s\<lparr>up_sent := up_sent s @ [u], up_leaving := up_leaving s\<rparr>)"
    by (intro script_sent) simp_all
  then show ?case by simp
next
  case (report_crash s p)
  from script_sent(2) [OF report_crash(4,2,6), of p] report_crash(3) show ?case by simp
next
  case (leave s u)
  then show ?case by (intro script_sent) simp_all
next
  case (hashed s want)
  then show ?case
    by (auto simp: script_inv_def upload_hash_def mu_Unlock_def answer_def verdict_def benign_def stored_def)
qed (auto simp: script_inv_def mu_Unlock_def split: if_splits)

lemma script_reach:
  assumes "ureach E (upload_start store (script m cs h)) s" and "benign E" and "md_size m \<noteq> 0"
    and "\<And>k. k < length cs \<Longrightarrow> \<not> hits m cs k"
  shows "script_inv E store m cs h s"
  using assms(1)
proof (induction rule: rtranclp_induct)
  case base
  show ?case by (simp add: script_inv_def upload_start_def)
next
  case (step t u)
  then show ?case using script_step assms(2-4) by blast
qed

text \<open>How far the transfer is from its answer.\<close>

definition upload_left :: "upload \<Rightarrow> nat" where
  "upload_left s =
     (case up_phase s of
        Receiving \<Rightarrow> 4 * length (up_inbox s)
      | StopSend \<Rightarrow> 4 * length (up_inbox s) + 3
      | Unlocking \<Rightarrow> 4 * length (up_inbox s) + 2
      | LockWait want \<Rightarrow> 2
      | Hashing want \<Rightarrow> 1
      | Answered r \<Rightarrow> 0)"

lemma upload_request_inbox: "up_inbox (upload_request E r s) = up_inbox s"
proof -
  have "open_target E d n s1 = Ok s2 \<Longrightarrow> up_inbox s2 = up_inbox s1" for d n s1 s2
    by (auto simp: open_target_def Let_def split: option.splits if_splits)
  then have "up_inbox (upload_info E m s) = up_inbox s" for m s
    by (auto simp: upload_info_def answer_def Let_def split: res.splits)
  moreover have "up_inbox (upload_chunk E c s) = up_inbox s" for c s
    by (auto simp: upload_chunk_def store_chunk_def answer_def Let_def split: option.splits)
  moreover have "up_inbox (upload_hash E w s) = up_inbox s" for w s
    by (auto simp: upload_hash_def answer_def split: option.splits)
  ultimately show ?thesis by (cases r) (simp_all add: upload_request_def)
qed

lemma script_next:
  assumes inv: "script_inv E store m cs h s" and hit: "hits m cs (length cs)"
    and go: "\<And>r. up_phase s \<noteq> Answered r"
  shows "\<exists>t. ustep E s t \<and> upload_left t < upload_left s"
proof (cases "up_phase s")
  case Receiving
  with inv have "up_inbox s = script m cs h \<or> (\<exists>k. up_inbox s = left_over cs h k)"
    by (auto simp: script_inv_def upload_start_def)
  then obtain r rest where inb: "up_inbox s = Inr r # rest"
    using left_over_Cons [of cs h] unfolding script_def by metis
  let ?t = "upload_request E r (s\<lparr>up_inbox := rest\<rparr>)"
  have "upload_left ?t \<le> 4 * length rest + 3"
    by (simp add: upload_left_def upload_request_inbox split: phase.split)
  moreover have "upload_left s \<ge> 4 * length rest + 4" using Receiving inb by (simp add: upload_left_def)
  moreover have "ustep E s ?t"
    using inv Receiving inb by (intro ustep.recv) (auto simp: script_inv_def)
  ultimately show ?thesis by (intro exI [of _ ?t]) linarith
next
  case StopSend
  with inv have "up_crash s = None" "0 < up_reporters s" by (auto simp: script_inv_def)
  from ustep.stop [OF this StopSend] StopSend show ?thesis by (force simp: upload_left_def)
next
  case Unlocking
  with inv have "up_crash s = None" "up_locked s" by (auto simp: script_inv_def)
  from ustep.unlock [OF this(1) Unlocking] this Unlocking show ?thesis
    by (force simp: upload_left_def mu_Unlock_def)
next
  case (LockWait want)
  with inv hit have "up_crash s = None" "\<not> up_locked s" by (auto simp: script_inv_def)
  from ustep.locked [OF this(1) LockWait this(2)] LockWait show ?thesis by (force simp: upload_left_def)
next
  case (Hashing want)
  with inv have "up_crash s = None" "up_locked s" by (auto simp: script_inv_def)
  from ustep.hashed [OF this(1) Hashing] this(2) Hashing show ?thesis
    by (force simp: upload_left_def mu_Unlock_def upload_hash_def answer_def split: option.splits)
qed (use go in auto)

text \<open>
  C2: let the file system raise no error, the announced size be positive and the byte
  counter reach it with the last chunk and not before.  Then from every state the transfer
  can get to it can be answered, and the only answer is the verdict on the received bytes
  laid over what the file held: the file is not truncated, so a longer earlier file makes
  the same upload fail with \<open>hashing error\<close>.
\<close>

theorem upload_outcome:
  assumes "ureach E (upload_start store (script m cs h)) s" and "benign E" and "md_size m \<noteq> 0"
    and "hits m cs (length cs)" and "\<And>k. k < length cs \<Longrightarrow> \<not> hits m cs k"
  shows "(\<exists>t. ureach E s t \<and> up_phase t = Answered (verdict E m cs h (old_content store m))
        \<and> up_store t (meta_path m) = Some (overlay (upto_chunk cs (length cs)) (old_content store m)))
    \<and> (\<forall>r. up_phase s = Answered r \<longrightarrow> r = verdict E m cs h (old_content store m))"
proof
  show "\<exists>t. ureach E s t \<and> up_phase t = Answered (verdict E m cs h (old_content store m))
      \<and> up_store t (meta_path m) = Some (overlay (upto_chunk cs (length cs)) (old_content store m))"
    using assms(1)
  proof (induction "upload_left s" arbitrary: s rule: less_induct)
    case less
    note inv = script_reach [OF less.prems assms(2,3,5)]
    show ?case
    proof (cases "\<exists>r. up_phase s = Answered r")
      case True
      with inv show ?thesis by (intro exI [of _ s]) (auto simp: script_inv_def stored_def)
    next
      case False
      with script_next [OF inv assms(4)] obtain t where t: "ustep E s t" "upload_left t < upload_left s"
        by blast
      from less.hyps [OF t(2) rtranclp.rtrancl_into_rtrancl [OF less.prems t(1)]] t(1)
      show ?thesis by (meson converse_rtranclp_into_rtranclp)
    qed
  qed
  show "\<forall>r. up_phase s = Answered r \<longrightarrow> r = verdict E m cs h (old_content store m)"
    using script_reach [OF assms(1-3,5)] by (auto simp: script_inv_def)
qed

definition calm_env :: upload_env where
  "calm_env = \<lparr>e_hash = (\<lambda>b. take 2 b), e_missing = (\<lambda>d. True), e_mkdir = (\<lambda>d. None), e_open = (\<lambda>p. None),
     e_write = (\<lambda>p n d. None), e_read = (\<lambda>p. None)\<rparr>"

definition meta :: "u32 \<Rightarrow> MetaData" where
  "meta n = \<lparr>md_size = n, md_name = Some ''a.bin'', md_destination = Some ''app''\<rparr>"

definition chunk :: "u8 list \<Rightarrow> ChunkData" where
  "chunk d = \<lparr>ck_seq = 0, ck_data = d\<rparr>"

lemma benign_calm: "benign calm_env"
  by (simp add: benign_def calm_env_def)

text \<open>A one-byte upload, step by step; the goroutine's last report comes after the unlocking.\<close>

definition sample_at :: "u32 \<Rightarrow> u8 list \<Rightarrow> bool \<Rightarrow> nat \<times> nat \<Rightarrow> phase \<Rightarrow> (goerr + UploadRequest) list \<Rightarrow> upload" where
  "sample_at n content held gs ph inbox =
     \<lparr>up_file = Some (''c:/application/app/a.bin'', length content), up_total = 1, up_received = n,
      up_locked = held, up_store = [''c:/application/app/a.bin'' \<mapsto> content],
      up_dirs = [''c:/application/app''], up_sent = (if gs = (0, 0) then [''100%''] else []), up_phase = ph,
      up_reporters = fst gs, up_leaving = snd gs, up_inbox = inbox, up_crash = None\<rparr>"

definition sample_inbox :: "(goerr + UploadRequest) list" where
  "sample_inbox = [Inr (UploadInfo (meta 1)), Inr (UploadChunk (chunk [7])), Inr (UploadHash ''07'')]"

lemma sample_paths: "upload_path ''app'' ''a.bin'' = ''c:/application/app/a.bin''" "upload_dir ''app'' = ''c:/application/app''"
  by code_simp+

lemma ustep_recvI:
  "up_crash s = None \<Longrightarrow> up_phase s = Receiving \<Longrightarrow> up_inbox s = Inr r # rest
    \<Longrightarrow> upload_request E r (s\<lparr>up_inbox := rest\<rparr>) = t \<Longrightarrow> ustep E s t"
  using ustep.recv by blast

lemma sample_reach:
  "ureach calm_env (upload_start (\<lambda>p. None) sample_inbox) (sample_at 1 [7] False (0, 0) (Answered None) [])"
proof -
  let ?i1 = "tl sample_inbox" and ?i2 = "tl (tl sample_inbox)"
  have 1: "ustep calm_env (upload_start (\<lambda>p. None) sample_inbox) (sample_at 0 [] True (1, 0) Receiving ?i1)"
    by (rule ustep_recvI [of _ "UploadInfo (meta 1)" "tl sample_inbox"])
      (simp_all add: upload_start_def sample_inbox_def upload_request_def upload_info_def open_target_def meta_def
        sample_paths sample_at_def calm_env_def Let_def)
  have 2: "ustep calm_env (sample_at 0 [] True (1, 0) Receiving ?i1) (sample_at 1 [7] True (1, 0) StopSend ?i2)"
    by (rule ustep_recvI [of _ "UploadChunk (chunk [7])" "tl (tl sample_inbox)"])
      (simp_all add: sample_inbox_def upload_request_def upload_chunk_def store_chunk_def pwrite_def sample_at_def
        chunk_def calm_env_def Let_def)
  have 3: "ustep calm_env (sample_at 1 [7] True (1, 0) StopSend ?i2) (sample_at 1 [7] True (0, 1) Unlocking ?i2)"
    using ustep.stop [of "sample_at 1 [7] True (1, 0) StopSend ?i2" calm_env] by (simp add: sample_at_def)
  have 4: "ustep calm_env (sample_at 1 [7] True (0, 1) Unlocking ?i2) (sample_at 1 [7] False (0, 1) Receiving ?i2)"
    using ustep.unlock [of "sample_at 1 [7] True (0, 1) Unlocking ?i2" calm_env] by (simp add: sample_at_def mu_Unlock_def)
  have t: "progress_text 1 1 = Ok ''100%''" by code_simp
  have 5: "ustep calm_env (sample_at 1 [7] False (0, 1) Receiving ?i2) (sample_at 1 [7] False (0, 0) Receiving ?i2)"
    using ustep.leave [of "sample_at 1 [7] False (0, 1) Receiving ?i2" "''100%''" calm_env] by (simp add: sample_at_def t)
  have 6: "ustep calm_env (sample_at 1 [7] False (0, 0) Receiving ?i2) (sample_at 1 [7] False (0, 0) (LockWait ''07'') [])"
    by (rule ustep_recvI [of _ "UploadHash ''07''" "[]"]) (simp_all add: sample_inbox_def upload_request_def sample_at_def)
  have 7: "ustep calm_env (sample_at 1 [7] False (0, 0) (LockWait ''07'') []) (sample_at 1 [7] True (0, 0) (Hashing ''07'') [])"
    using ustep.locked [of "sample_at 1 [7] False (0, 0) (LockWait ''07'') []" "''07''" calm_env] by (simp add: sample_at_def)
  have h: "hex_str [7] = ''07''" by code_simp
  have 8: "ustep calm_env (sample_at 1 [7] True (0, 0) (Hashing ''07'') []) (sample_at 1 [7] False (0, 0) (Answered None) [])"
    using ustep.hashed [of "sample_at 1 [7] True (0, 0) (Hashing ''07'') []" "''07''" calm_env]
    by (simp add: sample_at_def upload_hash_def verify_file_def answer_def calm_env_def h mu_Unlock_def)
  from 1 2 3 4 5 6 7 8 show ?thesis by (meson converse_rtranclp_into_rtranclp rtranclp.rtrancl_refl)
qed

theorem upload_sound_witness:
  "hex_str (e_hash calm_env [7]) = ''07'' \<and> Inr (UploadHash ''07'') \<in> set sample_inbox"
  using upload_sound [OF sample_reach] by (auto simp: sample_at_def sample_inbox_def)

theorem upload_outcome_witness:
  "\<exists>t. ureach calm_env (upload_start (\<lambda>p. None) (script (meta 3) [chunk [1, 2], chunk [3]] ''0102'')) t
     \<and> up_phase t = Answered (verdict calm_env (meta 3) [chunk [1, 2], chunk [3]] ''0102'' [])"
proof -
  let ?cs = "[chunk [1, 2], chunk [3]]"
  have hit: "hits (meta 3) ?cs (length ?cs)"
    by (simp add: hits_def upto_chunk_def meta_def chunk_def)
  have early: "\<not> hits (meta 3) ?cs k" if "k < length ?cs" for k
    using that by (auto simp: hits_def upto_chunk_def meta_def chunk_def less_Suc_eq)
  have "old_content (\<lambda>p. None) (meta 3) = []" by (simp add: old_content_def)
  with upload_outcome [OF rtranclp.rtrancl_refl benign_calm _ hit early, where store = "\<lambda>p. None" and h = "''0102''"]
  show ?thesis by (auto simp: meta_def)
qed

section \<open>Streams that are never answered\<close>

text \<open>
  When the byte counter never equals the announced size at the end of a chunk (the chunks
  carry too few bytes, or step over it), the hash request of the stream is never answered: in
  no reachable state has the handler returned.
\<close>

lemma upload_inexact_unanswered:
  assumes "ureach E (upload_start store (script m cs h)) s" and "benign E" and "md_size m \<noteq> 0"
    and "\<And>k. k \<le> length cs \<Longrightarrow> \<not> hits m cs k"
  shows "up_phase s \<noteq> Answered r"
  using script_reach [OF assms(1-3)] assms(4) by (auto simp: script_inv_def)

lemma upload_inexact_unanswered_witness:
  "\<forall>r. up_phase (upload_start (\<lambda>p. None) (script (meta 3) [chunk [1, 2], chunk [3, 4]] ''00'')) \<noteq> Answered r"
proof (rule allI, rule upload_inexact_unanswered [OF rtranclp.rtrancl_refl benign_calm])
  show "md_size (meta 3) \<noteq> 0" by (simp add: meta_def)
  show "\<not> hits (meta 3) [chunk [1, 2], chunk [3, 4]] k" if "k \<le> length [chunk [1, 2], chunk [3, 4]]" for k
    using that by (auto simp: hits_def upto_chunk_def meta_def chunk_def le_Suc_eq)
qed

text \<open>
  An empty chunk after the last byte makes the handler send on \<open>stop\<close> again, when the
  goroutine that would receive has ended: from there no state is reachable in which the
  handler has returned.
\<close>

lemma upload_extra_chunk_blocks:
  assumes "ureach E s t" and "benign E" and "up_phase s = Receiving" and "up_reporters s = 0"
    and "up_inbox s = Inr (UploadChunk c) # rest" and "up_file s = Some (p, off)"
    and "up_received s + word_of_nat (length (ck_data c)) = up_total s"
  shows "up_phase t \<noteq> Answered r"
proof -
  have "up_reporters t = 0 \<and> (up_phase t = StopSend \<or> up_phase t = Receiving \<and> up_inbox t = up_inbox s
      \<and> up_file t = up_file s \<and> up_received t = up_received s \<and> up_total t = up_total s)"
    using assms(1)
  proof (induction rule: rtranclp_induct)
    case (step t u)
    from step.hyps(2) step.IH show ?case
      by (cases rule: ustep.cases)
        (use assms(2-7) in \<open>auto simp: upload_request_def upload_chunk_def benign_def store_chunk_def Let_def\<close>)
  qed (use assms in simp)
  then show ?thesis by auto
qed

definition after_transfer :: upload where
  "after_transfer = (upload_start (\<lambda>p. Some [1, 2, 3]) [Inr (UploadChunk (chunk []))])
     \<lparr>up_file := Some (''c:/application/app/a.bin'', 3), up_total := 3, up_received := 3\<rparr>"

lemma upload_extra_chunk_blocks_witness: "\<forall>r. up_phase after_transfer \<noteq> Answered r"
  by (rule allI, rule upload_extra_chunk_blocks [OF rtranclp.rtrancl_refl benign_calm, of _ "chunk []" "[]" "''c:/application/app/a.bin''" 3])
    (simp_all add: after_transfer_def upload_start_def chunk_def)

text \<open>
  Announcing a size of zero while a transfer is running makes the handler return
  \<open>mutex lock error\<close> with the total already cleared; the next step of the system is then the
  division by zero in the progress goroutine, and no other.
\<close>

lemma upload_zero_info_crashes:
  assumes "benign E" and "up_crash s = None" and "up_phase s = Receiving" and "up_locked s"
    and "0 < up_reporters s" and "up_inbox s = Inr (UploadInfo m) # rest" and "md_size m = 0"
  shows "\<exists>t. ustep E s t \<and> up_phase t = Answered (Some ''mutex lock error'')
    \<and> (\<forall>u. ustep E t u \<longleftrightarrow> u = t\<lparr>up_crash := Some DivideByZero\<rparr>)"
proof -
  let ?t = "upload_request E (UploadInfo m) (s\<lparr>up_inbox := rest\<rparr>)"
  have ph: "up_phase ?t = Answered (Some ''mutex lock error'')" and rest: "up_crash ?t = None"
    "up_total ?t = 0" "up_reporters ?t = up_reporters s"
    using assms by (auto simp: upload_request_def upload_info_def open_target_def Let_def benign_def answer_def)
  have "progress_text (up_received ?t) (up_total ?t) = Panic DivideByZero"
    using rest by (simp add: progress_text_def)
  then have "ustep E ?t u \<longleftrightarrow> u = ?t\<lparr>up_crash := Some DivideByZero\<rparr>" for u
    using ph rest assms(5) by (auto elim!: ustep_cases intro: ustep.report_crash)
  moreover have "ustep E s ?t" using assms by (intro ustep.recv)
  ultimately show ?thesis using ph by blast
qed

definition in_transfer :: upload where
  "in_transfer = (upload_start (\<lambda>p. Some []) [Inr (UploadInfo (meta 0))])
     \<lparr>up_file := Some (''c:/application/app/a.bin'', 0), up_total := 3, up_locked := True, up_reporters := 1\<rparr>"

lemma upload_zero_info_crashes_witness:
  "\<exists>t. ustep calm_env in_transfer t \<and> ustep calm_env t (t\<lparr>up_crash := Some DivideByZero\<rparr>)"
  using upload_zero_info_crashes [OF benign_calm, of in_transfer "meta 0" "[]"]
  by (auto simp: in_transfer_def upload_start_def meta_def)

section \<open>Where the file goes\<close>

lemma str_split_join_append:
  assumes "xs \<noteq> []" and "\<forall>x \<in> set xs. c \<notin> set x"
  shows "str_split [c] (str_join [c] xs @ c # vs) = xs @ str_split [c] vs"
  using assms
proof (induction xs)
  case (Cons x xs)
  then show ?case
    by (cases xs) (auto simp: str_split_char_Cons str_join_Cons)
qed simp

definition proper :: "string \<Rightarrow> bool" where
  "proper c \<longleftrightarrow> c \<noteq> [] \<and> c \<noteq> ''.''"

definition comps :: "string \<Rightarrow> string list" where
  "comps p = filter proper (str_split ''/'' p)"

lemma path_clean_relative:
  assumes "xs \<noteq> []" and "hd (hd xs) \<noteq> CHR ''/''" and "hd xs \<noteq> []" and "\<forall>x \<in> set xs. CHR ''/'' \<notin> set x"
    and "clean_comps False [] (xs @ str_split ''/'' name) = ys" and "ys \<noteq> []" and "hd ys \<noteq> []"
  shows "path_clean (str_join ''/'' xs @ CHR ''/'' # name) = str_join ''/'' ys"
proof -
  have "\<exists>c cs. hd xs = c # cs \<and> c \<noteq> CHR ''/''" using assms(2,3) by (cases "hd xs") auto
  moreover have "\<exists>ws. str_join ''/'' xs = hd xs @ ws"
    using assms(1) by (cases xs; cases "tl xs") (auto simp: str_join_Cons)
  ultimately obtain c ws where j: "str_join ''/'' xs = c # ws" and c: "c \<noteq> CHR ''/''" by auto
  have "str_join ''/'' ys \<noteq> []" using assms(6,7) by (cases ys; cases "tl ys") (auto simp: str_join_Cons)
  moreover have "str_split ''/'' (str_join ''/'' xs @ CHR ''/'' # name) = xs @ str_split ''/'' name"
    using assms(1,4) by (rule str_split_join_append)
  ultimately show ?thesis using assms(5) j c by (simp add: path_clean_def)
qed

lemma clean_relative:
  "\<forall>c \<in> set cs. c \<noteq> ''..'' \<Longrightarrow> clean_comps r out cs = rev out @ filter proper cs"
  by (simp add: clean_comps_append proper_def [abs_def])

lemma comps_free: "x \<in> set (comps p) \<Longrightarrow> CHR ''/'' \<notin> set x \<and> x \<noteq> []"
  using str_split_char_free [of x "CHR ''/''" p] by (auto simp: comps_def proper_def)

lemma path_join_two: "a \<noteq> [] \<Longrightarrow> path_join [a, b] = path_clean (a @ CHR ''/'' # b)"
  by (simp add: path_join_def)

lemma join_file:
  assumes "dst = str_join ''/'' (''c:'' # xs)" and "\<forall>x \<in> set xs. CHR ''/'' \<notin> set x \<and> proper x \<and> x \<noteq> ''..''"
    and "\<forall>c \<in> set (str_split ''/'' name). c \<noteq> ''..''"
  shows "path_join [dst, name] = str_join ''/'' (''c:'' # xs @ comps name)"
proof -
  have "filter proper xs = xs" using assms(2) by (simp add: filter_id_conv)
  then have "clean_comps False [] ((''c:'' # xs) @ str_split ''/'' name) = ''c:'' # xs @ comps name"
    using assms(2,3) by (subst clean_relative) (auto simp: comps_def proper_def)
  then have "path_clean (str_join ''/'' (''c:'' # xs) @ CHR ''/'' # name) = str_join ''/'' (''c:'' # xs @ comps name)"
    using assms(2) by (intro path_clean_relative) auto
  moreover have "dst \<noteq> []" using assms(1) by (cases xs) auto
  ultimately show ?thesis using assms(1) by (simp add: path_join_two)
qed

text \<open>
  C31: with no \<open>..\<close> among the components of the destination and of the name the uploaded file
  lies below \<open>c:/application\<close>; a destination that begins with \<open>../\<close> takes it out of there.
\<close>

theorem upload_path_confined:
  assumes "\<forall>c \<in> set (str_split ''/'' destination). c \<noteq> ''..''"
    and "\<forall>c \<in> set (str_split ''/'' fname). c \<noteq> ''..''"
  shows "upload_path destination fname
      = str_join ''/'' ([''c:'', ''application''] @ comps destination @ comps fname)
    \<and> upload_path (''../'' @ destination) fname
      = str_join ''/'' ([''c:''] @ comps destination @ comps fname)"
proof -
  have base: "''c:/application'' = str_join ''/'' [''c:'', ''application'']" by simp
  have free: "\<forall>x \<in> set (comps destination). CHR ''/'' \<notin> set x \<and> proper x \<and> x \<noteq> ''..''"
    using assms(1) comps_free [of _ destination] by (auto simp: comps_def)
  have "upload_dir destination = str_join ''/'' (''c:'' # [''application''] @ comps destination)"
    unfolding upload_dir_def by (rule join_file [OF base]) (use assms(1) in \<open>auto simp: proper_def\<close>)
  then have 1: "upload_path destination fname
      = str_join ''/'' (''c:'' # ([''application''] @ comps destination) @ comps fname)"
    unfolding upload_path_def by (rule join_file) (use free assms(2) in \<open>auto simp: proper_def\<close>)
  have up: "str_split ''/'' (''../'' @ destination) = ''..'' # str_split ''/'' destination"
    using str_split_char_Cons [of "CHR ''/''" "''..''" destination] by simp
  have "clean_comps False [] ([''c:'', ''application''] @ str_split ''/'' (''../'' @ destination))
      = ''c:'' # comps destination"
    unfolding up using clean_relative [OF assms(1), of False "[''c:'']"] by (simp add: comps_def)
  then have "upload_dir (''../'' @ destination) = str_join ''/'' (''c:'' # comps destination)"
    unfolding upload_dir_def base
    using path_clean_relative [of "[''c:'', ''application'']" "''../'' @ destination" "''c:'' # comps destination"]
    by (simp add: path_join_two)
  then have 2: "upload_path (''../'' @ destination) fname = str_join ''/'' (''c:'' # comps destination @ comps fname)"
    unfolding upload_path_def by (rule join_file) (use free assms(2) in auto)
  from 1 2 show ?thesis by simp
qed

theorem upload_path_confined_witness:
  "upload_path ''../windows'' ''a.dll'' = ''c:/windows/a.dll''"
proof -
  have s: "str_split ''/'' ''windows'' = [''windows'']" "str_split ''/'' ''a.dll'' = [''a.dll'']"
    by (simp_all add: str_split_char_last)
  then show ?thesis
    using upload_path_confined [of "''windows''" "''a.dll''"] by (simp add: comps_def proper_def)
qed

end
