(* ===== verification/Update_Loader.thy ===== *)
theory Update_Loader
  imports File_Transfer
begin

text \<open>
  \<open>UpdateLoader\<close> of \<open>service/maintenance.go\<close>: the agent receives its own replacement into a
  temporary file, verifies it and starts the command that installs it.  One goroutine reads
  the stream, so the handler is a recursion over the messages.
\<close>

section \<open>State\<close>

text \<open>
  The environment: the hash, what \<open>ioutil.TempFile\<close> returns for the n-th file (a new name),
  a failing write with the bytes it still wrote, a failing read, the path of the executable
  and the outcome of the command.
\<close>

record loader_env =
  l_hash :: "u8 list \<Rightarrow> u8 list"
  l_temp :: "nat \<Rightarrow> goerr + string"
  l_write :: "string \<Rightarrow> nat \<Rightarrow> u8 list \<Rightarrow> (nat \<times> goerr) option"
  l_read :: "string \<Rightarrow> goerr option"
  l_exe :: "goerr + string"
  l_run :: "string list \<Rightarrow> goerr option"

text \<open>A temporary file is its name, the offset and the content.\<close>

record loader =
  lo_file :: "(string \<times> nat \<times> u8 list) option"
  lo_total :: u32
  lo_received :: u32
  lo_temps :: nat
  lo_sent :: "string list"
  lo_ran :: "string list list"

definition loader_start :: loader where
  "loader_start = \<lparr>lo_file = None, lo_total = 0, lo_received = 0, lo_temps = 0, lo_sent = [], lo_ran = []\<rparr>"

section \<open>The handler\<close>

text \<open>A step returns whether the handler returns; \<open>Ok False\<close> goes on receiving.\<close>

definition loader_info :: "loader_env \<Rightarrow> MetaData \<Rightarrow> (loader, bool) io" where
  "loader_info E m s =
     (let s1 = s\<lparr>lo_total := md_size m\<rparr> in
      case l_temp E (lo_temps s1) of
        Inl err \<Rightarrow> (Err err, s1)
      | Inr name \<Rightarrow> (Ok False, s1\<lparr>lo_file := Some (name, 0, []), lo_temps := lo_temps s1 + 1\<rparr>))"

definition loader_store :: "u8 list \<Rightarrow> loader \<Rightarrow> loader" where
  "loader_store data s =
     (case lo_file s of
        None \<Rightarrow> s
      | Some (name, off, content) \<Rightarrow>
          s\<lparr>lo_file := Some (name, off + length data, pwrite content off data),
            lo_received := lo_received s + word_of_nat (length data)\<rparr>)"

definition loader_chunk :: "loader_env \<Rightarrow> ChunkData \<Rightarrow> (loader, bool) io" where
  "loader_chunk E c s =
     (case lo_file s of
        None \<Rightarrow> (Err ''invalid argument'', s)
      | Some (name, off, content) \<Rightarrow>
          (case l_write E name off (ck_data c) of
             Some (n, err) \<Rightarrow>
               (Err err, s\<lparr>lo_file := Some (name, off + n, pwrite content off (take n (ck_data c)))\<rparr>)
           | None \<Rightarrow>
               (let s' = loader_store (ck_data c) s in
                case progress_text (lo_received s') (lo_total s') of
                  Ok t \<Rightarrow> (Ok False, s'\<lparr>lo_sent := lo_sent s' @ [t]\<rparr>)
                | Err e \<Rightarrow> (Err e, s')
                | Panic p \<Rightarrow> (Panic p, s')
                | Blocked \<Rightarrow> (Blocked, s'))))"

definition install_cmd :: "string \<Rightarrow> string \<Rightarrow> string list" where
  "install_cmd name wd =
     [''cmd'', ''/c'', ''start'', ''cmd'', ''/k'',
      ''sc stop hvl-loader & copy /y '' @ name @ '' '' @ wd @ '' & sc start hvl-loader & del /q /f '' @ name]"

definition loader_hash :: "loader_env \<Rightarrow> string \<Rightarrow> (loader, bool) io" where
  "loader_hash E want s =
     (case lo_file s of
        None \<Rightarrow> (Err ''seek error:invalid argument'', s)
      | Some (name, off, content) \<Rightarrow>
          (case l_read E name of
             Some err \<Rightarrow> (Err (''copy error:'' @ err), s)
           | None \<Rightarrow>
               (case verify_file (l_hash E) content (lo_total s) want of
                  Some err \<Rightarrow> (Err err, s)
                | None \<Rightarrow>
                    (case l_exe E of
                       Inl err \<Rightarrow> (Err err, s)
                     | Inr wd \<Rightarrow>
                         (let cmd = install_cmd name wd; s' = s\<lparr>lo_ran := lo_ran s @ [cmd]\<rparr> in
                          case l_run E cmd of
                            Some err \<Rightarrow> (Err err, s')
                          | None \<Rightarrow> (Ok True, s'))))))"

definition loader_request :: "loader_env \<Rightarrow> UploadRequest \<Rightarrow> (loader, bool) io" where
  "loader_request E r s =
     (case r of
        UploadInfo m \<Rightarrow> loader_info E m s
      | UploadChunk c \<Rightarrow> loader_chunk E c s
      | UploadHash want \<Rightarrow> loader_hash E want s
      | UploadEmpty \<Rightarrow> (Ok False, s))"

text \<open>The stream: after the messages given the client is silent and \<open>Recv\<close> waits.\<close>

fun UpdateLoader :: "loader_env \<Rightarrow> (goerr + UploadRequest) list \<Rightarrow> (loader, unit) io" where
  "UpdateLoader E [] s = (Blocked, s)"
| "UpdateLoader E (Inl err # rest) s = (Err err, s)"
| "UpdateLoader E (Inr r # rest) s =
     bind_io (loader_request E r) (\<lambda>fin s'. if fin then (Ok (), s') else UpdateLoader E rest s') s"

section \<open>Chunks\<close>

definition lo_content :: "loader \<Rightarrow> u8 list" where
  "lo_content s = (case lo_file s of None \<Rightarrow> [] | Some (name, off, content) \<Rightarrow> content)"

definition lo_ready :: "loader \<Rightarrow> bool" where
  "lo_ready s = (case lo_file s of None \<Rightarrow> False | Some (name, off, content) \<Rightarrow> off = length content)"

interpretation ldr: chunk_sink loader_store lo_content lo_received lo_ready
  by unfold_locales (auto simp: lo_ready_def lo_content_def loader_store_def split: option.splits)

end
