(* ===== verification/Update_Loader_Correct.thy ===== *)
theory Update_Loader_Correct
  imports Update_Loader
begin

text \<open>
  What a self-update guarantees: only a verified file is installed, a complete stream is
  always answered with the verdict on exactly the bytes it carried, and which streams bring
  the process down.
\<close>

section \<open>Only verified files are installed\<close>

definition verified_run :: "loader_env \<Rightarrow> UploadRequest list \<Rightarrow> loader \<Rightarrow> bool" where
  "verified_run E rs s \<longleftrightarrow>
     (case lo_file s of
        None \<Rightarrow> False
      | Some (name, off, content) \<Rightarrow>
          (\<exists>wd. lo_ran s = [install_cmd name wd]) \<and> int (length content) = uint (lo_total s)
          \<and> UploadHash (hex_str (l_hash E content)) \<in> set rs)"

definition requests :: "(goerr + UploadRequest) list \<Rightarrow> UploadRequest list" where
  "requests inbox = [r. Inr r \<leftarrow> inbox]"

lemma requests_simps [simp]:
  "requests [] = []" "requests (Inl e # rest) = requests rest" "requests (Inr r # rest) = r # requests rest"
  by (simp_all add: requests_def)

lemma request_runs:
  assumes "loader_request E r s = (q, t)" and "lo_ran s = []"
  shows "(q = Ok False \<longrightarrow> lo_ran t = []) \<and> (lo_ran t = [] \<or> verified_run E [r] t)"
  using assms
  by (cases r) (auto simp: loader_request_def loader_info_def loader_chunk_def loader_store_def
      loader_hash_def Let_def verify_file_None verified_run_def split: option.splits res.splits sum.splits, blast+)

lemma verified_run_mono:
  "verified_run E rs s \<Longrightarrow> verified_run E (r # rs) s" "verified_run E [r] s \<Longrightarrow> verified_run E (r # rs) s"
  by (auto simp: verified_run_def split: option.splits)

lemma update_runs:
  "lo_ran s = [] \<Longrightarrow> lo_ran (snd (UpdateLoader E inbox s)) = []
   \<or> verified_run E (requests inbox) (snd (UpdateLoader E inbox s))"
proof (induction inbox arbitrary: s)
  case (Cons m rest)
  show ?case
  proof (cases m)
    case (Inr r)
    obtain q t where q: "loader_request E r s = (q, t)" by (cases "loader_request E r s")
    note runs = request_runs [OF q Cons.prems]
    show ?thesis
    proof (cases "q = Ok False")
      case True
      with runs have "lo_ran t = []" by simp
      from Cons.IH [OF this] show ?thesis
        using Inr q True by (auto simp: bind_io_def intro: verified_run_mono)
    next
      case False
      with runs show ?thesis
        using Inr q by (cases q) (auto simp: bind_io_def intro: verified_run_mono)
    qed
  qed (use Cons.prems in simp)
qed simp

text \<open>
  C19: for every stream and every behaviour of the system, if the installing command is
  started it is started once, for the temporary file, and that file has the announced length
  and the SHA-1 sum of a hash request of the stream.
\<close>

theorem update_installs_verified:
  assumes "lo_ran (snd (UpdateLoader E inbox loader_start)) \<noteq> []"
  shows "verified_run E (requests inbox) (snd (UpdateLoader E inbox loader_start))"
  using update_runs [of loader_start E inbox] assms by (simp add: loader_start_def)

section \<open>The protocol\<close>

text \<open>
  The specification of a transfer, without files: nothing announced yet, or an announced size
  with the bytes received since.
\<close>

datatype xfer = NoFile | Holding u32 "u8 list"

fun xfer_step :: "(u8 list \<Rightarrow> u8 list) \<Rightarrow> UploadRequest \<Rightarrow> (xfer, bool) io" where
  "xfer_step H (UploadInfo m) x = (Ok False, Holding (md_size m) [])"
| "xfer_step H (UploadChunk c) NoFile = (Err ''invalid argument'', NoFile)"
| "xfer_step H (UploadChunk c) (Holding n b) =
     (if n = 0 then Panic DivideByZero else Ok False, Holding n (b @ ck_data c))"
| "xfer_step H (UploadHash h) NoFile = (Err ''seek error:invalid argument'', NoFile)"
| "xfer_step H (UploadHash h) (Holding n b) =
     (case verify_file H b n h of None \<Rightarrow> Ok True | Some e \<Rightarrow> Err e, Holding n b)"
| "xfer_step H UploadEmpty x = (Ok False, x)"

fun xfer_run :: "(u8 list \<Rightarrow> u8 list) \<Rightarrow> (goerr + UploadRequest) list \<Rightarrow> (xfer, unit) io" where
  "xfer_run H [] x = (Blocked, x)"
| "xfer_run H (Inl err # rest) x = (Err err, x)"
| "xfer_run H (Inr r # rest) x =
     bind_io (xfer_step H r) (\<lambda>fin x'. if fin then (Ok (), x') else xfer_run H rest x') x"

definition lo_abs :: "loader \<Rightarrow> xfer" where
  "lo_abs s = (case lo_file s of None \<Rightarrow> NoFile | Some (name, off, content) \<Rightarrow> Holding (lo_total s) content)"

definition lo_inv :: "loader \<Rightarrow> bool" where
  "lo_inv s \<longleftrightarrow> (lo_file s = None \<or> lo_ready s)"

definition calm_loader :: "loader_env \<Rightarrow> bool" where
  "calm_loader E \<longleftrightarrow> (\<forall>n. \<exists>name. l_temp E n = Inr name) \<and> l_write E = (\<lambda>p n d. None)
     \<and> l_read E = (\<lambda>p. None) \<and> (\<exists>wd. l_exe E = Inr wd) \<and> l_run E = (\<lambda>c. None)"

lemma loader_step_refines:
  assumes "calm_loader E" and "lo_inv s" and "loader_request E r s = (q, t)"
  shows "xfer_step (l_hash E) r (lo_abs s) = (q, lo_abs t) \<and> lo_inv t"
proof (cases r)
  case (UploadInfo m)
  obtain name where "l_temp E (lo_temps s) = Inr name" using assms(1) unfolding calm_loader_def by blast
  with UploadInfo assms(3) show ?thesis
    by (auto simp: loader_request_def loader_info_def lo_abs_def lo_inv_def lo_ready_def Let_def)
next
  case (UploadChunk c)
  then show ?thesis
    using assms
    by (cases "lo_file s") (auto simp: loader_request_def loader_chunk_def loader_store_def lo_abs_def lo_inv_def
        lo_ready_def calm_loader_def progress_text_def Let_def split: if_splits)
next
  case (UploadHash h)
  then show ?thesis
    using assms
    by (cases "lo_file s") (auto simp: loader_request_def loader_hash_def lo_abs_def lo_inv_def lo_ready_def
        calm_loader_def Let_def split: option.splits)
next
  case UploadEmpty
  then show ?thesis using assms by (simp add: loader_request_def)
qed

text \<open>
  C20: over a file system that raises no error the handler refines the specification of a
  transfer: for every stream its outcome is the one the specification gives, and its file
  holds what the specification holds.
\<close>

theorem UpdateLoader_refines:
  assumes "calm_loader E"
  shows "xfer_run (l_hash E) inbox NoFile
    = (fst (UpdateLoader E inbox loader_start), lo_abs (snd (UpdateLoader E inbox loader_start)))"
proof -
  have "xfer_run (l_hash E) inbox (lo_abs s) = (fst (UpdateLoader E inbox s), lo_abs (snd (UpdateLoader E inbox s)))"
    if "lo_inv s" for s
    using that
  proof (induction inbox arbitrary: s)
    case (Cons m rest)
    show ?case
    proof (cases m)
      case (Inr r)
      obtain q t where q: "loader_request E r s = (q, t)" by (cases "loader_request E r s")
      note step = loader_step_refines [OF assms Cons.prems q]
      then show ?thesis using Inr q Cons.IH [of t] by (cases q) (auto simp: bind_io_def)
    qed simp
  qed simp
  from this [of loader_start] show ?thesis by (simp add: lo_inv_def lo_abs_def loader_start_def)
qed

section \<open>The verdict\<close>

definition fair_env :: "loader_env \<Rightarrow> string \<Rightarrow> string \<Rightarrow> bool" where
  "fair_env E name wd \<longleftrightarrow> l_temp E 0 = Inr name \<and> l_write E = (\<lambda>p n d. None)
     \<and> l_read E = (\<lambda>p. None) \<and> l_exe E = Inr wd \<and> l_run E = (\<lambda>c. None)"

definition update_script :: "u32 \<Rightarrow> u8 list list \<Rightarrow> string \<Rightarrow> (goerr + UploadRequest) list" where
  "update_script n ds h =
     Inr (UploadInfo \<lparr>md_size = n, md_name = None, md_destination = None\<rparr>)
     # map (\<lambda>d. Inr (UploadChunk \<lparr>ck_seq = 0, ck_data = d\<rparr>)) ds @ [Inr (UploadHash h)]"

lemma loader_store_frame:
  "lo_total (loader_store d s) = lo_total s" "lo_ran (loader_store d s) = lo_ran s"
  "lo_file s = Some (name, off, content) \<Longrightarrow>
   lo_file (loader_store d s) = Some (name, off + length d, pwrite content off d)"
  by (simp_all add: loader_store_def split: option.split)

lemma loader_store_sent: "loader_store d (s\<lparr>lo_sent := x\<rparr>) = (loader_store d s)\<lparr>lo_sent := x\<rparr>"
  by (simp add: loader_store_def split: option.split)

text \<open>After the chunks the handler is where the receiver of chunks is, but for the reports.\<close>

lemma update_chunks:
  assumes "fair_env E name wd" and "lo_total s \<noteq> 0" and "\<exists>off content. lo_file s = Some (name, off, content)"
  shows "\<exists>x. UpdateLoader E (map (\<lambda>d. Inr (UploadChunk \<lparr>ck_seq = 0, ck_data = d\<rparr>)) ds @ rest) s
    = UpdateLoader E rest ((fold loader_store ds s)\<lparr>lo_sent := x\<rparr>)"
  using assms(2,3)
proof (induction ds arbitrary: s)
  case Nil
  show ?case by (intro exI [of _ "lo_sent s"]) simp
next
  case (Cons d ds)
  from Cons.prems(2) obtain off content where f: "lo_file s = Some (name, off, content)" by blast
  let ?s = "loader_store d s"
  obtain t where t: "progress_text (lo_received ?s) (lo_total ?s) = Ok t"
    using Cons.prems(1) by (auto simp: progress_text_def loader_store_frame)
  have req: "loader_request E (UploadChunk \<lparr>ck_seq = 0, ck_data = d\<rparr>) s
      = (Ok False, ?s\<lparr>lo_sent := lo_sent ?s @ [t]\<rparr>)"
    using assms(1) f t by (simp add: loader_request_def loader_chunk_def fair_env_def Let_def)
  have fold_sent: "fold loader_store es (s\<lparr>lo_sent := y\<rparr>) = (fold loader_store es s)\<lparr>lo_sent := y\<rparr>" for es s y
    by (induction es arbitrary: s) (simp_all add: loader_store_sent)
  have "\<exists>x. UpdateLoader E (map (\<lambda>d. Inr (UploadChunk \<lparr>ck_seq = 0, ck_data = d\<rparr>)) ds @ rest)
      (?s\<lparr>lo_sent := lo_sent ?s @ [t]\<rparr>)
    = UpdateLoader E rest ((fold loader_store ds (?s\<lparr>lo_sent := lo_sent ?s @ [t]\<rparr>))\<lparr>lo_sent := x\<rparr>)"
    using Cons.prems f by (intro Cons.IH) (auto simp: loader_store_frame)
  with req show ?case by (simp add: fold_sent bind_io_def)
qed

text \<open>
  When the system raises no error, a stream that announces a positive size, sends chunks
  and a sum is always answered: nil if the chunks have exactly that many bytes and that sum,
  and otherwise the error of the first check that fails, with nothing installed.
\<close>

lemma update_verdict:
  assumes "fair_env E name wd" and "n \<noteq> 0"
  shows "case verify_file (l_hash E) (concat ds) n h of
      None \<Rightarrow> fst (UpdateLoader E (update_script n ds h) loader_start) = Ok ()
        \<and> lo_ran (snd (UpdateLoader E (update_script n ds h) loader_start)) = [install_cmd name wd]
    | Some e \<Rightarrow> fst (UpdateLoader E (update_script n ds h) loader_start) = Err e
        \<and> lo_ran (snd (UpdateLoader E (update_script n ds h) loader_start)) = []"
proof -
  let ?init = "loader_start\<lparr>lo_total := n, lo_file := Some (name, 0, []), lo_temps := 1\<rparr>"
  let ?s = "fold loader_store ds ?init"
  have frame: "lo_total (fold loader_store es s) = lo_total s \<and> lo_ran (fold loader_store es s) = lo_ran s
      \<and> (\<forall>off c. lo_file s = Some (name, off, c) \<longrightarrow> (\<exists>off c. lo_file (fold loader_store es s) = Some (name, off, c)))"
    for es s
    by (induction es arbitrary: s) (auto simp: loader_store_frame)
  have ready: "lo_ready ?init" by (simp add: lo_ready_def)
  from frame [of ds ?init] obtain off c where f: "lo_file ?s = Some (name, off, c)" by auto
  with ldr.puts_content [OF ready, of ds] have c: "c = concat ds" by (simp add: lo_content_def)
  have info: "loader_request E (UploadInfo \<lparr>md_size = n, md_name = None, md_destination = None\<rparr>) loader_start
      = (Ok False, ?init)"
    using assms(1) by (simp add: loader_request_def loader_info_def fair_env_def Let_def loader_start_def)
  obtain x where "UpdateLoader E (update_script n ds h) loader_start
      = UpdateLoader E [Inr (UploadHash h)] (?s\<lparr>lo_sent := x\<rparr>)"
    using info update_chunks [OF assms(1), of ?init ds "[Inr (UploadHash h)]"] assms(2)
    by (auto simp: update_script_def)
  then have u: "UpdateLoader E (update_script n ds h) loader_start
      = bind_io (loader_hash E h) (\<lambda>fin s'. if fin then (Ok (), s') else (Blocked, s')) (?s\<lparr>lo_sent := x\<rparr>)"
    by (simp add: bind_io_def loader_request_def cong: if_cong)
  have fs: "lo_file (?s\<lparr>lo_sent := x\<rparr>) = Some (name, off, concat ds)"
    and ts: "lo_total (?s\<lparr>lo_sent := x\<rparr>) = n" and rs: "lo_ran (?s\<lparr>lo_sent := x\<rparr>) = []"
    using f c frame [of ds ?init] by (auto simp: loader_start_def)
  show ?thesis
    unfolding u using assms(1) fs ts rs
    by (auto simp: bind_io_def loader_hash_def fair_env_def Let_def simp del: loader.select_convs
        split: option.splits)
qed

definition sample_loader :: loader_env where
  "sample_loader = \<lparr>l_hash = (\<lambda>b. take 2 b), l_temp = (\<lambda>n. Inr ''hvl_1''), l_write = (\<lambda>p n d. None),
     l_read = (\<lambda>p. None), l_exe = Inr ''hloader.exe'', l_run = (\<lambda>c. None)\<rparr>"

lemma calm_sample: "calm_loader sample_loader"
  by (simp add: calm_loader_def sample_loader_def)

theorem UpdateLoader_refines_witness:
  "fst (UpdateLoader sample_loader [Inr (UploadChunk \<lparr>ck_seq = 0, ck_data = [1]\<rparr>)] loader_start)
   = Err ''invalid argument''"
  using UpdateLoader_refines [OF calm_sample, of "[Inr (UploadChunk \<lparr>ck_seq = 0, ck_data = [1]\<rparr>)]"]
  by (simp add: bind_io_def)

lemma fair_sample: "fair_env sample_loader ''hvl_1'' ''hloader.exe''"
  by (simp add: fair_env_def sample_loader_def)

lemma hex_1_2: "hex_str [1, 2] = ''0102''"
  by code_simp

lemma update_verdict_witness:
  "lo_ran (snd (UpdateLoader sample_loader (update_script 3 [[1, 2], [3]] ''0102'') loader_start))
   = [install_cmd ''hvl_1'' ''hloader.exe'']"
  using update_verdict [OF fair_sample, of 3 "[[1, 2], [3]]" "''0102''"]
  by (simp add: verify_file_def hex_1_2 sample_loader_def)

theorem update_installs_verified_witness:
  "verified_run sample_loader
     (requests [Inr (UploadInfo \<lparr>md_size = 2, md_name = None, md_destination = None\<rparr>),
        Inr (UploadChunk \<lparr>ck_seq = 0, ck_data = [1, 2]\<rparr>), Inr (UploadHash ''0102'')])
     (snd (UpdateLoader sample_loader
       [Inr (UploadInfo \<lparr>md_size = 2, md_name = None, md_destination = None\<rparr>),
        Inr (UploadChunk \<lparr>ck_seq = 0, ck_data = [1, 2]\<rparr>), Inr (UploadHash ''0102'')] loader_start))"
  by (rule update_installs_verified)
    (simp add: bind_io_def loader_request_def loader_info_def loader_chunk_def loader_store_def loader_hash_def
      sample_loader_def loader_start_def verify_file_def hex_1_2 progress_text_def pwrite_def Let_def)

text \<open>
  An announced size of zero followed by any chunk that is stored makes the handler panic
  on the progress percentage, whatever follows; a chunk or a hash before any announcement is
  answered with an error.
\<close>

lemma update_zero_size_panics:
  assumes "fair_env E name wd" and "md_size m = 0"
  shows "fst (UpdateLoader E (Inr (UploadInfo m) # Inr (UploadChunk c) # rest) loader_start) = Panic DivideByZero
    \<and> fst (UpdateLoader E (Inr (UploadChunk c) # rest) loader_start) = Err ''invalid argument''
    \<and> fst (UpdateLoader E (Inr (UploadHash h) # rest) loader_start) = Err ''seek error:invalid argument''"
  using assms
  by (simp add: bind_io_def loader_request_def loader_info_def loader_chunk_def loader_store_def loader_hash_def
      fair_env_def loader_start_def progress_text_def Let_def)

lemma update_zero_size_panics_witness:
  "fst (UpdateLoader sample_loader [Inr (UploadInfo \<lparr>md_size = 0, md_name = None, md_destination = None\<rparr>),
     Inr (UploadChunk \<lparr>ck_seq = 0, ck_data = []\<rparr>)] loader_start) = Panic DivideByZero"
  using update_zero_size_panics [OF fair_sample, of "\<lparr>md_size = 0, md_name = None, md_destination = None\<rparr>"
      "\<lparr>ck_seq = 0, ck_data = []\<rparr>" "[]"] by simp

end
