(* ===== verification/Win_Session.thy ===== *)
theory Win_Session
  imports Go_Bytes
begin

text \<open>
  The session list of \<open>service/recording_windows.go\<close>: \<open>WTSEnumerateSessions\<close> reads an array the
  system allocated through pointers to a Go struct.  The address space is a function from
  addresses to bytes; amd64 is little-endian and addresses wrap.
\<close>

section \<open>Reading memory\<close>

type_synonym memory = "u64 \<Rightarrow> u8"

definition peek :: "memory \<Rightarrow> u64 \<Rightarrow> nat \<Rightarrow> u8 list" where
  "peek mem a n = map (\<lambda>i. mem (a + word_of_nat i)) [0..<n]"

definition peek_u64 :: "memory \<Rightarrow> u64 \<Rightarrow> u64" where
  "peek_u64 mem a = word_of_nat (le_get (peek mem a 8))"

section \<open>Sessions\<close>

text \<open>The Go struct: every field takes eight bytes.\<close>

type_synonym handle = u64

record WTS_SESSION_INFO =
  si_SessionID :: handle
  si_WinStationName :: u64
  si_State :: int

definition session_at :: "memory \<Rightarrow> u64 \<Rightarrow> WTS_SESSION_INFO" where
  "session_at mem current =
     \<lparr>si_SessionID = peek_u64 mem current, si_WinStationName = peek_u64 mem (current + 8),
      si_State = sint (peek_u64 mem (current + 16))\<rparr>"

definition structSize :: u64 where "structSize = 24"

fun session_loop :: "memory \<Rightarrow> nat \<Rightarrow> u64 \<Rightarrow> WTS_SESSION_INFO list" where
  "session_loop mem 0 current = []"
| "session_loop mem (Suc n) current = session_at mem current # session_loop mem n (current + structSize)"

text \<open>
  The native call: its error, or the address of the array, the count, which it writes as 32
  bits into a zeroed Go \<open>int\<close>, and the memory as it leaves it.
\<close>

definition WTSEnumerateSessions ::
  "goerr + (u64 \<times> u32 \<times> memory) \<Rightarrow> goerr + WTS_SESSION_INFO list" where
  "WTSEnumerateSessions call =
     (case call of
        Inl err \<Rightarrow> Inl (''call native WTSEnumerateSessionsW: '' @ err)
      | Inr (sessionInformation, sessionCount, mem) \<Rightarrow>
          Inr (session_loop mem (unat sessionCount) sessionInformation))"

section \<open>The native layout\<close>

text \<open>
  What Windows writes for a session: two 32-bit fields, each followed by four bytes of padding
  that keep the struct aligned, around the 64-bit pointer to the station name.
\<close>

record native_session =
  ns_id :: u32
  ns_pad1 :: u32
  ns_name :: u64
  ns_state :: u32
  ns_pad2 :: u32

definition native_bytes :: "native_session \<Rightarrow> u8 list" where
  "native_bytes r = put_u32 (ns_id r) @ put_u32 (ns_pad1 r) @ put_u64 (ns_name r)
     @ put_u32 (ns_state r) @ put_u32 (ns_pad2 r)"

text \<open>How the Go struct sees it: the padding is the upper half of the field before it.\<close>

definition go_view :: "native_session \<Rightarrow> WTS_SESSION_INFO" where
  "go_view r =
     \<lparr>si_SessionID = word_of_nat (unat (ns_id r) + 2 ^ 32 * unat (ns_pad1 r)),
      si_WinStationName = ns_name r,
      si_State = sint (word_of_nat (unat (ns_state r) + 2 ^ 32 * unat (ns_pad2 r)) :: u64)\<rparr>"

definition stored_at :: "memory \<Rightarrow> u64 \<Rightarrow> u8 list \<Rightarrow> bool" where
  "stored_at mem a bs \<longleftrightarrow> peek mem a (length bs) = bs"

lemma length_peek [simp]: "length (peek mem a n) = n"
  by (simp add: peek_def)

lemma peek_append: "peek mem a (m + n) = peek mem a m @ peek mem (a + word_of_nat m) n"
  by (rule nth_equalityI) (auto simp: peek_def nth_append add.assoc simp flip: of_nat_add)

lemma stored_at_append:
  "stored_at mem a (xs @ ys) \<longleftrightarrow> stored_at mem a xs \<and> stored_at mem (a + word_of_nat (length xs)) ys"
  by (auto simp: stored_at_def peek_append)

lemma le_get_append: "le_get (xs @ ys) = le_get xs + 256 ^ length xs * le_get ys"
  by (induction xs) (auto simp: algebra_simps)

lemma length_native: "length (native_bytes r) = 24"
  by (simp add: native_bytes_def get_defs)

lemma le_get_u32: "le_get (put_u32 v) = unat v"
  using unsigned_less [of v, where ?'a = nat] by (simp add: put_u32_def le_get_put)

lemma le_get_u64: "le_get (put_u64 v) = unat v"
  using unsigned_less [of v, where ?'a = nat] by (simp add: put_u64_def le_get_put)

lemma session_at_native:
  assumes "stored_at mem a (native_bytes r)"
  shows "session_at mem a = go_view r"
proof -
  have parts: "stored_at mem a (put_u32 (ns_id r))" "stored_at mem (a + 4) (put_u32 (ns_pad1 r))"
    "stored_at mem (a + 8) (put_u64 (ns_name r))" "stored_at mem (a + 16) (put_u32 (ns_state r))"
    "stored_at mem (a + 20) (put_u32 (ns_pad2 r))"
    using assms unfolding native_bytes_def stored_at_append by (simp_all add: put_u32_def put_u64_def add.assoc)
  have "peek mem a 8 = put_u32 (ns_id r) @ put_u32 (ns_pad1 r)"
    "peek mem (a + 8) 8 = put_u64 (ns_name r)"
    "peek mem (a + 16) 8 = put_u32 (ns_state r) @ put_u32 (ns_pad2 r)"
    using parts peek_append [of mem a 4 4] peek_append [of mem "a + 16" 4 4]
    by (simp_all add: stored_at_def put_u32_def put_u64_def add.assoc)
  then show ?thesis
    by (simp add: session_at_def go_view_def peek_u64_def le_get_append le_get_u32 le_get_u64)
      (simp add: put_u32_def)
qed

lemma session_loop_native:
  "stored_at mem a (concat (map native_bytes rs)) \<Longrightarrow> session_loop mem (length rs) a = map go_view rs"
  by (induction rs arbitrary: a)
    (simp_all add: stored_at_append session_at_native length_native structSize_def)

lemma sessions_native:
  assumes "stored_at mem a (concat (map native_bytes rs))" and "length rs < 2 ^ 32"
  shows "WTSEnumerateSessions (Inr (a, word_of_nat (length rs), mem)) = Inr (map go_view rs)"
  using assms by (simp add: WTSEnumerateSessions_def session_loop_native unat_of_nat)

text \<open>A state reads as a named one exactly when its padding is zero.\<close>

lemma go_view_id: "ns_pad1 r = 0 \<Longrightarrow> si_SessionID (go_view r) = ucast (ns_id r)"
  by (simp add: go_view_def)

lemma sint_zero_iff: "sint (w :: u64) = 0 \<longleftrightarrow> w = 0"
proof
  assume "sint w = 0"
  then have "word_of_int (sint w) = (0 :: u64)" by simp
  then show "w = 0" by simp
qed simp

lemma go_view_active: "si_State (go_view r) = 0 \<longleftrightarrow> ns_state r = 0 \<and> ns_pad2 r = 0"
proof -
  let ?n = "unat (ns_state r) + 2 ^ 32 * unat (ns_pad2 r)"
  have b: "unat (ns_state r) < 2 ^ 32" "unat (ns_pad2 r) < 2 ^ 32"
    using unsigned_less [of "ns_state r", where ?'a = nat] unsigned_less [of "ns_pad2 r", where ?'a = nat]
    by simp_all
  then have "?n < 2 ^ 64" by simp
  then have "unat (word_of_nat ?n :: u64) = ?n" by (subst unat_of_nat) simp
  then have "(word_of_nat ?n :: u64) = 0 \<longleftrightarrow> ?n = 0" by (metis unat_eq_zero)
  also have "\<dots> \<longleftrightarrow> ns_state r = 0 \<and> ns_pad2 r = 0" by (simp add: unat_eq_zero)
  finally show ?thesis by (simp only: go_view_def WTS_SESSION_INFO.simps sint_zero_iff)
qed

end
