(* ===== verification/Recording.thy ===== *)
theory Recording
  imports Api Go_Strings Win_Session
begin

text \<open>
  \<open>service/recording.go\<close> and \<open>service/recording_windows.go\<close>: the desktop recorder.  The
  package variables are the state; the RPCs and the progress goroutine of a recording are
  events.  The Windows calls that start a process in the user's session are answered by the
  environment of an event, in the order the code makes them.
\<close>

section \<open>Starting a process in the session of the user\<close>

text \<open>\<open>WTS_CONNECTSTATE_CLASS\<close>, whose constants count from zero.\<close>

datatype WTS_CONNECTSTATE_CLASS =
    WTSActive | WTSConnected | WTSConnectQuery | WTSShadow | WTSDisconnected | WTSIdle
  | WTSListen | WTSReset | WTSDown | WTSInit

fun state_int :: "WTS_CONNECTSTATE_CLASS \<Rightarrow> int" where
  "state_int WTSActive = 0"
| "state_int WTSConnected = 1"
| "state_int WTSConnectQuery = 2"
| "state_int WTSShadow = 3"
| "state_int WTSDisconnected = 4"
| "state_int WTSIdle = 5"
| "state_int WTSListen = 6"
| "state_int WTSReset = 7"
| "state_int WTSDown = 8"
| "state_int WTSInit = 9"

datatype SECURITY_IMPERSONATION_LEVEL =
    SecurityAnonymous | SecurityIdentification | SecurityImpersonation | SecurityDelegation

datatype TOKEN_TYPE = TokenPrimary | TokenImpersonazion

definition SW_HIDE :: u16 where "SW_HIDE = 0"

definition CREATE_UNICODE_ENVIRONMENT :: u32 where "CREATE_UNICODE_ENVIRONMENT = 0x00000400"

definition CREATE_NO_WINDOW :: u32 where "CREATE_NO_WINDOW = 0x08000000"

definition no_session :: handle where "no_session = 0xFFFFFFFF"

text \<open>\<open>windows.StartupInfo\<close> and \<open>windows.ProcessInformation\<close>, as far as they are used.\<close>

record StartupInfo =
  su_ShowWindow :: u16
  su_Desktop :: string
  su_StdErr :: handle
  su_StdOutput :: handle
  su_StdInput :: handle
  su_Flags :: u32

record ProcessInformation =
  pi_Process :: handle
  pi_Thread :: handle
  pi_ProcessId :: u32

text \<open>\<open>STARTF_USESHOWWINDOW | STARTF_USESTDHANDLES\<close>\<close>

definition STARTF_FLAGS :: u32 where "STARTF_FLAGS = or 1 0x100"

text \<open>The calls of Windows, with what they are given and what they answer.\<close>

record proc_env =
  pe_sessions :: "goerr + (u64 \<times> u32 \<times> memory)"
  pe_console :: "handle \<times> goerr"
  pe_query :: "handle \<Rightarrow> goerr + handle"
  pe_dup :: "handle \<Rightarrow> SECURITY_IMPERSONATION_LEVEL \<Rightarrow> TOKEN_TYPE \<Rightarrow> goerr + handle"
  pe_close :: "handle \<Rightarrow> goerr option"
  pe_block :: "handle \<Rightarrow> goerr + handle"
  pe_out_pipe :: "goerr + (handle \<times> handle)"
  pe_out_info :: "handle \<Rightarrow> goerr option"
  pe_in_pipe :: "goerr + (handle \<times> handle)"
  pe_in_info :: "handle \<Rightarrow> goerr option"
  pe_create :: "handle \<Rightarrow> string \<Rightarrow> string \<Rightarrow> string \<Rightarrow> u32 \<Rightarrow> StartupInfo \<Rightarrow> goerr + ProcessInformation"

text \<open>
  The state of the calls: \<open>proc_stdin_wr\<close>, and the handles the agent was given and has not closed.
\<close>

record proc_handles =
  ph_stdin_wr :: handle
  ph_open :: "handle list"

definition keep :: "handle list \<Rightarrow> (proc_handles, unit) io" where
  "keep hs s = (Ok (), s\<lparr>ph_open := ph_open s @ hs\<rparr>)"

text \<open>A call that answers with an error and its context, and a check that gives nothing else.\<close>

definition answer :: "string \<Rightarrow> goerr + 'a \<Rightarrow> ('s, 'a) io" where
  "answer msg r s = (case r of Inl err \<Rightarrow> (Err (msg @ err), s) | Inr x \<Rightarrow> (Ok x, s))"

definition check :: "goerr option \<Rightarrow> ('s, unit) io" where
  "check r s = (case r of Some err \<Rightarrow> (Err err, s) | None \<Rightarrow> (Ok (), s))"

fun first_active :: "WTS_SESSION_INFO list \<Rightarrow> handle option" where
  "first_active [] = None"
| "first_active (session # ss) =
     (if si_State session = state_int WTSActive then Some (si_SessionID session) else first_active ss)"

definition GetCurrentUserSessionId :: "proc_env \<Rightarrow> handle res" where
  "GetCurrentUserSessionId E =
     (case WTSEnumerateSessions (pe_sessions E) of
        Inl err \<Rightarrow> Err (''get current user session token: '' @ err)
      | Inr sessionList \<Rightarrow>
          (case first_active sessionList of
             Some sid \<Rightarrow> Ok sid
           | None \<Rightarrow>
               (case pe_console E of
                  (sessionId, err) \<Rightarrow>
                    if sessionId = no_session
                    then Err (''get current user session token: call native WTSGetActiveConsoleSessionId: '' @ err)
                    else Ok sessionId)))"

definition DuplicateUserTokenFromSessionID :: "proc_env \<Rightarrow> handle \<Rightarrow> (proc_handles, handle) io" where
  "DuplicateUserTokenFromSessionID E sessionId =
     bind_io (answer ''call native WTSQueryUserToken: '' (pe_query E sessionId)) (\<lambda>impersonationToken s.
       case pe_dup E impersonationToken SecurityImpersonation TokenPrimary of
         Inl err \<Rightarrow> bind_io (keep [impersonationToken]) (\<lambda>_. fail (''call native DuplicateTokenEx: '' @ err)) s
       | Inr userToken \<Rightarrow>
           (case pe_close E impersonationToken of
              Some err \<Rightarrow>
                bind_io (keep [impersonationToken, userToken])
                  (\<lambda>_. fail (''close windows handle used for token duplication: '' @ err)) s
            | None \<Rightarrow> bind_io (keep [userToken]) (\<lambda>_. ret userToken) s))"

definition wrap_err :: "string \<Rightarrow> ('s, 'a) io \<Rightarrow> ('s, 'a) io" where
  "wrap_err msg m s = (case m s of (Err e, s') \<Rightarrow> (Err (msg @ e), s') | r \<Rightarrow> r)"

text \<open>What the encoder's process is started with.\<close>

definition startup_info :: "handle \<Rightarrow> handle \<Rightarrow> StartupInfo" where
  "startup_info stdin_rd stdout_wr =
     \<lparr>su_ShowWindow = SW_HIDE, su_Desktop = ''winsta0'' @ [CHR 0x5C] @ ''default'', su_StdErr = stdout_wr,
      su_StdOutput = stdout_wr, su_StdInput = stdin_rd, su_Flags = STARTF_FLAGS\<rparr>"

text \<open>\<open>proc_stdin_wr\<close> is set once both pipes exist, also when the creation then fails.\<close>

definition StartProcessAsCurrentUser ::
  "proc_env \<Rightarrow> string \<Rightarrow> string \<Rightarrow> string \<Rightarrow> (proc_handles, u32) io" where
  "StartProcessAsCurrentUser E appPath cmdLine workDir =
     bind_io (\<lambda>s. (GetCurrentUserSessionId E, s)) (\<lambda>sessionId.
     bind_io (wrap_err ''get duplicate user token for current user session: ''
                (DuplicateUserTokenFromSessionID E sessionId)) (\<lambda>userToken.
     bind_io (answer ''create environment details for process: '' (pe_block E userToken)) (\<lambda>envInfo.
     bind_io (keep [envInfo]) (\<lambda>_.
     bind_io (answer [] (pe_out_pipe E)) (\<lambda>(stdout_rd, stdout_wr).
     bind_io (keep [stdout_rd, stdout_wr]) (\<lambda>_.
     bind_io (check (pe_out_info E stdout_rd)) (\<lambda>_.
     bind_io (answer [] (pe_in_pipe E)) (\<lambda>(stdin_rd, stdin_wr).
     bind_io (keep [stdin_rd, stdin_wr]) (\<lambda>_.
     bind_io (check (pe_in_info E stdin_wr)) (\<lambda>_.
     bind_io (\<lambda>s. (Ok (), s\<lparr>ph_stdin_wr := stdin_wr\<rparr>)) (\<lambda>_.
     bind_io (answer ''create process as user: ''
                (pe_create E userToken appPath cmdLine workDir
                   (or CREATE_UNICODE_ENVIRONMENT CREATE_NO_WINDOW) (startup_info stdin_rd stdout_wr))) (\<lambda>p.
     bind_io (keep [pi_Process p, pi_Thread p]) (\<lambda>_.
       ret (pi_ProcessId p))))))))))))))"

section \<open>The recorder\<close>

text \<open>
  The progress goroutine of a recording: none, waiting for the encoder to connect, reading
  its progress lines.  A non-nil \<open>reader\<close> is the flag \<open>rc_reader\<close>.
\<close>

datatype conn = NoConn | Accepting | Reading

record recorder =
  rc_status :: string
  rc_time :: string
  rc_reader :: bool
  rc_pid :: u32
  rc_stdin :: handle
  rc_open :: "handle list"
  rc_conn :: conn
  rc_keys :: "handle list"
  rc_reply :: "(string \<times> goerr option) option"
  rc_crash :: "panic option"

definition rec_init :: recorder where
  "rec_init = \<lparr>rc_status = ''idle'', rc_time = ''0'', rc_reader = False, rc_pid = 0, rc_stdin = 0, rc_open = [],
     rc_conn = NoConn, rc_keys = [], rc_reply = None, rc_crash = None\<rparr>"

record start_env =
  se_resolve :: "goerr option"
  se_listen :: "goerr + string"
  se_proc :: proc_env

definition ffmpeg_cmd :: "string \<Rightarrow> string" where
  "ffmpeg_cmd addr =
     ''ffmpeg -f gdigrab -framerate 30 -i desktop c:/rec.mkv -progress tcp://'' @ addr @ '' -y''"

definition rec_start :: "start_env \<Rightarrow> (recorder, unit) io" where
  "rec_start E s =
     (if rc_reader s then (Err ''not available'', s)
      else case se_resolve E of
        Some err \<Rightarrow> (Err err, s)
      | None \<Rightarrow>
          (case se_listen E of
             Inl err \<Rightarrow> (Err err, s)
           | Inr addr \<Rightarrow>
               (let s1 = s\<lparr>rc_reader := True\<rparr>;
                    (r, h) = StartProcessAsCurrentUser (se_proc E) ''C:/windows/system32/ffmpeg.exe''
                               (ffmpeg_cmd addr) [] \<lparr>ph_stdin_wr = rc_stdin s1, ph_open = rc_open s1\<rparr>;
                    s2 = s1\<lparr>rc_stdin := ph_stdin_wr h, rc_open := ph_open h\<rparr> in
                case r of
                  Ok processId \<Rightarrow>
                    (Ok (), s2\<lparr>rc_pid := processId, rc_conn := Accepting, rc_status := ''starting''\<rparr>)
                | Err e \<Rightarrow> (Err e, s2)
                | Panic p \<Rightarrow> (Panic p, s2)
                | Blocked \<Rightarrow> (Blocked, s2))))"

text \<open>\<open>rec_stop\<close>: the key is written to the handle there is, also when nothing records.\<close>

definition rec_stop :: "(handle \<Rightarrow> goerr option) \<Rightarrow> (recorder, unit) io" where
  "rec_stop write_q s =
     (if rc_status s = ''stopping'' then (Err ''stop in queue'', s)
      else
        let s1 = s\<lparr>rc_status := ''stopping''\<rparr> in
        case write_q (rc_stdin s1) of
          Some err \<Rightarrow> (Err err, s1)
        | None \<Rightarrow> (Ok (), s1\<lparr>rc_keys := rc_keys s1 @ [rc_stdin s1]\<rparr>))"

definition RecordControl ::
  "start_env \<Rightarrow> (handle \<Rightarrow> goerr option) \<Rightarrow> string \<Rightarrow> recorder \<Rightarrow> recorder" where
  "RecordControl E write_q command s =
     (let (err, t) = (if command = ''start'' then rec_start E s
                      else if command = ''stop'' then rec_stop write_q s
                      else (Ok (), s)) in
      case err of
        Ok _ \<Rightarrow> t\<lparr>rc_reply := Some (rc_status t, None)\<rparr>
      | Err e \<Rightarrow> t\<lparr>rc_reply := Some (rc_status t, Some e)\<rparr>
      | Panic p \<Rightarrow> t\<lparr>rc_crash := Some p\<rparr>
      | Blocked \<Rightarrow> t)"

definition RecordStatus :: "recorder \<Rightarrow> RecordStatusResponse" where
  "RecordStatus s = \<lparr>rs_status = rc_status s, rs_time = rc_time s\<rparr>"

text \<open>One progress line of the encoder; the package variables are written without the lock.\<close>

definition progress_line :: "string \<Rightarrow> recorder \<Rightarrow> recorder" where
  "progress_line line s =
     (let a = str_split ''='' line in
      if a ! 0 = ''out_time'' then
        (if length a < 2 then s\<lparr>rc_crash := Some IndexRange\<rparr>
         else s\<lparr>rc_time := a ! 1, rc_status := ''recording''\<rparr>)
      else s)"

section \<open>Events\<close>

datatype rec_event =
    Control start_env "handle \<Rightarrow> goerr option" string
  | Accept bool
  | Line string
  | ReadFailed

text \<open>
  The goroutine's events happen only in its states; after a panic nothing happens.  When the
  connection is closed the goroutine sets the status and clears \<open>reader\<close>; when accepting
  fails it only ends.
\<close>

fun rec_step :: "recorder \<Rightarrow> rec_event \<Rightarrow> recorder" where
  "rec_step s (Control E write_q command) =
     (if rc_crash s \<noteq> None then s else RecordControl E write_q command s)"
| "rec_step s (Accept ok) =
     (if rc_crash s \<noteq> None \<or> rc_conn s \<noteq> Accepting then s
      else if ok then s\<lparr>rc_conn := Reading\<rparr> else s\<lparr>rc_conn := NoConn\<rparr>)"
| "rec_step s (Line line) =
     (if rc_crash s \<noteq> None \<or> rc_conn s \<noteq> Reading then s else progress_line line s)"
| "rec_step s ReadFailed =
     (if rc_crash s \<noteq> None \<or> rc_conn s \<noteq> Reading then s
      else s\<lparr>rc_status := ''finish'', rc_reader := False, rc_conn := NoConn\<rparr>)"

end
