(* ===== verification/Recording_Correct.thy ===== *)
theory Recording_Correct
  imports Recording
begin

text \<open>
  What the recorder guarantees over any sequence of events: the reachable combinations of
  its variables, when a recording can be started again and when never, what stopping does,
  and which progress line brings the process down.  The facts on runs come from two
  interpretations of the generic machine.
\<close>

section \<open>Invariants\<close>

definition rec_wf :: "recorder \<Rightarrow> bool" where
  "rec_wf s \<longleftrightarrow> (rc_conn s \<noteq> NoConn \<longrightarrow> rc_reader s)
     \<and> rc_status s \<in> {''idle'', ''starting'', ''recording'', ''stopping'', ''finish''}"

text \<open>The recorder can never be started again: its reader is set, its goroutine gone.\<close>

definition wedged :: "recorder \<Rightarrow> bool" where
  "wedged s \<longleftrightarrow> rc_reader s \<and> rc_conn s = NoConn"

lemmas rec_defs = RecordControl_def rec_start_def rec_stop_def Let_def

lemma rec_control_frame:
  "rc_reader s \<Longrightarrow> rc_reader (RecordControl E w c s) \<and> rc_conn (RecordControl E w c s) = rc_conn s"
  by (auto simp: rec_defs split: option.splits sum.splits res.splits prod.splits)

lemma rec_control_wf: "rec_wf s \<Longrightarrow> rec_wf (RecordControl E w c s)"
  by (auto simp: rec_defs rec_wf_def split: option.splits sum.splits res.splits prod.splits)

interpretation wf: invariant_machine rec_step rec_wf
proof
  fix s e
  assume "rec_wf s"
  then show "rec_wf (rec_step s e)"
    by (cases e) (auto simp: rec_control_wf progress_line_def Let_def, auto simp: rec_wf_def)
qed

interpretation wdg: invariant_machine rec_step wedged
proof
  fix s e
  assume "wedged s"
  then show "wedged (rec_step s e)"
    using rec_control_frame [of s] by (cases e) (auto simp: wedged_def)
qed

text \<open>The abstract recorder: what a client can still expect of it.\<close>

datatype rec_phase = Free | Launching | Active | Lost

definition rec_abs :: "recorder \<Rightarrow> rec_phase" where
  "rec_abs s =
     (if rc_reader s then (case rc_conn s of NoConn \<Rightarrow> Lost | Accepting \<Rightarrow> Launching | Reading \<Rightarrow> Active)
      else Free)"

inductive rec_spec :: "rec_phase \<Rightarrow> rec_phase \<Rightarrow> bool" where
  stay: "rec_spec x x"
| launch: "rec_spec Free Launching"
| launch_fails: "rec_spec Free Lost"
| connect: "rec_spec Launching Active"
| connect_fails: "rec_spec Launching Lost"
| disconnect: "rec_spec Active Free"

inductive_simps rec_spec_Lost: "rec_spec Lost y"

lemma rec_spec_iff:
  "rec_spec x y \<longleftrightarrow> x = y \<or> x = Free \<and> y \<noteq> Active \<or> x = Launching \<and> y \<noteq> Free \<or> x = Active \<and> y = Free"
  by (cases x; cases y) (auto elim: rec_spec.cases intro: rec_spec.intros)

lemma rec_control_conn: "rc_conn s = NoConn \<Longrightarrow> rc_conn (RecordControl E w c s) \<noteq> Reading"
  by (auto simp: rec_defs split: option.splits sum.splits res.splits prod.splits)

lemma rec_control_spec:
  assumes "rec_wf s"
  shows "rec_spec (rec_abs s) (rec_abs (RecordControl E w c s))"
proof (cases "rc_reader s")
  case True
  from rec_control_frame [OF True] have "rec_abs (RecordControl E w c s) = rec_abs s"
    by (simp add: rec_abs_def True)
  then show ?thesis by (simp add: rec_spec_iff)
next
  case False
  with assms have "rc_conn s = NoConn" by (auto simp: rec_wf_def)
  from rec_control_conn [OF this] have "rec_abs (RecordControl E w c s) \<noteq> Active"
    by (simp add: rec_abs_def split: conn.split)
  with False show ?thesis by (simp add: rec_abs_def rec_spec_iff)
qed

interpretation rf: refinement_map rec_step rec_wf rec_abs rec_spec
proof
  fix s e
  assume wf: "rec_wf s"
  show "rec_spec (rec_abs s) (rec_abs (rec_step s e))"
  proof (cases e)
    case (Control E w c)
    then show ?thesis using rec_control_spec [OF wf] by (simp add: rec_spec_iff)
  next
    case (Line l)
    have "rec_abs (progress_line l s) = rec_abs s" by (simp add: rec_abs_def progress_line_def Let_def)
    with Line show ?thesis by (simp add: rec_spec_iff)
  qed (auto simp: rec_abs_def rec_spec_iff)
qed

text \<open>
  C26: the recorder refines the abstract one: over any events its phase moves from free to
  launching to active and back to free, and the two failures (the process, the connection)
  lead to a phase that no event leaves and in which a start is refused.
\<close>

theorem recorder_refines:
  "rec_spec\<^sup>*\<^sup>* Free (rec_abs (run rec_step rec_init es))
   \<and> (rec_abs (run rec_step rec_init es) = Lost \<longrightarrow>
        rec_abs (run rec_step rec_init (es @ es')) = Lost
        \<and> rec_start E (run rec_step rec_init (es @ es')) = (Err ''not available'', run rec_step rec_init (es @ es')))"
proof (intro conjI impI)
  have wf: "rec_wf rec_init" by (simp add: rec_wf_def rec_init_def)
  show "rec_spec\<^sup>*\<^sup>* Free (rec_abs (run rec_step rec_init es))"
    using rf.run_simulates [OF wf, of es] by (simp add: rec_abs_def rec_init_def)
  assume lost: "rec_abs (run rec_step rec_init es) = Lost"
  have "rec_spec\<^sup>*\<^sup>* Lost x \<Longrightarrow> x = Lost" for x
    by (induction rule: rtranclp_induct) (auto simp: rec_spec_Lost)
  then show l: "rec_abs (run rec_step rec_init (es @ es')) = Lost"
    using rf.run_simulates [OF wf.run_inv [OF wf, of es], of es'] lost by simp
  show "rec_start E (run rec_step rec_init (es @ es')) = (Err ''not available'', run rec_step rec_init (es @ es'))"
    using l by (auto simp: rec_start_def rec_abs_def split: if_splits)
qed

text \<open>
  After any events the status is one of the five the interface documents, and a progress
  goroutine exists only while the recorder is taken.
\<close>

lemma recorder_status:
  "rc_status (run rec_step rec_init es) \<in> {''idle'', ''starting'', ''recording'', ''stopping'', ''finish''}
   \<and> (rc_conn (run rec_step rec_init es) = NoConn \<or> rc_reader (run rec_step rec_init es))"
  using wf.run_inv [of rec_init es] by (auto simp: rec_wf_def rec_init_def)

section \<open>Starting\<close>

lemma start_wedges:
  assumes "rec_wf s" and "\<not> rc_reader s" and "rec_start E s = (Err e, t)" and "rc_reader t"
  shows "wedged t"
proof -
  have "rc_conn s = NoConn" using assms(1,2) by (auto simp: rec_wf_def)
  moreover have "rc_conn t = rc_conn s"
    using assms(2,3) by (auto simp: rec_start_def Let_def split: option.splits sum.splits res.splits prod.splits)
  ultimately show ?thesis using assms(4) by (simp add: wedged_def)
qed

text \<open>
  When starting the encoder fails after the progress listener was opened, the recorder
  is lost for good: whatever happens later, a start is answered \<open>not available\<close>.  The same
  holds once the encoder's connection could not be accepted.
\<close>

lemma recorder_wedge:
  assumes "\<not> rc_reader (run rec_step rec_init es)" and "rc_crash (run rec_step rec_init es) = None"
    and "se_resolve E = None" and "se_listen E = Inr addr"
    and "fst (StartProcessAsCurrentUser (se_proc E) ''C:/windows/system32/ffmpeg.exe'' (ffmpeg_cmd addr) []
            \<lparr>ph_stdin_wr = rc_stdin (run rec_step rec_init es), ph_open = rc_open (run rec_step rec_init es)\<rparr>) = Err e"
  shows "fst (rec_start E' (run rec_step rec_init (es @ [Control E w ''start''] @ es'))) = Err ''not available''"
proof -
  let ?s = "run rec_step rec_init es"
  have wf: "rec_wf ?s" by (rule wf.run_inv) (simp add: rec_wf_def rec_init_def)
  obtain h where "StartProcessAsCurrentUser (se_proc E) ''C:/windows/system32/ffmpeg.exe'' (ffmpeg_cmd addr) []
      \<lparr>ph_stdin_wr = rc_stdin ?s, ph_open = rc_open ?s\<rparr> = (Err e, h)"
    using assms(5) by (metis prod.collapse)
  then have t: "rec_start E ?s = (Err e, ?s\<lparr>rc_reader := True, rc_stdin := ph_stdin_wr h, rc_open := ph_open h\<rparr>)"
      "rc_reader (?s\<lparr>rc_reader := True, rc_stdin := ph_stdin_wr h, rc_open := ph_open h\<rparr>)"
    using assms(1,3,4) by (simp_all add: rec_start_def)
  have "wedged (?s\<lparr>rc_reader := True, rc_stdin := ph_stdin_wr h, rc_open := ph_open h\<rparr>)" by (rule start_wedges [OF wf assms(1) t])
  then have "wedged (rec_step ?s (Control E w ''start''))"
    using t(1) assms(2) by (simp add: RecordControl_def wedged_def)
  then have "wedged (run rec_step rec_init (es @ [Control E w ''start''] @ es'))"
    using wdg.run_inv [of "rec_step ?s (Control E w ''start'')" es'] by simp
  then show ?thesis by (simp add: wedged_def rec_start_def)
qed

definition no_user :: start_env where
  "no_user = \<lparr>se_resolve = None, se_listen = Inr ''127.0.0.1:5000'', se_proc =
     \<lparr>pe_sessions = Inl ''no server'', pe_console = (no_session, ''none''), pe_query = (\<lambda>h. Inl ''q''), pe_dup = (\<lambda>h l t. Inl ''d''),
      pe_close = (\<lambda>h. None), pe_block = (\<lambda>h. Inr 40), pe_out_pipe = Inl ''p'', pe_out_info = (\<lambda>h. None),
      pe_in_pipe = Inl ''p'', pe_in_info = (\<lambda>h. None), pe_create = (\<lambda>h a c d f i. Inl ''c'')\<rparr>\<rparr>"

text \<open>Three sessions in memory: disconnected, active, active.\<close>

definition sample_sessions :: "native_session list" where
  "sample_sessions =
     [\<lparr>ns_id = 7, ns_pad1 = 0, ns_name = 0, ns_state = 4, ns_pad2 = 0\<rparr>,
      \<lparr>ns_id = 2, ns_pad1 = 0, ns_name = 0, ns_state = 0, ns_pad2 = 0\<rparr>,
      \<lparr>ns_id = 3, ns_pad1 = 0, ns_name = 0, ns_state = 0, ns_pad2 = 0\<rparr>]"

definition sample_memory :: memory where
  "sample_memory a = (let bs = concat (map native_bytes sample_sessions) in
     if unat (a - 4096) < length bs then bs ! unat (a - 4096) else 0)"

definition good_proc :: proc_env where
  "good_proc = \<lparr>pe_sessions = Inr (4096, 3, sample_memory), pe_console = (1, []), pe_query = (\<lambda>h. Inr (h + 10)),
     pe_dup = (\<lambda>h l t. Inr (h + 10)), pe_close = (\<lambda>h. None), pe_block = (\<lambda>h. Inr 40), pe_out_pipe = Inr (50, 51),
     pe_out_info = (\<lambda>h. None), pe_in_pipe = Inr (52, 53), pe_in_info = (\<lambda>h. None),
     pe_create = (\<lambda>h a c d f i. Inr \<lparr>pi_Process = 60, pi_Thread = 61, pi_ProcessId = 4242\<rparr>)\<rparr>"

definition with_user :: start_env where
  "with_user = \<lparr>se_resolve = None, se_listen = Inr ''127.0.0.1:5000'', se_proc = good_proc\<rparr>"

theorem recorder_refines_witness:
  "rec_start with_user (run rec_step rec_init ([Control no_user (\<lambda>h. None) ''start''] @ [Accept True]))
   = (Err ''not available'', run rec_step rec_init ([Control no_user (\<lambda>h. None) ''start''] @ [Accept True]))"
proof -
  have "rec_abs (run rec_step rec_init [Control no_user (\<lambda>h. None) ''start'']) = Lost"
    by (simp add: rec_abs_def RecordControl_def rec_start_def rec_init_def no_user_def
        StartProcessAsCurrentUser_def GetCurrentUserSessionId_def
        WTSEnumerateSessions_def Let_def)
  with recorder_refines [of "[Control no_user (\<lambda>h. None) ''start'']" "[Accept True]" with_user]
  show ?thesis by blast
qed

lemma recorder_wedge_witness:
  "fst (rec_start with_user (run rec_step rec_init ([] @ [Control no_user (\<lambda>h. None) ''start''] @ [ReadFailed])))
   = Err ''not available''"
  by (rule recorder_wedge [where addr = "''127.0.0.1:5000''"])
    (simp_all add: rec_init_def no_user_def StartProcessAsCurrentUser_def GetCurrentUserSessionId_def
        WTSEnumerateSessions_def Let_def)

text \<open>The session of the console, and the first active one among native records.\<close>

definition console_session :: "proc_env \<Rightarrow> handle res" where
  "console_session E =
     (case pe_console E of (sessionId, err) \<Rightarrow>
        if sessionId = no_session
        then Err (''get current user session token: call native WTSGetActiveConsoleSessionId: '' @ err)
        else Ok sessionId)"

lemma first_active_native:
  "(\<forall>r \<in> set rs. ns_pad1 r = 0 \<and> ns_pad2 r = 0) \<Longrightarrow> first_active (map go_view rs)
     = (case find (\<lambda>r. ns_state r = 0) rs of Some r \<Rightarrow> Some (ucast (ns_id r)) | None \<Rightarrow> None)"
  "(\<forall>r \<in> set rs. ns_pad2 r \<noteq> 0) \<Longrightarrow> first_active (map go_view rs) = None"
  by (induction rs) (auto simp: go_view_active go_view_id)

text \<open>
  Starting the encoder uses the first active session of the list (of the console when
  none is active), a process is created only through that session's token, and the handle for
  the stop key changes only if both pipes were made, also when the creation then fails.
\<close>

lemmas start_defs = StartProcessAsCurrentUser_def DuplicateUserTokenFromSessionID_def wrap_err_def
  answer_def check_def keep_def bind_io_def

lemma StartProcess_session:
  assumes "StartProcessAsCurrentUser E app cmd dir s = (r, s')"
  shows "(is_ok r \<longrightarrow> (\<exists>sid imp tok flags info p. GetCurrentUserSessionId E = Ok sid \<and> pe_query E sid = Inr imp
            \<and> pe_dup E imp SecurityImpersonation TokenPrimary = Inr tok
            \<and> pe_create E tok app cmd dir flags info = Inr p \<and> r = Ok (pi_ProcessId p)))
    \<and> (ph_stdin_wr s' \<noteq> ph_stdin_wr s
         \<longrightarrow> (\<exists>ro wo ri. pe_out_pipe E = Inr (ro, wo) \<and> pe_in_pipe E = Inr (ri, ph_stdin_wr s')))"
proof (intro conjI)
  show "is_ok r \<longrightarrow> (\<exists>sid imp tok flags info p. GetCurrentUserSessionId E = Ok sid \<and> pe_query E sid = Inr imp
      \<and> pe_dup E imp SecurityImpersonation TokenPrimary = Inr tok
      \<and> pe_create E tok app cmd dir flags info = Inr p \<and> r = Ok (pi_ProcessId p))"
    using assms by (auto simp: start_defs split: res.splits option.splits sum.splits prod.splits)
  show "ph_stdin_wr s' \<noteq> ph_stdin_wr s
      \<longrightarrow> (\<exists>ro wo ri. pe_out_pipe E = Inr (ro, wo) \<and> pe_in_pipe E = Inr (ri, ph_stdin_wr s'))"
    using assms by (auto simp: start_defs split: res.splits option.splits sum.splits prod.splits)
qed

text \<open>
  No call of the recorder closes a handle it was given but the impersonation token: every
  successful start keeps eight of them, the agent's own copies of the ends it handed to the
  encoder among them.
\<close>

lemma StartProcess_keeps:
  assumes "StartProcessAsCurrentUser E app cmd dir s = (r, s')"
  shows "\<exists>hs. ph_open s' = ph_open s @ hs \<and> (is_ok r \<longrightarrow> length hs = 8
    \<and> (\<exists>rd wr. pe_out_pipe E = Inr (rd, wr) \<and> wr \<in> set hs))"
  using assms by (auto simp: start_defs split: res.splits option.splits sum.splits prod.splits)

lemma rec_step_keeps: "prefix (rc_open s) (rc_open (rec_step s ev))"
proof (cases ev)
  case (Control E w command)
  have "prefix (rc_open s) (rc_open (snd (rec_start E s)))"
    using StartProcess_keeps [of "se_proc E" "''C:/windows/system32/ffmpeg.exe''" _ "[]"
        "\<lparr>ph_stdin_wr = rc_stdin s, ph_open = rc_open s\<rparr>"]
    by (auto simp: rec_start_def Let_def split: option.splits sum.splits prod.splits res.splits) fastforce+
  moreover have "rc_open (snd (rec_stop w s)) = rc_open s"
    by (simp add: rec_stop_def Let_def split: option.split)
  ultimately show ?thesis using Control
    by (auto simp: RecordControl_def Let_def split: prod.splits res.splits)
next
  case (Line line)
  then show ?thesis by (simp add: progress_line_def Let_def)
qed auto

text \<open>So the handles only grow over the life of the agent.\<close>

lemma handles_grow: "prefix (rc_open s) (rc_open (run rec_step s es))"
proof (induction es arbitrary: s)
  case (Cons e es)
  from prefix_order.trans [OF rec_step_keeps [of s e] Cons.IH [of "rec_step s e"]] show ?case by simp
qed simp

lemma recording_keeps_handles:
  assumes "rec_start E s = (Ok (), t)"
  shows "length (rc_open t) = length (rc_open s) + 8"
  using assms StartProcess_keeps [of "se_proc E" "''C:/windows/system32/ffmpeg.exe''" _ "[]"
      "\<lparr>ph_stdin_wr = rc_stdin s, ph_open = rc_open s\<rparr>"]
  by (auto simp: rec_start_def Let_def split: option.splits sum.splits prod.splits res.splits if_splits) fastforce

text \<open>
  C30: from the array the system writes for its sessions, the encoder's session is that of the
  first active one, and the console's when none is active, provided the padding of the
  native structs is zero: the Go struct reads it as the upper half of the fields.  With other
  padding behind each state no session is taken for active.
\<close>

theorem active_session_native:
  assumes "pe_sessions E = Inr (a, word_of_nat (length rs), mem)"
    and "stored_at mem a (concat (map native_bytes rs))" and "length rs < 2 ^ 32"
  shows "((\<forall>r \<in> set rs. ns_pad1 r = 0 \<and> ns_pad2 r = 0) \<longrightarrow> GetCurrentUserSessionId E =
            (case find (\<lambda>r. ns_state r = 0) rs of Some r \<Rightarrow> Ok (ucast (ns_id r)) | None \<Rightarrow> console_session E))
    \<and> ((\<forall>r \<in> set rs. ns_pad2 r \<noteq> 0) \<longrightarrow> GetCurrentUserSessionId E = console_session E)"
proof -
  have g: "GetCurrentUserSessionId E =
      (case first_active (map go_view rs) of Some sid \<Rightarrow> Ok sid | None \<Rightarrow> console_session E)"
    using assms sessions_native [OF assms(2,3)] by (simp add: GetCurrentUserSessionId_def console_session_def split: option.split)
  show ?thesis using first_active_native [of rs] by (auto simp: g split: option.splits)
qed

lemma sample_stored: "stored_at sample_memory 4096 (concat (map native_bytes sample_sessions))"
  by code_simp

lemma good_session: "GetCurrentUserSessionId good_proc = Ok 2"
  using sessions_native [OF sample_stored] first_active_native(1) [of sample_sessions]
  by (simp add: GetCurrentUserSessionId_def good_proc_def sample_sessions_def)

theorem active_session_native_witness: "GetCurrentUserSessionId good_proc = Ok 2"
  using active_session_native [OF _ sample_stored, of good_proc]
  by (simp add: good_proc_def sample_sessions_def)

section \<open>A recording and its end\<close>

text \<open>The time the last progress line with a time carries.\<close>

fun last_time :: "string \<Rightarrow> string list \<Rightarrow> string" where
  "last_time t [] = t"
| "last_time t (l # ls) =
     last_time (let a = str_split ''='' l in if a ! 0 = ''out_time'' then a ! 1 else t) ls"

lemma progress_time: "line \<noteq> ''out_time'' \<Longrightarrow> rc_crash (progress_line line s) = rc_crash s
    \<and> rc_reader (progress_line line s) = rc_reader s \<and> rc_conn (progress_line line s) = rc_conn s
    \<and> rc_time (progress_line line s) = last_time (rc_time s) [line]"
proof -
  assume l: "line \<noteq> ''out_time''"
  have "2 \<le> length (str_split ''='' line)" if "str_split ''='' line ! 0 = ''out_time''"
  proof (rule ccontr)
    assume "\<not> 2 \<le> length (str_split ''='' line)"
    then have "str_split ''='' line = [''out_time'']"
      using that by (cases "str_split ''='' line"; cases "tl (str_split ''='' line)") auto
    with str_join_split [of "''=''" line] l show False by simp
  qed
  then show ?thesis by (auto simp: progress_line_def Let_def)
qed

lemma progress_run:
  assumes "rc_crash s = None" and "rc_conn s = Reading" and "\<forall>l \<in> set ls. l \<noteq> ''out_time''"
  shows "let t = run rec_step s (map Line ls) in rc_crash t = None \<and> rc_reader t = rc_reader s
    \<and> rc_conn t = Reading \<and> rc_time t = last_time (rc_time s) ls"
  using assms
proof (induction ls arbitrary: s)
  case (Cons l ls)
  have "rec_step s (Line l) = progress_line l s" using Cons.prems by simp
  moreover note progress_time [of l s]
  ultimately show ?case using Cons.IH [of "progress_line l s"] Cons.prems by (simp add: Let_def)
qed simp

text \<open>
  C27: a recording that was started, whose encoder connects, reports and disconnects, ends in
  the status \<open>finish\<close> with the time of the last report, and the recorder can be started
  again.
\<close>

theorem recording_completes:
  assumes "rc_crash s = None" and "rec_start E s = (Ok (), t)" and "\<forall>l \<in> set ls. l \<noteq> ''out_time''"
  shows "let u = run rec_step s ([Control E w ''start'', Accept True] @ map Line ls @ [ReadFailed]) in
    rc_status u = ''finish'' \<and> rc_time u = last_time (rc_time s) ls \<and> \<not> rc_reader u \<and> rc_crash u = None"
proof -
  let ?a = "(t\<lparr>rc_reply := Some (rc_status t, None)\<rparr>)\<lparr>rc_conn := Reading\<rparr>"
  have "rc_conn t = Accepting \<and> rc_crash t = rc_crash s \<and> rc_time t = rc_time s"
    using assms(2) by (auto simp: rec_start_def Let_def split: option.splits sum.splits res.splits prod.splits if_splits)
  then have a: "run rec_step s [Control E w ''start'', Accept True] = ?a" "rc_crash ?a = None" "rc_time ?a = rc_time s"
    using assms(1,2) by (simp_all add: RecordControl_def)
  define u where "u = run rec_step ?a (map Line ls)"
  from progress_run [OF a(2) _ assms(3)] have "rc_crash u = None" "rc_conn u = Reading" "rc_time u = last_time (rc_time s) ls"
    using a(3) by (simp_all add: u_def Let_def)
  moreover have "run rec_step s ([Control E w ''start'', Accept True] @ map Line ls @ [ReadFailed]) = rec_step u ReadFailed"
    using a(1) by (simp only: run_append u_def run.simps)
  ultimately show ?thesis by (simp add: Let_def)
qed

lemma good_proc_calls:
  "pe_query good_proc h = Inr (h + 10)" "pe_dup good_proc h l t = Inr (h + 10)" "pe_close good_proc h = None"
  "pe_block good_proc h = Inr 40" "pe_out_pipe good_proc = Inr (50, 51)" "pe_out_info good_proc h = None"
  "pe_in_pipe good_proc = Inr (52, 53)" "pe_in_info good_proc h = None"
  "pe_create good_proc h a c d f i = Inr \<lparr>pi_Process = 60, pi_Thread = 61, pi_ProcessId = 4242\<rparr>"
  by (simp_all add: good_proc_def)

lemma start_good:
  "StartProcessAsCurrentUser good_proc app cmd dir s =
     (Ok 4242, s\<lparr>ph_stdin_wr := 53, ph_open := ph_open s @ [22, 40, 50, 51, 52, 53, 60, 61]\<rparr>)"
  by (simp add: start_defs good_session good_proc_calls)

lemma start_with_user:
  "rec_start with_user rec_init = (Ok (), rec_init\<lparr>rc_reader := True, rc_stdin := 53, rc_open := [22, 40, 50, 51, 52, 53, 60, 61], rc_pid := 4242,
     rc_conn := Accepting, rc_status := ''starting''\<rparr>)"
  by (simp add: rec_start_def with_user_def rec_init_def start_good Let_def)

lemma split_out_time: "str_split ''='' ''out_time=00:07'' = [''out_time'', ''00:07'']"
  using str_split_char_Cons [of "CHR ''=''" "''out_time''" "''00:07''"] by (simp add: str_split_char_last)

theorem recording_completes_witness:
  "rc_time (run rec_step rec_init ([Control with_user (\<lambda>h. None) ''start'', Accept True]
     @ map Line [''out_time=00:07''] @ [ReadFailed])) = ''00:07''"
proof -
  have "rc_crash rec_init = None" by (simp add: rec_init_def)
  from recording_completes [OF this start_with_user, of "[''out_time=00:07'']" "\<lambda>h. None"]
  show ?thesis by (simp add: Let_def split_out_time)
qed

section \<open>Stopping and progress\<close>

text \<open>
  While the encoder is connected, a stop request sends the key once and a second one is
  refused; but a progress line with a time sets the status back to \<open>recording\<close>, after which
  stopping is accepted again.  A stop with no recording at all is accepted too.
\<close>

lemma stop_once_unless_progress:
  assumes "rc_status s \<noteq> ''stopping''" and "w (rc_stdin s) = None" and "rec_stop w s = (r, t)"
  shows "r = Ok () \<and> rc_keys t = rc_keys s @ [rc_stdin s]
    \<and> rec_stop w t = (Err ''stop in queue'', t)
    \<and> (\<exists>u. rec_stop w (progress_line (''out_time='' @ time) t) = (Ok (), u)
          \<and> rc_keys u = rc_keys s @ [rc_stdin s, rc_stdin s])"
proof -
  have "str_split ''='' (''out_time='' @ time) = ''out_time'' # str_split ''='' time"
    using str_split_char_Cons [of "CHR ''=''" "''out_time''" time] by simp
  moreover have "length (str_split ''='' time) \<noteq> 0" by simp
  moreover have t: "t = s\<lparr>rc_status := ''stopping'', rc_keys := rc_keys s @ [rc_stdin s]\<rparr>" and "r = Ok ()"
    using assms by (auto simp: rec_stop_def Let_def)
  ultimately show ?thesis
    using assms(2) by (auto simp: rec_stop_def progress_line_def Let_def)
qed

lemma stop_once_unless_progress_witness:
  "\<exists>u. rec_stop (\<lambda>h. None) rec_init = (Ok (), u) \<and> rc_keys u = [0]"
proof -
  obtain r t where r: "rec_stop (\<lambda>h. None) rec_init = (r, t)" by (cases "rec_stop (\<lambda>h. None) rec_init")
  from stop_once_unless_progress [OF _ _ r] show ?thesis using r by (simp add: rec_init_def)
qed

text \<open>
  Of all progress lines exactly the line \<open>out_time\<close> without a value makes the goroutine,
  and with it the process, panic.
\<close>

lemma progress_panic_iff:
  assumes "rc_crash s = None" and "rc_conn s = Reading"
  shows "rc_crash (rec_step s (Line line)) \<noteq> None \<longleftrightarrow> line = ''out_time''"
proof (cases "line = ''out_time''")
  case True
  have "str_split ''='' ''out_time'' = [''out_time'']" by (simp add: str_split_char_last)
  with True assms show ?thesis by (simp add: progress_line_def Let_def)
next
  case False
  with assms progress_time [of line s] show ?thesis by simp
qed

lemma progress_panic_iff_witness:
  "rc_crash (rec_step (rec_init\<lparr>rc_reader := True, rc_conn := Reading\<rparr>) (Line ''out_time'')) \<noteq> None"
  using progress_panic_iff [of "rec_init\<lparr>rc_reader := True, rc_conn := Reading\<rparr>" "''out_time''"]
  by (simp add: rec_init_def)

end
