(* ===== verification/Network.thy ===== *)
theory Network
  imports Go_Fmt
begin

unbundle bit_operations_syntax

text \<open>
  The network side of the agent: \<open>InterfaceByAddress\<close> of \<open>util/util.go\<close>, the notifier of
  \<open>util/network_change.go\<close>, and its two observers, the gRPC context of \<open>service/service.go\<close> and
  the announcer of \<open>service/announce.go\<close>.  The server object is vendored; the model keeps of it
  what the code relies on: whether it was stopped, and the listeners it serves.
\<close>

section \<open>Interfaces\<close>

text \<open>A \<open>net.Interface\<close>: its flags and the result of \<open>Addrs\<close>.\<close>

record iface =
  if_flags :: u64
  if_addrs :: "string list option"

definition FlagUp :: u64 where "FlagUp = 1"
definition FlagRunning :: u64 where "FlagRunning = 32"

fun first_addr :: "string \<Rightarrow> string list \<Rightarrow> string option" where
  "first_addr net_addr [] = None"
| "first_addr net_addr (a # as) = (if prefix net_addr a then Some a else first_addr net_addr as)"

fun find_iface :: "string \<Rightarrow> iface list \<Rightarrow> (iface \<times> string) option" where
  "find_iface net_addr [] = None"
| "find_iface net_addr (i # is) =
     (case if_addrs i of
        None \<Rightarrow> find_iface net_addr is
      | Some addrs \<Rightarrow>
          (case first_addr net_addr addrs of
             Some a \<Rightarrow> Some (i, a)
           | None \<Rightarrow> find_iface net_addr is))"

definition InterfaceByAddress :: "iface list option \<Rightarrow> string \<Rightarrow> (iface \<times> string) option" where
  "InterfaceByAddress ifs net_addr = (case ifs of None \<Rightarrow> None | Some is \<Rightarrow> find_iface net_addr is)"

text \<open>The address the notifier reports for an observer: that of a running interface.\<close>

definition live_addr :: "iface list option \<Rightarrow> string \<Rightarrow> string option" where
  "live_addr ifs net_addr =
     (case InterfaceByAddress ifs net_addr of
        None \<Rightarrow> None
      | Some (i, addr) \<Rightarrow>
          if (if_flags i AND FlagUp) > 0 \<and> (if_flags i AND FlagRunning) > 0 then Some addr else None)"

section \<open>State\<close>

text \<open>The two observers; both subscribe with the prefix \<open>10.10.\<close>.\<close>

datatype observer = Ctx | Ann

record agent =
  nt_observers :: "observer \<rightharpoonup> string"
  nt_status :: "observer \<Rightarrow> string option"
  nt_blocked :: bool
  sv_linkUp :: bool
  sv_listener :: "string option"
  sv_stopped :: bool
  sv_pending :: "string list"
  sv_serving :: "string list"
  an_interface :: string
  an_conn :: "string option"
  an_workers :: nat
  an_sent :: "string list"

definition Subscribe :: "observer \<Rightarrow> string \<Rightarrow> agent \<Rightarrow> agent" where
  "Subscribe k address s =
     s\<lparr>nt_observers := (nt_observers s)(k \<mapsto> address), nt_status := (nt_status s)(k := None)\<rparr>"

definition agent_zero :: agent where
  "agent_zero = \<lparr>nt_observers = (\<lambda>k. None), nt_status = (\<lambda>k. None), nt_blocked = False, sv_linkUp = False,
     sv_listener = None, sv_stopped = False, sv_pending = [], sv_serving = [],
     an_interface = ''10.10.'', an_conn = None, an_workers = 0, an_sent = []\<rparr>"

text \<open>\<open>ServiceCtxt.Init\<close> subscribes itself, then \<open>AnnounceService.Init\<close> the announcer.\<close>

definition agent_init :: agent where
  "agent_init = Subscribe Ann ''10.10.'' (Subscribe Ctx ''10.10.'' agent_zero)"

section \<open>The gRPC context\<close>

definition host_of :: "string \<Rightarrow> string" where
  "host_of addr = hd (str_split ''/'' addr) @ '':0''"

text \<open>
  The loop that tries to listen every two seconds, on the outcomes of its attempts: while
  they fail it does not return.
\<close>

fun listen_loop :: "(goerr + string) list \<Rightarrow> string option" where
  "listen_loop [] = None"
| "listen_loop (Inl err # rs) = listen_loop rs"
| "listen_loop (Inr l # rs) = Some l"

definition ctx_bind :: "(string \<Rightarrow> (goerr + string) list) \<Rightarrow> string \<Rightarrow> agent \<Rightarrow> agent" where
  "ctx_bind listen addr s =
     (case listen_loop (listen (host_of addr)) of
        None \<Rightarrow> s\<lparr>nt_blocked := True\<rparr>
      | Some l \<Rightarrow> s\<lparr>sv_listener := Some l, sv_pending := l # sv_pending s\<rparr>)"

text \<open>\<open>unbindInterface\<close>: \<open>Stop\<close> of the server is final and closes every listener it serves.\<close>

definition ctx_unbind :: "agent \<Rightarrow> agent" where
  "ctx_unbind s = s\<lparr>sv_stopped := True, sv_serving := [], sv_listener := None\<rparr>"

definition ctx_changed :: "(string \<Rightarrow> (goerr + string) list) \<Rightarrow> bool \<Rightarrow> string \<Rightarrow> agent \<Rightarrow> agent" where
  "ctx_changed listen up addr s = (if up then ctx_bind listen addr s else ctx_unbind s)"

text \<open>The goroutine that calls \<open>Serve\<close>: a stopped server closes the listener and returns.\<close>

definition serve :: "string \<Rightarrow> agent \<Rightarrow> agent" where
  "serve l s =
     (if l \<in> set (sv_pending s)
      then (let s' = s\<lparr>sv_pending := remove1 l (sv_pending s)\<rparr> in
            if sv_stopped s then s' else s'\<lparr>sv_serving := l # sv_serving s'\<rparr>)
      else s)"

text \<open>\<open>setLinkState\<close>, which no code calls.\<close>

definition setLinkState :: "(string \<Rightarrow> (goerr + string) list) \<Rightarrow> bool \<Rightarrow> string \<Rightarrow> agent \<Rightarrow> agent" where
  "setLinkState listen st addr s =
     (if sv_linkUp s \<noteq> st then (if st then ctx_bind listen addr (s\<lparr>sv_linkUp := st\<rparr>) else s\<lparr>sv_linkUp := st\<rparr>)
      else s)"

section \<open>The announcer\<close>

definition ann_bind :: "(string \<Rightarrow> bool) \<Rightarrow> (string \<Rightarrow> bool) \<Rightarrow> string \<Rightarrow> agent \<Rightarrow> agent" where
  "ann_bind resolves dials addr s =
     (let laddr = host_of addr in
      if \<not> resolves laddr then s
      else
        let s1 = s\<lparr>an_interface := addr\<rparr> in
        if \<not> dials laddr then s1
        else s1\<lparr>an_conn := Some laddr, an_workers := an_workers s1 + 1\<rparr>)"

definition ann_unbind :: "agent \<Rightarrow> agent" where
  "ann_unbind s = s\<lparr>an_conn := None\<rparr>"

definition ann_changed :: "(string \<Rightarrow> bool) \<Rightarrow> (string \<Rightarrow> bool) \<Rightarrow> bool \<Rightarrow> string \<Rightarrow> agent \<Rightarrow> agent" where
  "ann_changed resolves dials up addr s = (if up then ann_bind resolves dials addr s else ann_unbind s)"

text \<open>One round of one \<open>work\<close> goroutine; a failed write ends it.\<close>

definition ann_work :: "string \<Rightarrow> bool \<Rightarrow> agent \<Rightarrow> agent" where
  "ann_work hostname written s =
     (if an_workers s = 0 then s
      else case (an_conn s, sv_listener s) of
        (Some c, Some l) \<Rightarrow>
          if written then s\<lparr>an_sent := an_sent s @ [hostname @ ''|'' @ l]\<rparr>
          else s\<lparr>an_workers := an_workers s - 1\<rparr>
      | _ \<Rightarrow> s)"

section \<open>The notifier\<close>

record net_env =
  ne_ifs :: "iface list option"
  ne_listen :: "string \<Rightarrow> (goerr + string) list"
  ne_resolves :: "string \<Rightarrow> bool"
  ne_dials :: "string \<Rightarrow> bool"

fun notify :: "net_env \<Rightarrow> observer \<Rightarrow> bool \<Rightarrow> string \<Rightarrow> agent \<Rightarrow> agent" where
  "notify N Ctx up addr s = ctx_changed (ne_listen N) up addr s"
| "notify N Ann up addr s = ann_changed (ne_resolves N) (ne_dials N) up addr s"

definition set_status :: "observer \<Rightarrow> string option \<Rightarrow> agent \<Rightarrow> agent" where
  "set_status k a s = s\<lparr>nt_status := (nt_status s)(k := a)\<rparr>"

definition check_observer :: "net_env \<Rightarrow> observer \<Rightarrow> string \<Rightarrow> agent \<Rightarrow> agent" where
  "check_observer N k address s =
     (case live_addr (ne_ifs N) address of
        Some addr \<Rightarrow>
          if nt_status s k = None \<or> nt_status s k \<noteq> Some addr
          then notify N k True addr (set_status k (Some addr) s)
          else s
      | None \<Rightarrow>
          if nt_status s k \<noteq> None then notify N k False [] (set_status k None s) else s)"

text \<open>
  \<open>networkChanged\<close> visits the observers in the order the map is iterated, an argument here; a
  call that does not return keeps the later observers from being visited.
\<close>

fun networkChanged :: "net_env \<Rightarrow> observer list \<Rightarrow> agent \<Rightarrow> agent" where
  "networkChanged N [] s = s"
| "networkChanged N (k # ks) s =
     (if nt_blocked s then s
      else networkChanged N ks
        (case nt_observers s k of None \<Rightarrow> s | Some address \<Rightarrow> check_observer N k address s))"

datatype net_event =
    Emit net_env "observer list"
  | ServeRuns string
  | Work string bool

fun net_step :: "agent \<Rightarrow> net_event \<Rightarrow> agent" where
  "net_step s (Emit N ks) = networkChanged N ks s"
| "net_step s (ServeRuns l) = serve l s"
| "net_step s (Work hostname written) = ann_work hostname written s"

text \<open>
  The interface \<open>NetworkListener\<close>: a notification leaves the notifier's own bookkeeping alone,
  and after the loss of the network the listener holds no binding.
\<close>

locale network_listener =
  fixes changed :: "bool \<Rightarrow> string \<Rightarrow> 's \<Rightarrow> 's"
    and book :: "'s \<Rightarrow> 'b"
    and bound :: "'s \<Rightarrow> bool"
  assumes changed_book: "book (changed up addr s) = book s"
    and changed_down: "\<not> bound (changed False addr s)"
begin

lemma many_changed_book: "book (fold (\<lambda>(up, addr). changed up addr) cs s) = book s"
  by (induction cs arbitrary: s) (auto simp: changed_book)

lemma ends_unbound: "\<not> bound (fold (\<lambda>(up, addr). changed up addr) (cs @ [(False, addr)]) s)"
  by (simp add: changed_down)

end

interpretation ctxl: network_listener "ctx_changed listen" "\<lambda>s. (nt_observers s, nt_status s)"
    "\<lambda>s. sv_listener s \<noteq> None \<or> sv_serving s \<noteq> []" for listen
  by unfold_locales (auto simp: ctx_changed_def ctx_bind_def ctx_unbind_def split: option.splits)

interpretation annl: network_listener "ann_changed resolves dials" "\<lambda>s. (nt_observers s, nt_status s)"
    "\<lambda>s. an_conn s \<noteq> None" for resolves dials
  by unfold_locales (auto simp: ann_changed_def ann_bind_def ann_unbind_def Let_def)

lemma notify_book:
  "nt_observers (notify N k up addr s) = nt_observers s" "nt_status (notify N k up addr s) = nt_status s"
  using ctxl.changed_book [of "ne_listen N" up addr s]
    annl.changed_book [of "ne_resolves N" "ne_dials N" up addr s]
  by (cases k; simp)+

end
