(* ===== verification/Network_Correct.thy ===== *)
theory Network_Correct
  imports Network
begin

text \<open>
  What the network side guarantees over any sequence of events: notifications follow changes
  only, bindings are to matching addresses, the server serves at most until the first loss
  of the network, and every return of the network leaves one more announcing goroutine.
\<close>

section \<open>One observer\<close>

text \<open>All addresses with a prefix, each with its interface, in the order of the system's lists.\<close>

definition addrs_of :: "iface \<Rightarrow> string list" where
  "addrs_of i = (case if_addrs i of None \<Rightarrow> [] | Some addrs \<Rightarrow> addrs)"

definition matching :: "string \<Rightarrow> iface list \<Rightarrow> (iface \<times> string) list" where
  "matching p ifs = concat (map (\<lambda>i. map (Pair i) (filter (prefix p) (addrs_of i))) ifs)"

lemma first_addr_filter:
  "first_addr p as = (case filter (prefix p) as of [] \<Rightarrow> None | a # _ \<Rightarrow> Some a)"
  by (induction as) simp_all

lemma find_iface_matching:
  "find_iface p ifs = (case matching p ifs of [] \<Rightarrow> None | m # _ \<Rightarrow> Some m)"
proof (induction ifs)
  case (Cons i ifs)
  show ?case
  proof (cases "filter (prefix p) (addrs_of i)")
    case Nil
    then have "find_iface p (i # ifs) = find_iface p ifs" and "matching p (i # ifs) = matching p ifs"
      by (auto simp: addrs_of_def first_addr_filter matching_def split: option.split)
    with Cons show ?thesis by simp
  next
    case (Cons a as)
    then show ?thesis by (auto simp: addrs_of_def first_addr_filter matching_def split: option.splits)
  qed
qed (simp add: matching_def)

lemma live_addr_matching:
  "live_addr ifs p = Some a \<longleftrightarrow> (\<exists>is i rest. ifs = Some is \<and> matching p is = (i, a) # rest
     \<and> (if_flags i AND FlagUp) > 0 \<and> (if_flags i AND FlagRunning) > 0)"
  by (auto simp: live_addr_def InterfaceByAddress_def find_iface_matching split: option.splits list.splits)

lemma matching_sound:
  "(i, a) \<in> set (matching p ifs) \<longleftrightarrow>
     i \<in> set ifs \<and> prefix p a \<and> a \<in> set (addrs_of i)"
  by (auto simp: matching_def)

lemma set_status_simps [simp]:
  "nt_status (set_status k a s) = (nt_status s)(k := a)" "nt_observers (set_status k a s) = nt_observers s"
  "sv_stopped (set_status k a s) = sv_stopped s" "sv_serving (set_status k a s) = sv_serving s"
  "nt_blocked (set_status k a s) = nt_blocked s" "sv_pending (set_status k a s) = sv_pending s"
  "an_workers (set_status k a s) = an_workers s" "sv_listener (set_status k a s) = sv_listener s"
  "an_sent (set_status k a s) = an_sent s" "an_conn (set_status k a s) = an_conn s"
  by (simp_all add: set_status_def)

lemma check_status:
  "nt_status (check_observer N k address s) = (nt_status s)(k := live_addr (ne_ifs N) address)
   \<and> nt_observers (check_observer N k address s) = nt_observers s"
  by (auto simp: check_observer_def notify_book split: option.splits)

lemmas ctx_defs = ctx_changed_def ctx_bind_def ctx_unbind_def
lemmas ann_defs = ann_changed_def ann_bind_def ann_unbind_def Let_def

lemma notify_stopped: "sv_stopped s \<Longrightarrow> sv_stopped (notify N k up a s)"
  by (cases k) (auto simp: ctx_defs ann_defs split: option.splits)

lemma notify_serving: "(sv_stopped s \<longrightarrow> sv_serving s = []) \<Longrightarrow>
  (sv_stopped (notify N k up a s) \<longrightarrow> sv_serving (notify N k up a s) = [])"
  by (cases k) (auto simp: ctx_defs ann_defs split: option.splits)

text \<open>A fact of all states that checking one observer keeps is kept by the notifier.\<close>

lemma networkChanged_keeps:
  assumes "\<And>k a s. P s \<Longrightarrow> P (check_observer N k a s)" and "P s"
  shows "P (networkChanged N ks s)"
  using assms(2) by (induction ks arbitrary: s) (auto intro: assms(1) split: option.split)

section \<open>The machine\<close>

definition bookkeeping :: "agent \<Rightarrow> bool" where
  "bookkeeping s \<longleftrightarrow> nt_observers s = [Ctx \<mapsto> ''10.10.'', Ann \<mapsto> ''10.10.'']"

lemma serve_work_frame:
  "nt_observers (serve l s) = nt_observers s" "nt_observers (ann_work h w s) = nt_observers s"
  "sv_stopped (serve l s) = sv_stopped s" "sv_stopped (ann_work h w s) = sv_stopped s"
  "sv_serving (ann_work h w s) = sv_serving s" "sv_stopped s \<Longrightarrow> sv_serving (serve l s) = sv_serving s"
  by (auto simp: serve_def ann_work_def Let_def split: option.splits)

interpretation srv: invariant_machine net_step "\<lambda>s. sv_stopped s \<longrightarrow> sv_serving s = []"
proof
  fix s :: agent and e
  assume s: "sv_stopped s \<longrightarrow> sv_serving s = []"
  show "sv_stopped (net_step s e) \<longrightarrow> sv_serving (net_step s e) = []"
  proof (cases e)
    case (Emit N ks)
    have "sv_stopped (check_observer N k a s) \<longrightarrow> sv_serving (check_observer N k a s) = []"
      if "sv_stopped s \<longrightarrow> sv_serving s = []" for k a s
      using that notify_serving by (auto simp: check_observer_def split: option.splits)
    from networkChanged_keeps [OF this s] show ?thesis by (simp add: Emit)
  qed (use s in \<open>auto simp: serve_work_frame\<close>)
qed

interpretation mon: monotone_machine net_step "\<lambda>s t. sv_stopped s \<longrightarrow> sv_stopped t"
proof (unfold_locales, goal_cases)
  case (3 s e)
  show ?case
  proof (cases e)
    case (Emit N ks)
    have "sv_stopped (check_observer N k a s)" if "sv_stopped s" for k a s
      using that notify_stopped by (auto simp: check_observer_def split: option.splits)
    then show ?thesis using networkChanged_keeps [of sv_stopped N s ks] by (simp add: Emit)
  qed (auto simp: serve_work_frame)
qed auto

interpretation bok: invariant_machine net_step bookkeeping
proof
  fix s e
  assume s: "bookkeeping s"
  show "bookkeeping (net_step s e)"
  proof (cases e)
    case (Emit N ks)
    have "bookkeeping (check_observer N k a s)" if "bookkeeping s" for k a s
      using that by (simp add: bookkeeping_def check_status)
    from networkChanged_keeps [OF this s] show ?thesis by (simp add: Emit)
  qed (use s in \<open>auto simp: bookkeeping_def serve_work_frame\<close>)
qed

lemma bookkeeping_run: "bookkeeping (run net_step agent_init es)"
  by (rule bok.run_inv) (simp add: bookkeeping_def agent_init_def Subscribe_def agent_zero_def)

section \<open>Notification\<close>

lemma networkChanged_settled:
  assumes "\<not> nt_blocked (networkChanged N ks s)"
  shows "(\<forall>k \<in> set ks. \<forall>a. nt_observers s k = Some a \<longrightarrow>
      nt_status (networkChanged N ks s) k = live_addr (ne_ifs N) a)
    \<and> (\<forall>k. k \<notin> set ks \<longrightarrow> nt_status (networkChanged N ks s) k = nt_status s k)
    \<and> nt_observers (networkChanged N ks s) = nt_observers s"
  using assms
proof (induction ks arbitrary: s)
  case (Cons j ks)
  let ?s = "case nt_observers s j of None \<Rightarrow> s | Some address \<Rightarrow> check_observer N j address s"
  have obs: "nt_observers ?s = nt_observers s"
    and other: "k \<noteq> j \<Longrightarrow> nt_status ?s k = nt_status s k" for k
    by (simp_all add: check_status split: option.split)
  have here: "nt_status ?s j = live_addr (ne_ifs N) a" if "nt_observers s j = Some a" for a
    using that by (simp add: check_status)
  have "\<not> nt_blocked s" using Cons.prems by (auto split: if_splits)
  then have eq: "networkChanged N (j # ks) s = networkChanged N ks ?s" by simp
  with Cons.prems have nb: "\<not> nt_blocked (networkChanged N ks ?s)" by metis
  have "nt_status (networkChanged N ks ?s) j = live_addr (ne_ifs N) a" if "nt_observers s j = Some a" for a
    using Cons.IH [OF nb] that obs here by (cases "j \<in> set ks") auto
  then show ?case unfolding eq using Cons.IH [OF nb] obs other by auto
qed simp

lemma check_settled: "nt_status s k = live_addr (ne_ifs N) a \<Longrightarrow> check_observer N k a s = s"
  by (auto simp: check_observer_def split: option.splits)

lemma networkChanged_noop:
  "\<forall>k \<in> set ks. \<forall>a. nt_observers s k = Some a \<longrightarrow> nt_status s k = live_addr (ne_ifs N) a
   \<Longrightarrow> networkChanged N ks s = s"
  by (induction ks) (auto simp: check_settled split: option.split)

text \<open>
  The notifier reports changes only: a second event with the same interfaces changes
  nothing and notifies nobody, in whatever order the observers are visited.
\<close>

lemma networkChanged_idempotent:
  "networkChanged N ks (networkChanged N ks s) = networkChanged N ks s"
proof (cases "nt_blocked (networkChanged N ks s)")
  case True
  then show ?thesis by (cases ks) auto
next
  case False
  from networkChanged_settled [OF False] show ?thesis
    by (intro networkChanged_noop) simp
qed


definition up_env :: "string \<Rightarrow> string \<Rightarrow> net_env" where
  "up_env a l = \<lparr>ne_ifs = Some [\<lparr>if_flags = 33, if_addrs = Some [''127.0.0.1/8'', a]\<rparr>],
     ne_listen = (\<lambda>h. [Inr l]), ne_resolves = (\<lambda>h. True), ne_dials = (\<lambda>h. True)\<rparr>"

definition down_env :: net_env where
  "down_env = \<lparr>ne_ifs = None, ne_listen = (\<lambda>h. []), ne_resolves = (\<lambda>h. True), ne_dials = (\<lambda>h. True)\<rparr>"

lemma live_up: "prefix ''10.10.'' a \<Longrightarrow> live_addr (ne_ifs (up_env a l)) ''10.10.'' = Some a"
  by (simp add: up_env_def live_addr_def InterfaceByAddress_def FlagUp_def FlagRunning_def)

lemma live_down: "live_addr (ne_ifs down_env) p = None"
  by (simp add: down_env_def live_addr_def InterfaceByAddress_def)


section \<open>The server after a loss of the network\<close>

lemma down_stops:
  assumes "live_addr (ne_ifs N) ''10.10.'' = None" and "Ctx \<in> set ks" and "nt_status s Ctx \<noteq> None"
    and "\<not> nt_blocked s" and "bookkeeping s"
  shows "sv_stopped (networkChanged N ks s)"
  using assms(2-)
proof (induction ks arbitrary: s)
  case (Cons k ks)
  have obs: "nt_observers s k = Some ''10.10.''" using Cons.prems(4) by (cases k) (simp_all add: bookkeeping_def)
  let ?s = "check_observer N k ''10.10.'' s"
  have s: "networkChanged N (k # ks) s = networkChanged N ks ?s" using Cons.prems(3) obs by simp
  show ?case
  proof (cases k)
    case Ctx
    then have "sv_stopped ?s" using assms(1) Cons.prems(2) by (simp add: check_observer_def ctx_defs)
    then have "sv_stopped (networkChanged N ks ?s)" using mon.step_rel [of ?s "Emit N ks"] by simp
    with s show ?thesis by simp
  next
    case Ann
    have "nt_status ?s Ctx \<noteq> None" "bookkeeping ?s"
      using Cons.prems(2,4) Ann by (simp_all add: check_status bookkeeping_def)
    moreover have "\<not> nt_blocked ?s"
      using Cons.prems(3) assms(1) Ann by (auto simp: check_observer_def ann_defs)
    ultimately show ?thesis using Cons.IH [of ?s] Cons.prems(1) s Ann by simp
  qed
qed simp

text \<open>
  C24: once the agent had an address and loses it, no listener is ever served again, whatever
  happens later: the server was stopped for good and every later \<open>Serve\<close> returns at once.
\<close>

theorem never_served_again:
  assumes "nt_status (run net_step agent_init es) Ctx \<noteq> None" and "\<not> nt_blocked (run net_step agent_init es)"
    and "live_addr (ne_ifs N) ''10.10.'' = None" and "Ctx \<in> set ks"
  shows "sv_serving (run net_step agent_init (es @ [Emit N ks] @ es')) = []"
proof -
  let ?s = "net_step (run net_step agent_init es) (Emit N ks)"
  have "sv_stopped ?s" using down_stops [OF assms(3,4,1,2) bookkeeping_run] by simp
  then have "sv_stopped (run net_step ?s es')" using mon.run_rel [of ?s es'] by simp
  then have "sv_stopped (run net_step agent_init (es @ [Emit N ks] @ es'))" by simp
  moreover have "sv_stopped agent_init \<longrightarrow> sv_serving agent_init = []"
    by (simp add: agent_init_def Subscribe_def agent_zero_def)
  from srv.run_inv [OF this, of "es @ [Emit N ks] @ es'"]
  have "sv_stopped (run net_step agent_init (es @ [Emit N ks] @ es'))
      \<longrightarrow> sv_serving (run net_step agent_init (es @ [Emit N ks] @ es')) = []" .
  ultimately show ?thesis by blast
qed

lemma step_up_ctx:
  assumes "live_addr (ne_ifs N) ''10.10.'' = Some a" and "ne_listen N (host_of a) = [Inr l]" and "bookkeeping s"
    and "\<not> nt_blocked s" and "nt_status s Ctx \<noteq> Some a"
  shows "networkChanged N [Ctx] s = s\<lparr>nt_status := (nt_status s)(Ctx := Some a), sv_listener := Some l,
     sv_pending := l # sv_pending s\<rparr>"
  using assms by (simp add: bookkeeping_def check_observer_def ctx_defs set_status_def)

theorem never_served_again_witness:
  "sv_serving (run net_step agent_init
     ([Emit (up_env ''10.10.1.2/16'' ''a'') [Ctx], ServeRuns ''a''] @ [Emit down_env [Ann, Ctx]]
      @ [Emit (up_env ''10.10.1.2/16'' ''b'') [Ctx, Ann], ServeRuns ''b''])) = []"
proof (rule never_served_again)
  let ?N = "up_env ''10.10.1.2/16'' ''a''"
  have l: "live_addr (ne_ifs ?N) ''10.10.'' = Some ''10.10.1.2/16''" by (rule live_up) simp
  have b: "bookkeeping agent_init" using bookkeeping_run [of "[]"] by simp
  have "networkChanged ?N [Ctx] agent_init = agent_init\<lparr>nt_status := (nt_status agent_init)(Ctx := Some ''10.10.1.2/16''),
      sv_listener := Some ''a'', sv_pending := ''a'' # sv_pending agent_init\<rparr>"
    by (rule step_up_ctx [OF l _ b]) (simp_all add: up_env_def agent_init_def Subscribe_def agent_zero_def)
  then show "nt_status (run net_step agent_init [Emit ?N [Ctx], ServeRuns ''a'']) Ctx \<noteq> None"
    and "\<not> nt_blocked (run net_step agent_init [Emit ?N [Ctx], ServeRuns ''a''])"
    by (simp_all del: networkChanged.simps add: serve_def agent_init_def Subscribe_def agent_zero_def)
qed (simp_all add: live_down)

text \<open>
  When the network comes back after that, the agent listens, announces the new address on
  the multicast group and still serves nobody.
\<close>

lemma announced_but_unserved:
  assumes "bookkeeping s" and "sv_stopped s" and "sv_serving s = []" and "\<not> nt_blocked s" and "nt_status s = (\<lambda>k. None)"
    and "live_addr (ne_ifs N) ''10.10.'' = Some a" and "ne_listen N (host_of a) = [Inr l]"
    and "ne_resolves N (host_of a)" and "ne_dials N (host_of a)"
  shows "let t = run net_step s [Emit N [Ctx, Ann], ServeRuns l, Work hostname True] in
    sv_serving t = [] \<and> sv_listener t = Some l \<and> an_sent t = an_sent s @ [hostname @ ''|'' @ l]"
  using assms
  by (simp add: bookkeeping_def check_observer_def ctx_defs ann_defs set_status_def serve_def ann_work_def)

lemma announced_but_unserved_witness:
  "an_sent (run net_step (agent_init\<lparr>sv_stopped := True\<rparr>)
     [Emit (up_env ''10.10.1.2/16'' ''10.10.1.2:40001'') [Ctx, Ann], ServeRuns ''10.10.1.2:40001'', Work ''n5'' True])
   = [''n5|10.10.1.2:40001'']"
proof -
  have l: "live_addr (ne_ifs (up_env ''10.10.1.2/16'' ''10.10.1.2:40001'')) ''10.10.'' = Some ''10.10.1.2/16''"
    by (rule live_up) simp
  show ?thesis
    using announced_but_unserved [of "agent_init\<lparr>sv_stopped := True\<rparr>", OF _ _ _ _ _ l, of "''10.10.1.2:40001''" "''n5''"]
    by (simp add: Let_def bookkeeping_def agent_init_def Subscribe_def agent_zero_def up_env_def)
qed

section \<open>Announcing goroutines\<close>

definition flap :: "net_env \<Rightarrow> net_env \<Rightarrow> net_event list" where
  "flap N D = [Emit N [Ann], Emit D [Ann]]"

text \<open>
  Each time the network comes and goes a goroutine that announces is started and, when
  no write of it fails in between, none ends: after \<open>n\<close> rounds there are \<open>n\<close> more.
\<close>

lemma announcers_accumulate:
  assumes "live_addr (ne_ifs N) ''10.10.'' = Some a" and "live_addr (ne_ifs D) ''10.10.'' = None"
    and "ne_resolves N (host_of a)" and "ne_dials N (host_of a)"
  shows "an_workers (run net_step agent_init (concat (replicate n (flap N D)))) = n"
proof -
  have round: "an_workers (run net_step s (flap N D)) = an_workers s + 1
      \<and> nt_status (run net_step s (flap N D)) Ann = None \<and> bookkeeping (run net_step s (flap N D))
      \<and> \<not> nt_blocked (run net_step s (flap N D))"
    if "bookkeeping s" "nt_status s Ann = None" "\<not> nt_blocked s" for s
    using that assms by (simp add: flap_def bookkeeping_def check_observer_def ann_defs set_status_def)
  have "an_workers (run net_step s (concat (replicate n (flap N D)))) = an_workers s + n"
    if "bookkeeping s" "nt_status s Ann = None" "\<not> nt_blocked s" for s
    using that by (induction n arbitrary: s) (auto simp: round)
  from this [of agent_init] show ?thesis
    using bookkeeping_run [of "[]"] by (simp add: agent_init_def Subscribe_def agent_zero_def)
qed

lemma announcers_accumulate_witness:
  "an_workers (run net_step agent_init (concat (replicate 3 (flap (up_env ''10.10.1.2/16'' ''a'') down_env)))) = 3"
proof -
  have l: "live_addr (ne_ifs (up_env ''10.10.1.2/16'' ''a'')) ''10.10.'' = Some ''10.10.1.2/16''"
    by (rule live_up) simp
  show ?thesis by (rule announcers_accumulate [OF l live_down]) (simp_all add: up_env_def)
qed

text \<open>
  When the address changes without a loss in between, the server serves the listener of
  the new address beside the one of the old address, which is not closed.
\<close>

lemma readdressed_serves_both:
  assumes "bookkeeping s" and "\<not> sv_stopped s" and "\<not> nt_blocked s" and "nt_status s Ctx = Some b"
    and "live_addr (ne_ifs N) ''10.10.'' = Some a" and "a \<noteq> b" and "ne_listen N (host_of a) = [Inr l]"
  shows "sv_serving (run net_step s [Emit N [Ctx], ServeRuns l]) = l # sv_serving s"
proof -
  have "networkChanged N [Ctx] s = s\<lparr>nt_status := (nt_status s)(Ctx := Some a), sv_listener := Some l,
      sv_pending := l # sv_pending s\<rparr>"
    by (rule step_up_ctx) (use assms in auto)
  then show ?thesis using assms(2) by (simp del: networkChanged.simps add: serve_def)
qed

lemma readdressed_serves_both_witness:
  "sv_serving (run net_step (agent_init\<lparr>nt_status := \<lambda>k. Some ''10.10.9.9/16'', sv_serving := [''old'']\<rparr>)
     [Emit (up_env ''10.10.1.2/16'' ''new'') [Ctx], ServeRuns ''new'']) = [''new'', ''old'']"
proof -
  let ?s = "agent_init\<lparr>nt_status := \<lambda>k. Some ''10.10.9.9/16'', sv_serving := [''old'']\<rparr>"
  have l: "live_addr (ne_ifs (up_env ''10.10.1.2/16'' ''new'')) ''10.10.'' = Some ''10.10.1.2/16''"
    by (rule live_up) simp
  show ?thesis
    using readdressed_serves_both [of ?s "''10.10.9.9/16''", OF _ _ _ _ l, of "''new''"]
    by (simp add: bookkeeping_def agent_init_def Subscribe_def agent_zero_def up_env_def)
qed

end
