(* ===== verification/Dev_Path.thy ===== *)
theory Dev_Path
  imports Power_Ctl Disk_Tools
begin

text \<open>
  UEFI device paths: \<open>NewFilePath\<close> of \<open>efiv/efiv.go\<close> and the boot-entry inspector of
  \<open>prog_wim/main.go\<close>.  The slices these functions cut have spare capacity, so that a node
  whose length field is too large can read beyond the path; a slice is therefore a backing
  list up to its capacity and a length.  What is printed is a list of lines, a line the
  arguments of \<open>Println\<close>.
\<close>

section \<open>Slices with spare capacity\<close>

type_synonym bslice = "u8 list \<times> nat"

definition whole :: "u8 list \<Rightarrow> bslice" where
  "whole b = (b, length b)"

definition seen :: "bslice \<Rightarrow> u8 list" where
  "seen s = take (snd s) (fst s)"

text \<open>\<open>b[i:j]\<close> is bounded by the capacity, \<open>b[i:]\<close> and \<open>b[k]\<close> by the length.\<close>

definition cut :: "bslice \<Rightarrow> nat \<Rightarrow> nat \<Rightarrow> bslice res" where
  "cut s i j = (if i \<le> j \<and> j \<le> length (fst s) then Ok (drop i (fst s), j - i) else Panic SliceBounds)"

definition cut_from :: "bslice \<Rightarrow> nat \<Rightarrow> bslice res" where
  "cut_from s i = (if i \<le> snd s then Ok (drop i (fst s), snd s - i) else Panic SliceBounds)"

definition byte_at :: "bslice \<Rightarrow> nat \<Rightarrow> u8 res" where
  "byte_at s k = (if k < snd s then Ok (seen s ! k) else Panic IndexRange)"

definition u16_at :: "bslice \<Rightarrow> nat \<Rightarrow> u16 res" where
  "u16_at s k = bind_res (cut_from s k) (\<lambda>t. get_u16 (seen t))"

definition u32_at :: "bslice \<Rightarrow> nat \<Rightarrow> u32 res" where
  "u32_at s k = bind_res (cut_from s k) (\<lambda>t. get_u32 (seen t))"

definition u64_at :: "bslice \<Rightarrow> nat \<Rightarrow> u64 res" where
  "u64_at s k = bind_res (cut_from s k) (\<lambda>t. get_u64 (seen t))"

section \<open>Package efiv\<close>

record FilePath =
  fp_Type :: u8
  fp_SubType :: u8
  fp_Len :: u16
  fp_Data :: "u8 list"

record HardDrive =
  hd_header :: FilePath
  hd_PartitionNumber :: u32
  hd_PartitionStart :: u64
  hd_PartitionSize :: u64
  hd_PartitionSignature :: "u8 list"
  hd_PartitionFormat :: u8
  hd_SignatureType :: u8

datatype IFilePath = Plain FilePath | HardDriveMedia HardDrive

definition NewHardDriveMediaDevicePath :: "FilePath \<Rightarrow> bslice \<Rightarrow> HardDrive res" where
  "NewHardDriveMediaDevicePath header b =
     bind_res (u32_at b 4) (\<lambda>num.
     bind_res (u64_at b 8) (\<lambda>start.
     bind_res (u64_at b 16) (\<lambda>sz.
     bind_res (cut b 24 40) (\<lambda>sig.
     bind_res (byte_at b 40) (\<lambda>fmt.
     bind_res (byte_at b 41) (\<lambda>st.
       Ok \<lparr>hd_header = header, hd_PartitionNumber = num, hd_PartitionStart = start,
           hd_PartitionSize = sz, hd_PartitionSignature = seen sig, hd_PartitionFormat = fmt,
           hd_SignatureType = st\<rparr>))))))"

definition ParseMediaDevice :: "FilePath \<Rightarrow> bslice \<Rightarrow> IFilePath res" where
  "ParseMediaDevice header b =
     (if fp_SubType header = 1
      then bind_res (NewHardDriveMediaDevicePath header b) (\<lambda>h. Ok (HardDriveMedia h))
      else Ok (Plain header))"

definition NewFilePath :: "bslice \<Rightarrow> IFilePath res" where
  "NewFilePath b =
     bind_res (byte_at b 0) (\<lambda>t.
     bind_res (byte_at b 1) (\<lambda>st.
     bind_res (u16_at b 2) (\<lambda>len.
     bind_res (cut b 4 (unat len)) (\<lambda>data.
       (let fp = \<lparr>fp_Type = t, fp_SubType = st, fp_Len = len, fp_Data = seen data\<rparr> in
        if t = 4 then ParseMediaDevice fp b else Ok (Plain fp))))))"

definition FilePath_String :: "FilePath \<Rightarrow> string" where
  "FilePath_String fp =
     ''Type '' @ num_str 10 (unat (fp_Type fp)) @ '', SubType '' @ num_str 10 (unat (fp_SubType fp))
     @ '', Len '' @ num_str 10 (unat (fp_Len fp)) @ '', Data '' @ hex_str (fp_Data fp)"

section \<open>The inspector: one node\<close>

datatype arg = S string | N nat | B "u8 list"

type_synonym lines = "arg list list"

definition parse_hw :: "bslice \<Rightarrow> lines res" where
  "parse_hw b =
     bind_res (byte_at b 1) (\<lambda>st.
       if st = 1 then
         bind_res (byte_at b 4) (\<lambda>f. bind_res (byte_at b 5) (\<lambda>d.
           Ok [[S ''PCI''], [S ''Func'', N (unat f)], [S ''Dev'', N (unat d)]]))
       else if st = 2 then Ok [[S ''PCCARD'']]
       else if st = 3 then Ok [[S ''Memory Mapped'']]
       else if st = 4 then Ok [[S ''Vendor'']]
       else Ok [[S ''unimplemented hwdevice subtype'', N (unat st)]])"

definition parse_bios :: "bslice \<Rightarrow> lines res" where
  "parse_bios b =
     bind_res (byte_at b 1) (\<lambda>st.
       if st = 1 then
         bind_res (u16_at b 2) (\<lambda>len.
         bind_res (u16_at b 4) (\<lambda>devType.
         bind_res (u16_at b 6) (\<lambda>statusFlag.
         bind_res (cut_from b 8) (\<lambda>desc.
           Ok [[S ''BIOS Boot Specification Version 1.01''],
               [N (unat len), N (unat devType), N (unat statusFlag), B (seen desc)]]))))
       else Ok [])"

definition parse_acpi :: "bslice \<Rightarrow> lines res" where
  "parse_acpi b =
     bind_res (byte_at b 1) (\<lambda>st.
       if st = 1 then
         bind_res (u16_at b 2) (\<lambda>len.
         bind_res (cut b 4 8) (\<lambda>hid.
         bind_res (cut b 8 12) (\<lambda>uid.
         bind_res (cut_from b 12) (\<lambda>rest.
           Ok [[S ''ACPI Device Path''],
               [S ''len:'', N (unat len), S ''hid:'', B (seen hid), S ''uid'', B (seen uid),
                S ''rest'', B (seen rest)]]))))
       else if st = 2 then Ok [[S ''Expanded ACPI Device Path'']]
       else if st = 3 then Ok [[S ''_ADR Device Path'']]
       else bind_res (byte_at b 0) (\<lambda>t. Ok [[S ''unimplemented acpi subtype'', N (unat t)]]))"

definition messaging_names :: "(u8 \<times> string) list" where
  "messaging_names =
     [(1, ''ATAPI''), (2, ''SCSI''), (3, ''FIBRECHANNEL''), (4, ''1394''), (5, ''USB''),
      (6, ''I2O Random Block Storage Class''), (9, ''InfiniBand''),
      (11, ''MAC Address for a network interface''), (12, ''IPv4''), (13, ''IPv6''), (14, ''UART''),
      (15, ''USB Class''), (16, ''USB WWID''), (17, ''Device Logical unit''), (18, ''SATA''),
      (19, ''iSCSI''), (20, ''Vlan''), (21, ''FIBRECHANNEL_EX''), (22, ''SAS_EX''),
      (23, ''NVM Express Namespace''), (24, ''Universal Resource Identifier (URI) Device Path''),
      (25, ''UFS''), (26, ''SD''), (27, ''Bluetooth''), (28, ''Wi-Fi Device Path''), (29, ''eMMC''),
      (30, ''BluetoothLE'')]"

text \<open>The vendor node re-orders two GUIDs; \<open>uuid.FromBytes\<close> keeps the sixteen bytes.\<close>

definition parse_messaging :: "bslice \<Rightarrow> lines res" where
  "parse_messaging b =
     bind_res (byte_at b 1) (\<lambda>st.
       if st = 10 then
         bind_res (u16_at b 2) (\<lambda>len.
         bind_res (bind_res (cut b 4 20) (\<lambda>g. EncodeUUID (seen g))) (\<lambda>guid.
         bind_res (bind_res (cut b 20 36) (\<lambda>g. EncodeUUID (seen g))) (\<lambda>data.
         bind_res (cut_from b 36) (\<lambda>rest.
           Ok [[S ''Vendor'', N (unat len), B guid, B data, B (seen rest)]]))))
       else case map_of messaging_names st of
         Some name \<Rightarrow> Ok [[S name]]
       | None \<Rightarrow> bind_res (byte_at b 0) (\<lambda>t. Ok [[S ''unimplemented subtype'', N (unat t)]]))"

text \<open>\<open>Utf16\<close>: the last unit of the buffer is never filled in.\<close>

function utf16_loop :: "u8 list \<Rightarrow> nat \<Rightarrow> u16 list \<Rightarrow> u16 list res" where
  "utf16_loop b i str =
     (if i + 2 < length b then
        bind_res (bind_res (slice_from b i) get_u16) (\<lambda>v.
          if i div 2 < length str then utf16_loop b (i + 2) (str[i div 2 := v]) else Panic IndexRange)
      else Ok str)"
  by pat_completeness auto
termination
  by (relation "measure (\<lambda>(b, i, str). length b - i)") auto

declare utf16_loop.simps [simp del]

definition Utf16 :: "u8 list \<Rightarrow> string res" where
  "Utf16 b = bind_res (utf16_loop b 0 (replicate (length b div 2) 0)) (\<lambda>str. Ok (runes_str (utf16_decode str)))"

definition parse_media :: "bslice \<Rightarrow> lines res" where
  "parse_media b =
     bind_res (byte_at b 1) (\<lambda>st.
       if st = 1 then
         bind_res (u32_at b 4) (\<lambda>num.
         bind_res (u64_at b 8) (\<lambda>start.
         bind_res (u64_at b 16) (\<lambda>sz.
         bind_res (cut b 24 40) (\<lambda>sig.
         bind_res (byte_at b 40) (\<lambda>fmt.
         bind_res (byte_at b 41) (\<lambda>sty.
           Ok [[S ''Hard Drive''], [S ''PartitionNumber:'', N (unat num)],
               [S ''PartitionStart:'', N (unat start)], [S ''PartitionSize:'', N (unat sz)],
               [S ''PartitionSignature:'', B (seen sig)], [S ''PartitionFormat:'', N (unat fmt)],
               [S ''SignatureType:'', N (unat sty)]]))))))
       else if st = 2 then Ok [[S (''CD-ROM '' @ [CHR 0xE2, CHR 0x80, CHR 0x9C] @ ''El Torito'' @ [CHR 0xE2, CHR 0x80, CHR 0x9D])]]
       else if st = 4 then
         bind_res (cut_from b 4) (\<lambda>t. bind_res (Utf16 (seen t)) (\<lambda>s. Ok [[S ''FilePath''], [S s]]))
       else if st = 6 then Ok [[S ''PIWG Firmware File'']]
       else bind_res (byte_at b 0) (\<lambda>t. Ok [[S ''unimplemented subtype'', N (unat t)]]))"

section \<open>The inspector: a path\<close>

definition parse_node :: "u8 \<Rightarrow> bslice \<Rightarrow> lines res" where
  "parse_node pType node =
     (let under = (\<lambda>name r. bind_res r (\<lambda>ls. Ok ([S name] # ls))) in
      if pType = 1 then under ''HWDev'' (parse_hw node)
      else if pType = 2 then under ''ACPIDev'' (parse_acpi node)
      else if pType = 3 then under ''MESSAGEDev'' (parse_messaging node)
      else if pType = 4 then under ''MEDIADev'' (parse_media node)
      else if pType = 5 then under ''BIOSDev'' (parse_bios node)
      else if pType = 127 then Ok [[S ''EOF'']]
      else Ok [[S ''unimplemented Type'', N (unat pType)]])"

text \<open>
  \<open>ParsePath\<close>: a length below four makes \<open>b[4:pLen]\<close> panic, so each call consumes at least
  four bytes.
\<close>

lemma bind_res_cong [fundef_cong]:
  "m = m' \<Longrightarrow> (\<And>x. m' = Ok x \<Longrightarrow> f x = f' x) \<Longrightarrow> bind_res m f = bind_res m' f'"
  by (cases m') auto

function ParsePath :: "bslice \<Rightarrow> nat \<Rightarrow> lines res" where
  "ParsePath b sq =
     bind_res (byte_at b 0) (\<lambda>pType.
     bind_res (byte_at b 1) (\<lambda>pSubType.
     bind_res (u16_at b 2) (\<lambda>pLen.
     bind_res (cut b 4 (unat pLen)) (\<lambda>pData.
     bind_res (cut b 0 (unat pLen)) (\<lambda>node.
     bind_res (parse_node pType node) (\<lambda>body.
       (let hdr = [N sq, S ''Type:'', N (unat pType), S ''SubType:'', N (unat pSubType),
                   S ''Len:'', N (unat pLen), S ''Data'', B (seen pData)] in
        if unat pLen \<le> snd b then
          (let next = (drop (unat pLen) (fst b), snd b - unat pLen) in
           if snd next = 0 then Ok (hdr # body)
           else bind_res (ParsePath next (sq + 1)) (\<lambda>ls. Ok (hdr # body @ ls)))
        else Panic SliceBounds)))))))"
  by pat_completeness auto
termination
  by (relation "measure (\<lambda>(b, sq). snd b)") (auto simp: cut_def split: if_splits)

declare ParsePath.simps [simp del]

section \<open>The inspector: boot entries\<close>

text \<open>
  The description and where the path starts; without a terminating zero unit the description
  is empty and the path is taken from offset zero.
\<close>

function desc_scan :: "u8 list \<Rightarrow> nat \<Rightarrow> u16 list \<Rightarrow> (string \<times> nat) res" where
  "desc_scan b i str =
     (if i + 2 < length b then
        bind_res (bind_res (slice_from b i) get_u16) (\<lambda>v.
          if v = 0
          then bind_res (slice str 0 (i div 2 - 3)) (\<lambda>s. Ok (runes_str (utf16_decode s), i + 2))
          else if i div 2 - 3 < length str
          then desc_scan b (i + 2) (str[i div 2 - 3 := v])
          else Panic IndexRange)
      else Ok ([], 0))"
  by pat_completeness auto
termination
  by (relation "measure (\<lambda>(b, i, str). length b - i)") auto

declare desc_scan.simps [simp del]

definition inspect_option :: "string \<Rightarrow> u8 list \<Rightarrow> (string \<times> lines) res" where
  "inspect_option name b =
     (if b = [] then Ok ([], [])
      else
        bind_res (get_u32 b) (\<lambda>Attrib.
        bind_res (u16_at (whole b) 4) (\<lambda>PathLen.
        bind_res (desc_scan b 6 (replicate (length b div 2) 0)) (\<lambda>(desc, start).
        bind_res (cut (whole b) start (start + unat PathLen)) (\<lambda>path.
        bind_res (ParsePath path 0) (\<lambda>ls.
        bind_res (cut_from (whole b) (start + unat PathLen)) (\<lambda>opts.
          Ok (desc, [[S ''#'', S name], [S ''Attrib:'', N (unat Attrib)],
                     [S ''PathLen:'', N (unat PathLen)], [S ''Desc:'', S desc]]
                    @ ls @ (if seen opts = [] then [] else [[S ''Option:'', B (seen opts)]])))))))))"

definition inspector_getBootDesc :: "efi_context \<Rightarrow> string \<Rightarrow> (string \<times> lines) res" where
  "inspector_getBootDesc c name = bind_res (getEnvVar c name) (inspect_option name)"

text \<open>\<open>BootEntries\<close> of the inspector: no entry is skipped; a failing order gives no entries.\<close>

fun inspect_entries :: "efi_context \<Rightarrow> u16 list \<Rightarrow> string list res" where
  "inspect_entries c [] = Ok []"
| "inspect_entries c (boot # bs) =
     bind_res (inspector_getBootDesc c (boot_name boot)) (\<lambda>(desc, ls).
     bind_res (inspect_entries c bs) (\<lambda>ds. Ok (str_trim_space desc # ds)))"

definition inspector_BootEntries :: "efi_context \<Rightarrow> string list res" where
  "inspector_BootEntries c =
     (case BootOrder_Get c of
        Ok (_, order) \<Rightarrow> inspect_entries c order
      | Err e \<Rightarrow> Ok []
      | Panic p \<Rightarrow> Panic p
      | Blocked \<Rightarrow> Blocked)"

end
