(* ===== verification/Dev_Path_Correct.thy ===== *)
theory Dev_Path_Correct
  imports Dev_Path Disk_Tools_Correct
begin

text \<open>
  What the parsers of device paths guarantee: a sequence of well-formed nodes is read node by
  node, a path that is read at all is such a sequence (so a length field that is too small
  or reaches beyond the path makes the parser panic), and a hard-drive node gives back the
  fields it was made from.
\<close>

section \<open>Nodes\<close>

type_synonym node = "u8 \<times> u8 \<times> u8 list"

fun node_bytes :: "node \<Rightarrow> u8 list" where
  "node_bytes (t, st, d) = [t, st] @ put_u16 (word_of_nat (4 + length d)) @ d"

fun node_fits :: "node \<Rightarrow> bool" where
  "node_fits (t, st, d) \<longleftrightarrow> 4 + length d < 65536"

lemma length_put_u16 [simp]: "length (put_u16 v) = 2"
  by (rule f16.length_put)

lemma length_node [simp]: "length (node_bytes (t, st, d)) = 4 + length d"
  by simp

lemma unat_node_len: "4 + length d < 65536 \<Longrightarrow> unat (word_of_nat (4 + length d) :: u16) = 4 + length d"
  by (simp add: unat_of_nat del: of_nat_add)

lemma put_u16_two: obtains x y where "put_u16 v = [x, y]"
proof -
  have "length (put_u16 v) = Suc (Suc 0)" by simp
  then show ?thesis using that unfolding length_Suc_conv by blast
qed

lemma node_head:
  assumes "4 + length d < 65536" and "4 + length d \<le> n"
  shows "byte_at (node_bytes (t, st, d) @ rest, n) 0 = Ok t"
    and "byte_at (node_bytes (t, st, d) @ rest, n) 1 = Ok st"
    and "u16_at (node_bytes (t, st, d) @ rest, n) 2 = Ok (word_of_nat (4 + length d))"
    and "cut (node_bytes (t, st, d) @ rest, n) 4 (4 + length d) = Ok (d @ rest, length d)"
    and "cut (node_bytes (t, st, d) @ rest, n) 0 (4 + length d) = Ok (node_bytes (t, st, d) @ rest, 4 + length d)"
proof -
  let ?v = "word_of_nat (4 + length d) :: u16"
  obtain x y where p: "put_u16 ?v = [x, y]" by (rule put_u16_two)
  show "byte_at (node_bytes (t, st, d) @ rest, n) 0 = Ok t"
    and "byte_at (node_bytes (t, st, d) @ rest, n) 1 = Ok st"
    using assms by (simp_all add: byte_at_def seen_def p nth_append)
  obtain m where m: "n = 4 + m" using assms(2) by (metis add.assoc le_Suc_ex)
  have "take (n - 2) (put_u16 ?v @ d @ rest) = put_u16 ?v @ take (n - 4) (d @ rest)"
    by (simp add: m p)
  then show "u16_at (node_bytes (t, st, d) @ rest, n) 2 = Ok ?v"
    using assms by (simp add: u16_at_def cut_from_def seen_def f16.get_put del: of_nat_add)
  show "cut (node_bytes (t, st, d) @ rest, n) 4 (4 + length d) = Ok (d @ rest, length d)"
    by (simp add: cut_def p)
  show "cut (node_bytes (t, st, d) @ rest, n) 0 (4 + length d) = Ok (node_bytes (t, st, d) @ rest, 4 + length d)"
    by (simp add: cut_def)
qed

section \<open>Reading a path\<close>

fun head_line :: "nat \<Rightarrow> node \<Rightarrow> arg list" where
  "head_line sq (t, st, d) =
     [N sq, S ''Type:'', N (unat t), S ''SubType:'', N (unat st), S ''Len:'', N (4 + length d), S ''Data'', B d]"

fun path_lines :: "(node \<Rightarrow> lines) \<Rightarrow> nat \<Rightarrow> node list \<Rightarrow> lines" where
  "path_lines body sq [] = []"
| "path_lines body sq (n # ns) = head_line sq n # body n @ path_lines body (sq + 1) ns"

text \<open>A node whose own parser reads it, whatever bytes lie behind it.\<close>

definition node_reads :: "(node \<Rightarrow> lines) \<Rightarrow> node \<Rightarrow> bool" where
  "node_reads body n \<longleftrightarrow> node_fits n
     \<and> (\<forall>rest. parse_node (fst n) (node_bytes n @ rest, length (node_bytes n)) = Ok (body n))"

lemma ParsePath_node:
  assumes "node_reads body (t, st, d)" and "4 + length d \<le> n"
  shows "ParsePath (node_bytes (t, st, d) @ rest, n) sq =
     (if n = 4 + length d then Ok (head_line sq (t, st, d) # body (t, st, d))
      else bind_res (ParsePath (rest, n - (4 + length d)) (sq + 1))
             (\<lambda>ls. Ok (head_line sq (t, st, d) # body (t, st, d) @ ls)))"
proof -
  have fits: "4 + length d < 65536" using assms(1) by (simp add: node_reads_def)
  have body: "parse_node t (node_bytes (t, st, d) @ rest, 4 + length d) = Ok (body (t, st, d))"
    using assms(1) length_node [of t st d] unfolding node_reads_def by (metis fst_conv)
  have len: "unat (word_of_nat (4 + length d) :: u16) = 4 + length d" by (rule unat_node_len [OF fits])
  note hd = node_head [OF fits assms(2), of t st rest] node_head(2) [OF fits assms(2), of t st rest, unfolded One_nat_def]
  have drop: "drop (4 + length d) (node_bytes (t, st, d) @ rest) = rest"
    by (simp del: node_bytes.simps)
  show ?thesis
    by (subst ParsePath.simps)
      (use assms(2) in \<open>simp add: hd len body drop Let_def seen_def del: node_bytes.simps of_nat_add\<close>)
qed

text \<open>
  A path that is the concatenation of nodes, each of which its own parser reads, is
  printed node by node in order: the number of the node, its type, subtype, length and data,
  then what its parser prints; bytes behind the path are not read.
\<close>

lemma ParsePath_nodes:
  assumes "ns \<noteq> []" and "\<And>n. n \<in> set ns \<Longrightarrow> node_reads body n"
  shows "ParsePath (concat (map node_bytes ns) @ spare, length (concat (map node_bytes ns))) sq
    = Ok (path_lines body sq ns)"
  using assms
proof (induction ns arbitrary: sq)
  case (Cons n ns)
  obtain t st d where n: "n = (t, st, d)" by (cases n)
  have r: "node_reads body (t, st, d)" using Cons.prems(2) [of n] n by simp
  let ?len = "length (concat (map node_bytes (n # ns)))"
  have "4 + length d \<le> ?len" by (simp add: n)
  note step = ParsePath_node [OF r this, of "concat (map node_bytes ns) @ spare" sq]
  show ?case
  proof (cases "ns = []")
    case True
    then show ?thesis using step n by (simp del: node_bytes.simps)
  next
    case False
    obtain m ms where ms: "ns = m # ms" using False by (cases ns) auto
    have "?len \<noteq> 4 + length d" by (cases m) (simp add: n ms)
    moreover have next_len: "?len - (4 + length d) = length (concat (map node_bytes ns))"
      by (simp add: n del: node_bytes.simps)
    have "ParsePath (concat (map node_bytes ns) @ spare, length (concat (map node_bytes ns))) (sq + 1)
        = Ok (path_lines body (sq + 1) ns)"
      using Cons.IH [OF False, of "sq + 1"] Cons.prems(2) by simp
    ultimately have "ParsePath (node_bytes (t, st, d) @ concat (map node_bytes ns) @ spare, ?len) sq
        = Ok (head_line sq (t, st, d) # body (t, st, d) @ path_lines body (sq + 1) ns)"
      unfolding step next_len by (simp only: if_False bind_res.simps)
    then show ?thesis by (simp add: n del: node_bytes.simps)
  qed
qed simp

lemma eof_reads: "node_reads (\<lambda>n. [[S ''EOF'']]) (127, 255, [])"
  by (simp add: node_reads_def parse_node_def)

lemma ParsePath_nodes_witness:
  "ParsePath (node_bytes (127, 255, []) @ [9, 9], length (node_bytes (127, 255, []))) 0
   = Ok [[N 0, S ''Type:'', N 127, S ''SubType:'', N 255, S ''Len:'', N 4, S ''Data'', B []], [S ''EOF'']]"
  using ParsePath_nodes [of "[(127, 255, [])]" "\<lambda>n. [[S ''EOF'']]" "[9, 9]" 0] eof_reads
  by (simp del: node_bytes.simps)

section \<open>Only paths are read\<close>

lemma take_node:
  assumes "byte_at b 0 = Ok t" and "byte_at b 1 = Ok st" and "u16_at b 2 = Ok len"
    and "4 \<le> unat len" and "unat len \<le> snd b" and "snd b \<le> length (fst b)"
  shows "take (unat len) (fst b) = node_bytes (t, st, drop 4 (take (unat len) (fst b)))"
proof -
  obtain bk n where b: "b = (bk, n)" by (cases b)
  let ?d = "drop 4 (take (unat len) bk)"
  have n4: "4 \<le> length bk" using assms b by simp
  have d: "4 + length ?d = unat len" using assms b by simp
  have "bk ! 0 = t" "bk ! 1 = st" using assms b by (auto simp: byte_at_def seen_def split: if_splits)
  moreover have "put_u16 len = take 2 (drop 2 bk)"
  proof -
    have "get_u16 (take (n - 2) (drop 2 bk)) = Ok len"
      using assms(3) by (auto simp: u16_at_def cut_from_def seen_def b split: if_splits)
    from f16.put_get [OF this] show ?thesis using assms b by (simp add: min_def split: if_splits)
  qed
  moreover have "take 4 bk = [bk ! 0, bk ! 1] @ take 2 (drop 2 bk)"
  proof -
    have "Suc (Suc (Suc (Suc 0))) \<le> length bk" using n4 by simp
    then obtain p q r s zs where "bk = p # q # r # s # zs"
      by (auto simp: Suc_le_length_iff)
    then show ?thesis by simp
  qed
  ultimately have "take 4 bk = [t, st] @ put_u16 len" by simp
  moreover have "take (unat len) bk = take 4 bk @ ?d"
    using assms(4) append_take_drop_id [of 4 "take (unat len) bk"] by (simp add: min_def)
  moreover have "word_of_nat (4 + length ?d) = len" unfolding d by simp
  ultimately show ?thesis unfolding b fst_conv node_bytes.simps by simp
qed

text \<open>
  Whenever the parser returns, the visible bytes are one or more nodes laid end to end,
  with at least one line printed for each; so a node whose length field is below four, or
  reaches beyond the path into the spare capacity of the slice, makes it panic.
\<close>

lemma ParsePath_sound:
  assumes "ParsePath b sq = Ok ls" and "snd b \<le> length (fst b)"
  shows "\<exists>ns. seen b = concat (map node_bytes ns) \<and> ns \<noteq> [] \<and> length ns \<le> length ls"
  using assms
proof (induction b sq arbitrary: ls rule: ParsePath.induct)
  case (1 b sq)
  from "1.prems"(1) obtain t st len pd node body where
      h: "byte_at b 0 = Ok t" "byte_at b 1 = Ok st" "u16_at b 2 = Ok len" "cut b 4 (unat len) = Ok pd"
        "cut b 0 (unat len) = Ok node" "parse_node t node = Ok body" and le: "unat len \<le> snd b"
    by (subst (asm) ParsePath.simps) (auto simp: Let_def split: if_splits)
  have four: "4 \<le> unat len" using h(4) by (auto simp: cut_def split: if_splits)
  note tn = take_node [OF h(1-3) four le "1.prems"(2)]
  let ?n = "(t, st, drop 4 (take (unat len) (fst b)))"
  let ?next = "(drop (unat len) (fst b), snd b - unat len)"
  have split: "seen b = node_bytes ?n @ seen ?next"
    unfolding seen_def tn [symmetric] using le by (simp add: take_drop [symmetric] del: node_bytes.simps)
      (metis le_add_diff_inverse take_add)
  show ?case
  proof (cases "snd ?next = 0")
    case True
    have "ls \<noteq> []" using "1.prems"(1) h le True by (subst (asm) ParsePath.simps) (auto simp: Let_def)
    then show ?thesis
      using split True by (intro exI [of _ "[?n]"]) (cases ls, auto simp: seen_def simp del: node_bytes.simps)
  next
    case False
    then obtain ls' where "ParsePath ?next (sq + 1) = Ok ls'" and ls: "length ls' < length ls"
      using "1.prems"(1) h le by (subst (asm) ParsePath.simps) (auto simp: Let_def)
    moreover have "snd ?next \<le> length (fst ?next)" using "1.prems"(2) le by simp
    ultimately obtain ns where "seen ?next = concat (map node_bytes ns)" "length ns \<le> length ls'"
      using "1.IH" [OF h refl le refl] False by blast
    then show ?thesis using split ls by (intro exI [of _ "?n # ns"]) (simp del: node_bytes.simps)
  qed
qed

lemma ParsePath_sound_witness:
  "\<exists>ns. seen (node_bytes (127, 255, []), 4) = concat (map node_bytes ns) \<and> ns \<noteq> []"
proof -
  have "ParsePath (node_bytes (127, 255, []) @ [], 4 + length []) 0
      = Ok [head_line 0 (127, 255, []), [S ''EOF'']]"
    using ParsePath_node [OF eof_reads, of "4 + length []" "[]" 0] by simp
  then have p: "ParsePath (node_bytes (127, 255, []), 4) 0 = Ok [head_line 0 (127, 255, []), [S ''EOF'']]"
    by simp
  from ParsePath_sound [OF p] show ?thesis by auto
qed

section \<open>Hard drives\<close>

lemma u32_field: "k = length pre \<Longrightarrow> k + 4 \<le> n \<Longrightarrow> u32_at (pre @ put_u32 v @ post, n) k = Ok v"
  by (simp add: u32_at_def cut_from_def seen_def f32.length_put f32.get_put)

lemma u64_field: "k = length pre \<Longrightarrow> k + 8 \<le> n \<Longrightarrow> u64_at (pre @ put_u64 v @ post, n) k = Ok v"
  by (simp add: u64_at_def cut_from_def seen_def f64.length_put f64.get_put)

lemma byte_field: "k = length pre \<Longrightarrow> k < n \<Longrightarrow> byte_at (pre @ x # post, n) k = Ok x"
  by (simp add: byte_at_def seen_def nth_append)

definition hd_data :: "u32 \<Rightarrow> u64 \<Rightarrow> u64 \<Rightarrow> u8 list \<Rightarrow> u8 \<Rightarrow> u8 \<Rightarrow> u8 list" where
  "hd_data num start sz sig fmt st = put_u32 num @ put_u64 start @ put_u64 sz @ sig @ [fmt, st]"

text \<open>
  C34: reading a hard-drive node gives back the partition number, start, size, signature,
  format and signature type it was made from, whatever follows the node.
\<close>

theorem NewFilePath_hard_drive:
  assumes "length sig = 16" and "42 \<le> n"
  shows "\<exists>h. NewFilePath (node_bytes (4, 1, hd_data num start sz sig fmt st) @ rest, n) = Ok (HardDriveMedia h)
    \<and> hd_PartitionNumber h = num \<and> hd_PartitionStart h = start \<and> hd_PartitionSize h = sz
    \<and> hd_PartitionSignature h = sig \<and> hd_PartitionFormat h = fmt \<and> hd_SignatureType h = st
    \<and> hd_header h = \<lparr>fp_Type = 4, fp_SubType = 1, fp_Len = 42, fp_Data = hd_data num start sz sig fmt st\<rparr>"
proof -
  let ?h = "[4, 1] @ put_u16 42 :: u8 list"
  define D where "D = hd_data num start sz sig fmt st"
  have D: "D = put_u32 num @ put_u64 start @ put_u64 sz @ sig @ [fmt, st]" by (simp add: D_def hd_data_def)
  then have len: "length D = 38" using assms(1) by (simp add: f32.length_put f64.length_put)
  let ?b = "(node_bytes (4, 1, D) @ rest, n)"
  have b: "?b = (?h @ D @ rest, n)" by (simp add: len)
  have head: "byte_at ?b 0 = Ok 4" "byte_at ?b 1 = Ok 1" "u16_at ?b 2 = Ok 42"
      "cut ?b 4 42 = Ok (D @ rest, 38)"
    using node_head [of D n 4 1 rest] assms(2) len by (simp_all del: node_bytes.simps)
  have "u32_at ?b 4 = Ok num"
    unfolding b unfolding D append_assoc using assms(2) u32_field [of 4 ?h n num] by simp
  moreover have "u64_at ?b 8 = Ok start"
    unfolding b unfolding D append_assoc
    using assms(2) u64_field [of 8 "?h @ put_u32 num" n start] by (simp add: f32.length_put)
  moreover have "u64_at ?b 16 = Ok sz"
    unfolding b unfolding D append_assoc
    using assms(2) u64_field [of 16 "?h @ put_u32 num @ put_u64 start" n sz]
    by (simp add: f32.length_put f64.length_put)
  moreover have "cut ?b 24 40 = Ok (sig @ [fmt, st] @ rest, 16)"
    unfolding b unfolding D by (simp add: cut_def assms(1) f32.length_put f64.length_put)
  moreover have "byte_at ?b 40 = Ok fmt"
    unfolding b unfolding D append_assoc
    using assms byte_field [of 40 "?h @ put_u32 num @ put_u64 start @ put_u64 sz @ sig" n fmt]
    by (simp add: f32.length_put f64.length_put)
  moreover have "byte_at ?b 41 = Ok st"
    unfolding b unfolding D append_assoc
    using assms byte_field [of 41 "?h @ put_u32 num @ put_u64 start @ put_u64 sz @ sig @ [fmt]" n st]
    by (simp add: f32.length_put f64.length_put)
  ultimately have hd_ok: "NewHardDriveMediaDevicePath fp ?b = Ok \<lparr>hd_header = fp, hd_PartitionNumber = num,
      hd_PartitionStart = start, hd_PartitionSize = sz, hd_PartitionSignature = sig,
      hd_PartitionFormat = fmt, hd_SignatureType = st\<rparr>" for fp
    by (simp add: NewHardDriveMediaDevicePath_def seen_def assms(1) del: node_bytes.simps)
  have "NewFilePath ?b = bind_res (NewHardDriveMediaDevicePath
      \<lparr>fp_Type = 4, fp_SubType = 1, fp_Len = 42, fp_Data = D\<rparr> ?b) (\<lambda>h. Ok (HardDriveMedia h))"
    unfolding NewFilePath_def head
    using head(4) by (simp add: head ParseMediaDevice_def seen_def len del: node_bytes.simps)
  then show ?thesis unfolding hd_ok D_def [symmetric] by simp
qed

theorem NewFilePath_hard_drive_witness:
  "\<exists>h. NewFilePath (node_bytes (4, 1, hd_data 3 2048 409600 (replicate 16 7) 2 2) @ [0x7F], 42) = Ok (HardDriveMedia h)
     \<and> hd_PartitionStart h = 2048"
  using NewFilePath_hard_drive [of "replicate 16 7" 42 3 2048 409600 2 2 "[0x7F]"] by auto

end
