(* ===== verification/Daemon.thy ===== *)
theory Daemon
  imports Ldr_Prelude
begin

text \<open>
  The two ways the agent runs: \<open>main_linux.go\<close> with the signal handling of the vendored package
  \<open>go-daemon\<close> (\<open>command.go\<close>, \<open>signal.go\<close>), and the service callbacks of \<open>main_windows.go\<close>.  Under
  Linux the main goroutine handles signals and a worker goroutine runs the services; they
  meet at two unbuffered channels, so they are modelled as one transition system.
\<close>

section \<open>The command line\<close>

datatype os_signal = SIGQUIT | SIGTERM | SIGHUP

text \<open>The flags \<open>main\<close> registers, with their signals.\<close>

definition commands :: "(string \<times> os_signal) list" where
  "commands = [(''quit'', SIGQUIT), (''stop'', SIGTERM), (''reload'', SIGHUP)]"

definition active_signals :: "string \<Rightarrow> os_signal list" where
  "active_signals flag = map snd (filter (\<lambda>c. fst c = flag) commands)"

text \<open>\<open>SendCommands\<close>: up to the first signal that cannot be delivered.\<close>

fun SendCommands :: "(os_signal \<Rightarrow> goerr option) \<Rightarrow> os_signal list \<Rightarrow> os_signal list" where
  "SendCommands deliver [] = []"
| "SendCommands deliver (sig # sigs) =
     (case deliver sig of None \<Rightarrow> sig # SendCommands deliver sigs | Some err \<Rightarrow> [])"

datatype main_outcome =
    Fatal string
  | Signalled nat "os_signal list"
  | Crash panic
  | Parent
  | Child

text \<open>
  \<open>main\<close> up to the signal loop: with an active flag it signals the running daemon, otherwise
  the parent of the new process returns and the child goes on.  The search gives an error, a
  process, or neither, and nothing checks for the last: signalling it dereferences nil.
\<close>

definition main_linux ::
  "string \<Rightarrow> goerr + nat option \<Rightarrow> (nat \<Rightarrow> os_signal \<Rightarrow> goerr option) \<Rightarrow> goerr + bool \<Rightarrow> main_outcome" where
  "main_linux flag search deliver reborn =
     (if active_signals flag \<noteq> [] then
        (case search of
           Inl err \<Rightarrow> Fatal ''Unable to send signal''
         | Inr None \<Rightarrow> Crash NilDeref
         | Inr (Some p) \<Rightarrow> Signalled p (SendCommands (deliver p) (active_signals flag)))
      else
        (case reborn of
           Inl err \<Rightarrow> Fatal err
         | Inr is_parent \<Rightarrow> if is_parent then Parent else Child))"

section \<open>The daemon\<close>

text \<open>
  The main goroutine: in \<open>prg.Init()\<close>, on its way from there to \<open>signal.Notify\<close>, waiting for a
  signal, at \<open>stop <- struct{}{}\<close> for a signal, at \<open><-done\<close>, or past the loop; or the process
  was ended by a signal.  The worker: not started yet, starting the services, at \<open><-stop\<close>,
  stopping them, at \<open>done <- struct{}{}\<close>, or returned.
\<close>

datatype main_at =
    Initialising
  | Registering
  | Waiting
  | SendStop os_signal
  | RecvDone
  | Terminated
  | Killed os_signal

datatype worker_at = Unborn | Starting | RecvStop | Stopping | SendDone | Returned

record daemon =
  dm_main :: main_at
  dm_worker :: worker_at
  dm_queue :: "os_signal list"

definition daemon_init :: daemon where
  "daemon_init = \<lparr>dm_main = Initialising, dm_worker = Unborn, dm_queue = []\<rparr>"

text \<open>The error of a handler once it has returned: both handlers return nil.\<close>

definition handler_err :: "os_signal \<Rightarrow> goerr option" where
  "handler_err sig = None"

text \<open>What \<open>ServeSignals\<close> does with it: only an error ends the loop.\<close>

definition after_handler :: "os_signal \<Rightarrow> main_at" where
  "after_handler sig = (case handler_err sig of None \<Rightarrow> Waiting | Some err \<Rightarrow> Terminated)"

text \<open>\<open>termHandler\<close> begins with the send on \<open>stop\<close>, \<open>reloadHandler\<close> only logs.\<close>

definition enter_handler :: "os_signal \<Rightarrow> main_at" where
  "enter_handler sig = (if sig = SIGHUP then after_handler sig else SendStop sig)"

text \<open>Has \<open>ServeSignals\<close> called \<open>signal.Notify\<close>, and does the process still run?\<close>

fun notified :: "main_at \<Rightarrow> bool" where
  "notified Initialising = False"
| "notified Registering = False"
| "notified (Killed sig) = False"
| "notified _ = True"

fun killed :: "main_at \<Rightarrow> bool" where
  "killed (Killed sig) = True"
| "killed _ = False"

text \<open>
  Until \<open>signal.Notify\<close> the three signals have their default action, which ends the process,
  while \<open>Init\<close> and then the worker already run.  From there on a signal goes to the channel,
  which holds eight; the runtime drops one that finds it full.  The steps of the two
  goroutines, and the two rendezvous.
\<close>

inductive dstep :: "daemon \<Rightarrow> daemon \<Rightarrow> bool" where
  default_action: "\<not> notified (dm_main s) \<Longrightarrow> \<not> killed (dm_main s) \<Longrightarrow> dstep s (s\<lparr>dm_main := Killed sig\<rparr>)"
| init: "dm_main s = Initialising \<Longrightarrow> dstep s (s\<lparr>dm_main := Registering, dm_worker := Starting\<rparr>)"
| notify: "dm_main s = Registering \<Longrightarrow> dstep s (s\<lparr>dm_main := Waiting\<rparr>)"
| arrive: "notified (dm_main s) \<Longrightarrow> length (dm_queue s) < 8
    \<Longrightarrow> dstep s (s\<lparr>dm_queue := dm_queue s @ [sig]\<rparr>)"
| take: "dm_main s = Waiting \<Longrightarrow> dm_queue s = sig # q
    \<Longrightarrow> dstep s (s\<lparr>dm_main := enter_handler sig, dm_queue := q\<rparr>)"
| started: "dm_worker s = Starting \<Longrightarrow> \<not> killed (dm_main s) \<Longrightarrow> dstep s (s\<lparr>dm_worker := RecvStop\<rparr>)"
| stop: "dm_main s = SendStop sig \<Longrightarrow> dm_worker s = RecvStop
    \<Longrightarrow> dstep s (s\<lparr>dm_main := (if sig = SIGQUIT then RecvDone else after_handler sig),
                    dm_worker := Stopping\<rparr>)"
| stopped: "dm_worker s = Stopping \<Longrightarrow> \<not> killed (dm_main s) \<Longrightarrow> dstep s (s\<lparr>dm_worker := SendDone\<rparr>)"
| finish: "dm_main s = RecvDone \<Longrightarrow> dm_worker s = SendDone
    \<Longrightarrow> dstep s (s\<lparr>dm_main := after_handler SIGQUIT, dm_worker := Returned\<rparr>)"

inductive_cases dstep_cases: "dstep s t"

abbreviation dreach :: "daemon \<Rightarrow> daemon \<Rightarrow> bool" where
  "dreach \<equiv> dstep\<^sup>*\<^sup>*"

section \<open>The Windows service\<close>

text \<open>Where the log goes, and how far the program came.\<close>

datatype log_dest = Stderr | LogFile | Remote

record win_program =
  wp_log :: log_dest
  wp_opened :: bool
  wp_inits :: nat
  wp_started :: nat

text \<open>\<open>ServiceCtxt.Init\<close>: the services' initialisers in order, up to the first error.\<close>

fun init_services :: "goerr option list \<Rightarrow> win_program \<Rightarrow> goerr option \<times> win_program" where
  "init_services [] p = (None, p)"
| "init_services (r # rs) p =
     (let p' = p\<lparr>wp_inits := wp_inits p + 1\<rparr> in
      case r of Some err \<Rightarrow> (Some err, p') | None \<Rightarrow> init_services rs p')"

text \<open>\<open>ServiceCtxt.Start\<close> and \<open>Stop\<close> drop the services' errors.\<close>

definition start_services :: "goerr option list \<Rightarrow> win_program \<Rightarrow> win_program" where
  "start_services rs p = p\<lparr>wp_started := wp_started p + length rs\<rparr>"

definition win_Init ::
  "bool \<Rightarrow> goerr option \<Rightarrow> goerr option \<Rightarrow> goerr option \<Rightarrow> goerr option \<Rightarrow> goerr option list
   \<Rightarrow> win_program \<Rightarrow> goerr option \<times> win_program" where
  "win_Init is_service abs_err open_err resolve_err dial_err services p =
     (let log_file =
        (if is_service then
           (case abs_err of
              Some err \<Rightarrow> (Some err, p)
            | None \<Rightarrow>
                (case open_err of
                   Some err \<Rightarrow> (Some err, p)
                 | None \<Rightarrow> (None, p\<lparr>wp_log := LogFile, wp_opened := True\<rparr>)))
         else (None, p)) in
      case log_file of
        (Some err, p1) \<Rightarrow> (Some err, p1)
      | (None, p1) \<Rightarrow>
          (let p2 = (if resolve_err = None \<and> dial_err = None then p1\<lparr>wp_log := Remote\<rparr> else p1)
           in init_services services p2))"

definition win_Start :: "goerr option list \<Rightarrow> win_program \<Rightarrow> goerr option \<times> win_program" where
  "win_Start services p = (None, start_services services p)"

end
