(* ===== verification/Daemon_Correct.thy ===== *)
theory Daemon_Correct
  imports Daemon
begin

text \<open>
  What the daemon guarantees: the signal loop never ends, a signal ends the process only
  before the loop has asked for signals, the first stop is carried out, and after it every
  further stop request blocks the loop for good.
\<close>

section \<open>The loop\<close>

definition dm_inv :: "daemon \<Rightarrow> bool" where
  "dm_inv s \<longleftrightarrow> dm_main s \<noteq> Terminated \<and> length (dm_queue s) \<le> 8
     \<and> (dm_worker s = Unborn \<longrightarrow> dm_main s = Initialising \<or> killed (dm_main s))
     \<and> (dm_main s = Initialising \<longrightarrow> dm_worker s = Unborn)
     \<and> (\<not> notified (dm_main s) \<longrightarrow> dm_queue s = [] \<and> dm_worker s \<in> {Unborn, Starting, RecvStop})
     \<and> (dm_main s = RecvDone \<longrightarrow> dm_worker s = Stopping \<or> dm_worker s = SendDone)"

lemma after_handler_waiting: "after_handler sig = Waiting"
  by (simp add: after_handler_def handler_err_def)

lemma enter_handler_cases: "enter_handler sig = (if sig = SIGHUP then Waiting else SendStop sig)"
  by (simp add: enter_handler_def after_handler_waiting)

lemma dm_inv_step: "dstep s t \<Longrightarrow> dm_inv s \<Longrightarrow> dm_inv t"
  by (induction rule: dstep.induct) (auto simp: dm_inv_def after_handler_waiting enter_handler_cases)

text \<open>Once the loop has asked for signals none of them ends the process.\<close>

lemma notified_step: "dstep s t \<Longrightarrow> notified (dm_main s) \<Longrightarrow> notified (dm_main t)"
  by (induction rule: dstep.induct) (auto simp: after_handler_waiting enter_handler_cases)

lemma notified_stays: "dreach s t \<Longrightarrow> notified (dm_main s) \<Longrightarrow> notified (dm_main t)"
  by (induction rule: rtranclp_induct) (auto dest: notified_step)

lemma notified_not_killed: "notified m \<Longrightarrow> \<not> killed m"
  by (cases m) simp_all

lemma dm_inv_reach: "dreach daemon_init s \<Longrightarrow> dm_inv s"
proof (induction rule: rtranclp_induct)
  case base
  show ?case by (simp add: dm_inv_def daemon_init_def)
next
  case (step t u)
  from dm_inv_step [OF step.hyps(2) step.IH] show ?case .
qed

text \<open>
  The signal loop never ends: in every reachable state the main goroutine is before, in or
  between handlers, or a signal ended the process before the loop had asked for signals; at
  most eight signals wait.
\<close>

lemma daemon_never_terminates:
  assumes "dreach daemon_init s"
  shows "dm_main s \<noteq> Terminated \<and> length (dm_queue s) \<le> 8"
  using dm_inv_reach [OF assms] by (simp add: dm_inv_def)

section \<open>Stopping\<close>

text \<open>
  A first stop request can be carried out: from the state in which the handler offers it the
  services are stopped and the main goroutine waits for signals again.  The worker returns
  only after \<open>SIGQUIT\<close>; after \<open>SIGTERM\<close> it is left sending on \<open>done\<close>.
\<close>

lemma first_stop_served:
  assumes "dm_main s = SendStop sig" and "dm_worker s = Starting \<or> dm_worker s = RecvStop"
  shows "\<exists>t. dreach s t \<and> dm_main t = Waiting \<and> dm_queue t = dm_queue s
    \<and> dm_worker t = (if sig = SIGQUIT then Returned else SendDone)"
proof -
  define r where "r = s\<lparr>dm_worker := RecvStop\<rparr>"
  have r: "dreach s r"
  proof (cases "dm_worker s = Starting")
    case True
    then show ?thesis using dstep.started [of s] assms(1) unfolding r_def by auto
  next
    case False
    then have "r = s" using assms(2) by (simp add: r_def)
    then show ?thesis by simp
  qed
  define u where "u = r\<lparr>dm_main := (if sig = SIGQUIT then RecvDone else Waiting), dm_worker := SendDone\<rparr>"
  have "dstep r (r\<lparr>dm_main := (if sig = SIGQUIT then RecvDone else Waiting), dm_worker := Stopping\<rparr>)"
    using dstep.stop [of r sig] assms(1) by (simp add: r_def after_handler_waiting cong: if_cong)
  moreover have "dstep \<dots> u"
    using dstep.stopped [of "r\<lparr>dm_main := (if sig = SIGQUIT then RecvDone else Waiting), dm_worker := Stopping\<rparr>"]
    by (simp add: u_def)
  ultimately have u: "dreach s u" using r by (meson rtranclp.rtrancl_into_rtrancl)
  show ?thesis
  proof (cases "sig = SIGQUIT")
    case True
    then have "dstep u (u\<lparr>dm_main := Waiting, dm_worker := Returned\<rparr>)"
      using dstep.finish [of u] by (simp add: u_def after_handler_waiting)
    with u True show ?thesis
      by (intro exI [of _ "u\<lparr>dm_main := Waiting, dm_worker := Returned\<rparr>"])
        (auto simp: u_def r_def intro: rtranclp.rtrancl_into_rtrancl)
  next
    case False
    with u show ?thesis by (intro exI [of _ u]) (simp add: u_def r_def)
  qed
qed

text \<open>
  Once the services were told to stop, the next \<open>SIGTERM\<close> or \<open>SIGQUIT\<close> the loop takes blocks
  the main goroutine for ever: no state is reachable in which it handles another signal,
  so not even \<open>SIGHUP\<close> is taken from the queue.
\<close>

lemma stop_blocked:
  assumes "dreach s t" and "dm_main s = SendStop sig" and "dm_worker s \<notin> {Unborn, Starting, RecvStop}"
  shows "dm_main t = SendStop sig \<and> dm_worker t \<notin> {Unborn, Starting, RecvStop} \<and> (\<exists>z. dm_queue t = dm_queue s @ z)"
  using assms(1)
proof (induction rule: rtranclp_induct)
  case base
  show ?case using assms(2,3) by simp
next
  case (step t v)
  from step.hyps(2) step.IH show ?case by (cases rule: dstep.cases) auto
qed

text \<open>Behind the first stop request the services are stopped, whatever else arrives meanwhile.\<close>

lemma stop_under_way:
  assumes "dreach s u" and "dm_main s = SendStop sig" and "dm_worker s = Starting \<or> dm_worker s = RecvStop"
  shows "(dm_main u = SendStop sig \<and> (dm_worker u = Starting \<or> dm_worker u = RecvStop))
    \<or> (dm_worker u \<in> {Stopping, SendDone, Returned} \<and> \<not> killed (dm_main u))"
  using assms(1)
proof (induction rule: rtranclp_induct)
  case base
  show ?case using assms(2,3) by simp
next
  case (step t v)
  have "notified (dm_main t)" using notified_stays [OF step.hyps(1)] assms(2) by simp
  with step.hyps(2) step.IH notified_not_killed [OF notified_step [OF step.hyps(2)]]
  show ?case by (cases rule: dstep.cases) auto
qed

lemma stop_carried_out:
  assumes "dreach s u" and "dm_main s = SendStop sig" and "dm_worker s = Starting \<or> dm_worker s = RecvStop"
  shows "\<exists>t. dreach u t \<and> dm_worker t \<in> {SendDone, Returned}"
  using stop_under_way [OF assms]
proof (elim disjE conjE)
  assume "dm_main u = SendStop sig" and w: "dm_worker u = Starting" 
  from first_stop_served [OF this(1)] w show ?thesis by (auto split: if_splits)
next
  assume "dm_main u = SendStop sig" and w: "dm_worker u = RecvStop" 
  from first_stop_served [OF this(1)] w show ?thesis by (auto split: if_splits)
next
  assume w: "dm_worker u \<in> {Stopping, SendDone, Returned}" and k: "\<not> killed (dm_main u)"
  show ?thesis
  proof (cases "dm_worker u = Stopping")
    case True
    with k show ?thesis using dstep.stopped [of u] by (intro exI [of _ "u\<lparr>dm_worker := SendDone\<rparr>"]) auto
  next
    case False
    with w show ?thesis by (intro exI [of _ u]) auto
  qed
qed


text \<open>The daemon that was sent \<open>SIGTERM\<close> twice.\<close>

definition terminated_once :: daemon where
  "terminated_once = \<lparr>dm_main = Waiting, dm_worker = SendDone, dm_queue = []\<rparr>"

lemma take_signal:
  assumes "dreach daemon_init s" and "dm_main s = Waiting" and "dm_queue s = []" and "sig \<noteq> SIGHUP"
  shows "dreach daemon_init (s\<lparr>dm_main := SendStop sig\<rparr>)"
proof -
  have "dstep s (s\<lparr>dm_queue := [sig]\<rparr>)" using dstep.arrive [of s sig] assms(2,3) by simp
  moreover have "dstep (s\<lparr>dm_queue := [sig]\<rparr>) (s\<lparr>dm_main := SendStop sig\<rparr>)"
    using dstep.take [of "s\<lparr>dm_queue := [sig]\<rparr>" sig "[]"] assms(2-4) by (cases s) (simp add: enter_handler_cases)
  ultimately show ?thesis using assms(1) by (meson rtranclp.rtrancl_into_rtrancl)
qed

lemma daemon_waits: "dreach daemon_init \<lparr>dm_main = Waiting, dm_worker = Starting, dm_queue = []\<rparr>"
proof -
  have "dstep daemon_init \<lparr>dm_main = Registering, dm_worker = Starting, dm_queue = []\<rparr>"
    using dstep.init [of daemon_init] by (simp add: daemon_init_def)
  moreover have "dstep \<lparr>dm_main = Registering, dm_worker = Starting, dm_queue = []\<rparr>
      \<lparr>dm_main = Waiting, dm_worker = Starting, dm_queue = []\<rparr>"
    using dstep.notify [of "\<lparr>dm_main = Registering, dm_worker = Starting, dm_queue = []\<rparr>"] by simp
  ultimately show ?thesis by (meson rtranclp.rtrancl_refl rtranclp.rtrancl_into_rtrancl)
qed

lemma terminated_once_reachable: "dreach daemon_init terminated_once"
proof -
  let ?s = "\<lparr>dm_main = Waiting, dm_worker = Starting, dm_queue = []\<rparr>\<lparr>dm_main := SendStop SIGTERM\<rparr>"
  have s: "dreach daemon_init ?s" by (rule take_signal [OF daemon_waits]) simp_all
  obtain t where "dreach ?s t" "dm_main t = Waiting" "dm_queue t = []" "dm_worker t = SendDone"
    using first_stop_served [of ?s SIGTERM] by auto
  moreover from this have "t = terminated_once" by (simp add: terminated_once_def)
  ultimately show ?thesis using s by (auto intro: rtranclp_trans)
qed


section \<open>The command line and the Windows service\<close>

text \<open>A flag sends one signal, and only the three documented values of the flag do.\<close>

lemma flag_signals:
  "main_linux flag (Inr (Some p)) (\<lambda>p sig. None) reborn =
     (if flag = ''quit'' then Signalled p [SIGQUIT] else if flag = ''stop'' then Signalled p [SIGTERM]
      else if flag = ''reload'' then Signalled p [SIGHUP]
      else case reborn of Inl err \<Rightarrow> Fatal err | Inr p \<Rightarrow> if p then Parent else Child)"
  by (simp add: main_linux_def active_signals_def commands_def)

lemma init_services_log: "wp_log (snd (init_services rs p)) = wp_log p \<and> wp_opened (snd (init_services rs p)) = wp_opened p"
  by (induction rs arbitrary: p) (auto simp: Let_def split: option.split)

text \<open>As a Windows service the log file is opened and then abandoned for the remote endpoint.\<close>

lemma windows_log_file_unused:
  "win_Init True None None None None services p = (r, p')
   \<Longrightarrow> wp_opened p' \<and> wp_log p' = Remote"
  using init_services_log [of services "p\<lparr>wp_opened := True, wp_log := Remote\<rparr>"]
  by (auto simp: win_Init_def)

end
