(* ===== verification/Agent_Start.thy ===== *)
theory Agent_Start
  imports Network Daemon
begin

text \<open>
  How the agent comes up: \<open>ServiceCtxt.Init\<close> and \<open>Start\<close> of \<open>service/service.go\<close> with the
  initialisers of its five services, the privileges Windows asks for
  (\<open>service/power_ctl_windows.go\<close>), and the sources of network events
  (\<open>util/network_change_linux.go\<close>, \<open>util/network_change_windows.go\<close>).
\<close>

section \<open>Windows privileges\<close>

text \<open>
  The calls answer in the environment.  The state lists the privileges whose adjustment was
  accepted, that is, \<open>AdjustTokenPrivileges\<close> returned no error; it also succeeds with
  \<open>ERROR_NOT_ALL_ASSIGNED\<close>, so that an accepted privilege need not be one the process holds.
\<close>

record priv_env =
  pv_token :: "goerr + u64"
  pv_utf16 :: "string \<Rightarrow> goerr option"
  pv_lookup :: "string \<Rightarrow> goerr + u64"
  pv_adjust :: "u64 \<Rightarrow> u64 \<Rightarrow> goerr option"

text \<open>One privilege; the outcome of the adjustment is left to the caller.\<close>

definition enable_privilege :: "priv_env \<Rightarrow> u64 \<Rightarrow> string \<Rightarrow> (string list, goerr option) io" where
  "enable_privilege E tok name accepted =
     (case pv_utf16 E name of
        Some err \<Rightarrow> (Err err, accepted)
      | None \<Rightarrow>
          (case pv_lookup E name of
             Inl err \<Rightarrow> (Err err, accepted)
           | Inr luid \<Rightarrow>
               (case pv_adjust E tok luid of
                  Some err \<Rightarrow> (Ok (Some err), accepted)
                | None \<Rightarrow> (Ok None, accepted @ [name]))))"

text \<open>\<open>LowInit\<close>: the error of the second adjustment is dropped.\<close>

definition LowInit_windows :: "priv_env \<Rightarrow> (string list, unit) io" where
  "LowInit_windows E accepted =
     (case pv_token E of
        Inl err \<Rightarrow> (Err err, accepted)
      | Inr tok \<Rightarrow>
          bind_io (enable_privilege E tok ''SeShutdownPrivilege'') (\<lambda>err.
            case err of
              Some e \<Rightarrow> fail e
            | None \<Rightarrow>
                bind_io (enable_privilege E tok ''SeSystemEnvironmentPrivilege'') (\<lambda>_. ret ())) accepted)"

definition LowInit_linux :: "(string list, unit) io" where
  "LowInit_linux accepted = (Ok (), accepted)"

text \<open>\<open>prog_wim/main.go\<close> repeats the statements in its \<open>Init\<close>.\<close>

definition inspector_Init :: "priv_env \<Rightarrow> (string list, unit) io" where
  "inspector_Init E = LowInit_windows E"

text \<open>The unused \<open>InitiateShutdownW\<close>: the error of a failed call.\<close>

datatype sys_error = EINVAL | ERROR_IO_PENDING | Errno nat

definition errnoErr :: "nat \<Rightarrow> sys_error" where
  "errnoErr e = (if e = 0 then EINVAL else if e = 997 then ERROR_IO_PENDING else Errno e)"

definition InitiateShutdownW :: "u64 \<times> nat \<Rightarrow> sys_error option" where
  "InitiateShutdownW call = (if fst call = 0 then Some (errnoErr (snd call)) else None)"

section \<open>The services\<close>

datatype service = Announce | Power | Deploy | Record | Maintain

definition default_services :: "service list" where
  "default_services = [Announce, Power, Deploy, Record, Maintain]"

text \<open>
  The program as it comes up: the agent of the network model, the services registered with
  the server, the accepted privileges, and whether the power service has its firmware context.
\<close>

record boot =
  bt_agent :: agent
  bt_registered :: "service list"
  bt_accepted :: "string list"
  bt_efi :: bool

definition boot_zero :: boot where
  "boot_zero = \<lparr>bt_agent = agent_zero, bt_registered = [], bt_accepted = [], bt_efi = False\<rparr>"

text \<open>The outcome of resolving the multicast address, and the \<open>LowInit\<close> of the platform.\<close>

record boot_env =
  be_resolve :: "goerr option"
  be_low :: "(string list, unit) io"

definition register :: "service \<Rightarrow> boot \<Rightarrow> boot" where
  "register k s = s\<lparr>bt_registered := bt_registered s @ [k]\<rparr>"

definition Announce_Init :: "boot_env \<Rightarrow> (boot, unit) io" where
  "Announce_Init E s =
     (let s1 = s\<lparr>bt_agent := Subscribe Ann ''10.10.'' (bt_agent s)\<rparr> in
      case be_resolve E of
        Some err \<Rightarrow> (Panic (Explicit err), s1)
      | None \<Rightarrow> (Ok (), s1))"

definition PowerCtl_Init :: "boot_env \<Rightarrow> (boot, unit) io" where
  "PowerCtl_Init E s =
     (let s1 = register Power s; (r, accepted) = be_low E (bt_accepted s1); s2 = s1\<lparr>bt_accepted := accepted\<rparr> in
      case r of
        Ok _ \<Rightarrow> (Ok (), s2\<lparr>bt_efi := True\<rparr>)
      | Err e \<Rightarrow> (Err e, s2)
      | Panic p \<Rightarrow> (Panic p, s2)
      | Blocked \<Rightarrow> (Blocked, s2))"

definition DeploymentService_Init :: "(boot, unit) io" where
  "DeploymentService_Init s = (Ok (), register Deploy s)"

definition RecordingService_Init :: "(boot, unit) io" where
  "RecordingService_Init s = (Ok (), register Record s)"

text \<open>The error of \<open>os.Executable\<close>, whose path is only logged, is dropped.\<close>

definition MaintenanceService_Init :: "(boot, unit) io" where
  "MaintenanceService_Init s = (Ok (), register Maintain s)"

text \<open>The initialiser of each service, chosen by its type as the interface call does.\<close>

fun service_Init :: "boot_env \<Rightarrow> service \<Rightarrow> (boot, unit) io" where
  "service_Init E Announce s = Announce_Init E s"
| "service_Init E Power s = PowerCtl_Init E s"
| "service_Init E Deploy s = DeploymentService_Init s"
| "service_Init E Record s = RecordingService_Init s"
| "service_Init E Maintain s = MaintenanceService_Init s"

fun init_each :: "boot_env \<Rightarrow> service list \<Rightarrow> (boot, unit) io" where
  "init_each E [] s = (Ok (), s)"
| "init_each E (k # ks) s = bind_io (service_Init E k) (\<lambda>_. init_each E ks) s"

definition agent_Init :: "boot_env \<Rightarrow> (boot, unit) io" where
  "agent_Init E s =
     init_each E default_services (s\<lparr>bt_agent := Subscribe Ctx ''10.10.'' (bt_agent s)\<rparr>)"

section \<open>Network events\<close>

text \<open>
  Linux: opening and binding the netlink socket, then one event at once and one for each
  message received without an error.  Windows: two registrations of a callback that sends
  one event each time it is called.
\<close>

definition netlink_init :: "goerr option \<Rightarrow> goerr option \<Rightarrow> unit res" where
  "netlink_init socket_err bind_err =
     (case socket_err of
        Some e \<Rightarrow> Panic (Explicit e)
      | None \<Rightarrow> (case bind_err of Some e \<Rightarrow> Panic (Explicit e) | None \<Rightarrow> Ok ()))"

definition netlink_emits :: "goerr option list \<Rightarrow> nat" where
  "netlink_emits received = 1 + length (filter (\<lambda>e. e = None) received)"

definition iphlp_init :: "int \<times> goerr \<Rightarrow> int \<times> goerr \<Rightarrow> unit res" where
  "iphlp_init iface_call addr_call =
     (if fst iface_call \<noteq> 0 then Panic (Explicit (snd iface_call))
      else if fst addr_call \<noteq> 0 then Panic (Explicit (snd addr_call))
      else Ok ())"

section \<open>Starting and stopping\<close>

text \<open>\<open>Start\<close> and \<open>Stop\<close> of all five services return nil and touch nothing.\<close>

definition AnnounceService_Start :: "(boot, unit) io" where
  "AnnounceService_Start s = (Ok (), s)"

definition AnnounceService_Stop :: "(boot, unit) io" where
  "AnnounceService_Stop s = (Ok (), s)"

definition PowerCtl_Start :: "(boot, unit) io" where
  "PowerCtl_Start s = (Ok (), s)"

definition PowerCtl_Stop :: "(boot, unit) io" where
  "PowerCtl_Stop s = (Ok (), s)"

definition DeploymentService_Start :: "(boot, unit) io" where
  "DeploymentService_Start s = (Ok (), s)"

definition DeploymentService_Stop :: "(boot, unit) io" where
  "DeploymentService_Stop s = (Ok (), s)"

definition RecordingService_Start :: "(boot, unit) io" where
  "RecordingService_Start s = (Ok (), s)"

definition RecordingService_Stop :: "(boot, unit) io" where
  "RecordingService_Stop s = (Ok (), s)"

definition MaintenanceService_Start :: "(boot, unit) io" where
  "MaintenanceService_Start s = (Ok (), s)"

definition MaintenanceService_Stop :: "(boot, unit) io" where
  "MaintenanceService_Stop s = (Ok (), s)"

fun service_Start :: "service \<Rightarrow> (boot, unit) io" where
  "service_Start Announce s = AnnounceService_Start s"
| "service_Start Power s = PowerCtl_Start s"
| "service_Start Deploy s = DeploymentService_Start s"
| "service_Start Record s = RecordingService_Start s"
| "service_Start Maintain s = MaintenanceService_Start s"

fun service_Stop :: "service \<Rightarrow> (boot, unit) io" where
  "service_Stop Announce s = AnnounceService_Stop s"
| "service_Stop Power s = PowerCtl_Stop s"
| "service_Stop Deploy s = DeploymentService_Stop s"
| "service_Stop Record s = RecordingService_Stop s"
| "service_Stop Maintain s = MaintenanceService_Stop s"

lemmas service_Start_defs = AnnounceService_Start_def PowerCtl_Start_def DeploymentService_Start_def
  RecordingService_Start_def MaintenanceService_Start_def

lemmas service_Stop_defs = AnnounceService_Stop_def PowerCtl_Stop_def DeploymentService_Stop_def
  RecordingService_Stop_def MaintenanceService_Stop_def

lemmas service_Init_defs = DeploymentService_Init_def RecordingService_Init_def MaintenanceService_Init_def

text \<open>The loops over the services drop the errors.\<close>

definition each_service :: "(service \<Rightarrow> (boot, unit) io) \<Rightarrow> service list \<Rightarrow> boot \<Rightarrow> boot" where
  "each_service f ks s = fold (\<lambda>k s. snd (f k s)) ks s"

text \<open>\<open>ServiceCtxt.Start\<close>: the notifier, whose event source may panic, then the services.\<close>

definition agent_Start :: "unit res \<Rightarrow> (boot, unit) io" where
  "agent_Start notifier s =
     (case notifier of
        Ok _ \<Rightarrow> (Ok (), each_service service_Start default_services s)
      | r \<Rightarrow> (r, s))"

definition agent_Stop :: "(boot, unit) io" where
  "agent_Stop s = (Ok (), each_service service_Stop default_services s)"

lemma agent_Start_nothing: "agent_Start notifier s = (notifier, s)"
  by (cases notifier) (simp_all add: agent_Start_def each_service_def service_Start_defs default_services_def)

lemma agent_Stop_nothing: "agent_Stop s = (Ok (), s)"
  by (simp add: agent_Stop_def each_service_def service_Stop_defs default_services_def)

section \<open>The agent on Linux\<close>

text \<open>\<open>main\<close> drops the error of \<open>Init\<close>, and the worker starts the agent.\<close>

definition linux_agent :: "goerr option \<Rightarrow> unit res \<Rightarrow> (boot, unit) io" where
  "linux_agent resolve notifier s =
     (case agent_Init \<lparr>be_resolve = resolve, be_low = LowInit_linux\<rparr> s of
        (Panic p, s1) \<Rightarrow> (Panic p, s1)
      | (Blocked, s1) \<Rightarrow> (Blocked, s1)
      | (_, s1) \<Rightarrow> agent_Start notifier s1)"

end
