(* ===== verification/Agent_Start_Correct.thy ===== *)
theory Agent_Start_Correct
  imports Agent_Start Network_Correct
begin

text \<open>
  What a start of the agent guarantees: which services a client finds, which adjustments of
  its privileges were accepted, and that the network model starts from the state the
  initialisers leave.
\<close>

section \<open>Privileges\<close>

text \<open>
  The lookups of both privileges succeed and the adjustment of the first is accepted; the
  adjustment of the second is accepted.
\<close>

definition low_accepted :: "priv_env \<Rightarrow> bool" where
  "low_accepted P \<longleftrightarrow>
     (case (pv_token P, pv_lookup P ''SeShutdownPrivilege'', pv_lookup P ''SeSystemEnvironmentPrivilege'') of
        (Inr tok, Inr l1, Inr l2) \<Rightarrow>
          pv_utf16 P ''SeShutdownPrivilege'' = None \<and> pv_adjust P tok l1 = None
          \<and> pv_utf16 P ''SeSystemEnvironmentPrivilege'' = None
      | _ \<Rightarrow> False)"

definition variables_accepted :: "priv_env \<Rightarrow> bool" where
  "variables_accepted P \<longleftrightarrow>
     (case (pv_token P, pv_lookup P ''SeSystemEnvironmentPrivilege'') of
        (Inr tok, Inr l2) \<Rightarrow> pv_adjust P tok l2 = None
      | _ \<Rightarrow> False)"

lemmas privilege_defs = LowInit_windows_def enable_privilege_def low_accepted_def variables_accepted_def

lemma LowInit_windows_ok:
  "low_accepted P \<Longrightarrow> LowInit_windows P privs
     = (Ok (), privs @ [''SeShutdownPrivilege'']
          @ (if variables_accepted P then [''SeSystemEnvironmentPrivilege''] else []))"
  by (auto simp: privilege_defs bind_io_def split: sum.splits option.splits)

lemma LowInit_windows_fails:
  "\<not> low_accepted P \<Longrightarrow> \<exists>e privs'. LowInit_windows P privs = (Err e, privs')"
  by (auto simp: privilege_defs bind_io_def split: sum.splits option.splits)

section \<open>Services\<close>

lemma agent_Init_ok:
  assumes "be_resolve E = None" and "be_low E [] = (Ok (), privs)"
  shows "agent_Init E boot_zero = (Ok (),
    \<lparr>bt_agent = agent_init, bt_registered = [Power, Deploy, Record, Maintain], bt_accepted = privs, bt_efi = True\<rparr>)"
  using assms
  by (simp add: agent_Init_def default_services_def boot_zero_def service_Init_defs Announce_Init_def PowerCtl_Init_def register_def
      bind_io_def agent_init_def)

lemma agent_Init_refused:
  assumes "be_resolve E = None" and "be_low E [] = (Err e, privs)"
  shows "agent_Init E boot_zero = (Err e,
    \<lparr>bt_agent = agent_init, bt_registered = [Power], bt_accepted = privs, bt_efi = False\<rparr>)"
  using assms
  by (simp add: agent_Init_def default_services_def boot_zero_def service_Init_defs Announce_Init_def PowerCtl_Init_def register_def
      bind_io_def agent_init_def)

lemma linux_agent_boot: "linux_agent None notifier boot_zero = (notifier,
    \<lparr>bt_agent = agent_init, bt_registered = [Power, Deploy, Record, Maintain], bt_accepted = [], bt_efi = True\<rparr>)"
  by (simp add: linux_agent_def agent_Init_ok LowInit_linux_def agent_Start_nothing)

lemma agent_Init_unresolved:
  assumes "be_resolve E = Some e"
  shows "\<exists>s. agent_Init E boot_zero = (Panic (Explicit e), s) \<and> bt_registered s = []"
  using assms
  by (simp add: agent_Init_def default_services_def boot_zero_def Announce_Init_def bind_io_def)

definition sample_privileges :: priv_env where
  "sample_privileges = \<lparr>pv_token = Inr 8, pv_utf16 = (\<lambda>n. None),
     pv_lookup = (\<lambda>n. Inr (if n = ''SeShutdownPrivilege'' then 19 else 22)),
     pv_adjust = (\<lambda>t l. if l = 22 then Some ''denied'' else None)\<rparr>"

end
