(* ===== verification/Archive.thy ===== *)
theory Archive
  imports Go_Fmt File_Transfer
begin

text \<open>
  \<open>test.go\<close>: the tool that stores the files of a directory tree compressed under the SHA-1 sums
  of their contents (\<open>listfiles\<close>) and restores the tree from that archive (\<open>mains\<close>).  The hash,
  the compression and the failures of the file system are parameters; every failure but one
  while restored bytes are copied is a panic.
\<close>

section \<open>State\<close>

text \<open>What \<open>os.ReadDir\<close> and reading the files give for the tree below the base directory.\<close>

datatype entry = Dir string "entry list" | File string "u8 list"

fun entry_name :: "entry \<Rightarrow> string" where
  "entry_name (Dir n es) = n"
| "entry_name (File n c) = n"

record arch_env =
  ae_base :: string
  ae_hash :: "u8 list \<Rightarrow> u8 list"
  ae_zip :: "u8 list \<Rightarrow> u8 list"
  ae_unzip :: "u8 list \<Rightarrow> goerr + u8 list"
  ae_readdir :: "string \<Rightarrow> goerr option"
  ae_open :: "string \<Rightarrow> goerr option"
  ae_read :: "string \<Rightarrow> goerr option"
  ae_mkdir :: "string \<Rightarrow> goerr option"
  ae_create :: "string \<Rightarrow> goerr option"
  ae_write :: "string \<Rightarrow> u8 list \<Rightarrow> nat \<times> goerr option"

record arch =
  ar_count :: nat
  ar_ss :: "string \<rightharpoonup> string"
  ar_files :: "string \<rightharpoonup> u8 list"

section \<open>Archiving\<close>

text \<open>\<open>path.Base\<close> and \<open>path.Dir\<close>.\<close>

definition path_base :: "string \<Rightarrow> string" where
  "path_base p =
     (let q = rev (dropWhile (\<lambda>c. c = CHR ''/'') (rev p)) in
      if p = [] then ''.''
      else if q = [] then ''/''
      else last (str_split ''/'' q))"

definition path_dir :: "string \<Rightarrow> string" where
  "path_dir p = path_clean (rev (dropWhile (\<lambda>c. c \<noteq> CHR ''/'') (rev p)))"

definition or_panic :: "goerr option \<Rightarrow> (arch, unit) io" where
  "or_panic e s = (case e of None \<Rightarrow> Ok () | Some err \<Rightarrow> Panic (Explicit err), s)"

text \<open>
  A file opened for writing without truncation and written from its start; a copy that fails
  has stored a number of the bytes.
\<close>

definition put_file :: "string \<Rightarrow> u8 list \<Rightarrow> arch \<Rightarrow> arch" where
  "put_file p bytes s =
     s\<lparr>ar_files := (ar_files s)(p \<mapsto> pwrite (case ar_files s p of None \<Rightarrow> [] | Some c \<Rightarrow> c) 0 bytes)\<rparr>"

definition copy_file :: "arch_env \<Rightarrow> string \<Rightarrow> u8 list \<Rightarrow> (arch, goerr option) io" where
  "copy_file E p bytes s =
     (case ae_write E p bytes of
        (k, Some err) \<Rightarrow> (Ok (Some err), put_file p (take k bytes) s)
      | (k, None) \<Rightarrow> (Ok None, put_file p bytes s))"

definition arc_dir :: "string \<Rightarrow> string res" where
  "arc_dir hex = bind_res (slice hex 0 2) (\<lambda>pre. Ok (path_join [''arc'', pre]))"

definition store_file :: "arch_env \<Rightarrow> string \<Rightarrow> string \<Rightarrow> u8 list \<Rightarrow> (arch, unit) io" where
  "store_file E dir name content =
     (let fname = path_join [ae_base E, dir, name];
          hex = hex_str (ae_hash E content) in
      bind_io (or_panic (ae_open E fname)) (\<lambda>_.
      bind_io (or_panic (ae_read E fname)) (\<lambda>_.
      bind_io (Pair (arc_dir hex)) (\<lambda>dstDir.
      bind_io (or_panic (ae_mkdir E dstDir)) (\<lambda>_.
      let srcFileName = path_join [dir, path_base fname];
          dstFileName = path_join [dstDir, hex] in
      bind_io (or_panic (ae_open E (path_join [ae_base E, srcFileName]))) (\<lambda>_.
      bind_io (or_panic (ae_create E dstFileName)) (\<lambda>_.
      bind_io (copy_file E dstFileName (ae_zip E content)) (\<lambda>e.
      bind_io (or_panic e) (\<lambda>_ s.
        (Ok (), s\<lparr>ar_ss := (ar_ss s)(srcFileName \<mapsto> dstFileName)\<rparr>))))))))))"

text \<open>
  \<open>listfiles\<close> reads the directory and walks through its entries; the names the recursive call
  returns are dropped.
\<close>

fun list_entries :: "arch_env \<Rightarrow> string \<Rightarrow> entry list \<Rightarrow> (arch, string list) io" where
  "list_entries E dir [] s = (Ok [], s)"
| "list_entries E dir (Dir n sub # es) s =
     bind_io (\<lambda>s. bind_io (or_panic (ae_readdir E (path_join [ae_base E, path_join [dir, n]])))
         (\<lambda>_. list_entries E (path_join [dir, n]) sub) (s\<lparr>ar_count := ar_count s + 1\<rparr>))
       (\<lambda>_. bind_io (list_entries E dir es) (\<lambda>names. ret (n # names))) s"
| "list_entries E dir (File n c # es) s =
     bind_io (\<lambda>s. store_file E dir n c (s\<lparr>ar_count := ar_count s + 1\<rparr>))
       (\<lambda>_. bind_io (list_entries E dir es) (\<lambda>names. ret (n # names))) s"

definition listfiles :: "arch_env \<Rightarrow> string \<Rightarrow> entry list \<Rightarrow> (arch, string list) io" where
  "listfiles E dir es =
     bind_io (or_panic (ae_readdir E (path_join [ae_base E, dir]))) (\<lambda>_. list_entries E dir es)"

section \<open>Restoring\<close>

text \<open>
  One restored file; the decompression gives an error for the header, or the bytes up to its
  end or to an error in the data, which is only logged.  The archive map is iterated in an
  order of the runtime's choice, an argument here.
\<close>

definition restore_file :: "arch_env \<Rightarrow> string \<Rightarrow> (arch, unit) io" where
  "restore_file E dst s =
     (case ar_ss s dst of
        None \<Rightarrow> (Ok (), s)
      | Some src \<Rightarrow>
          bind_io (or_panic (ae_open E src)) (\<lambda>_.
          (let dstFileName = path_join [''ext'', dst] in
           bind_io (or_panic (ae_mkdir E (path_dir dstFileName))) (\<lambda>_.
           bind_io (or_panic (ae_create E dstFileName)) (\<lambda>_ s.
             case ar_files s src of
               None \<Rightarrow> (Panic (Explicit ''file does not exist''), s)
             | Some z \<Rightarrow>
                 (case ae_unzip E z of
                    Inl err \<Rightarrow> (Panic (Explicit err), s)
                  | Inr content \<Rightarrow>
                      bind_io (copy_file E dstFileName content) (\<lambda>_. ret ()) s))))) s)"

fun restore_loop :: "arch_env \<Rightarrow> string list \<Rightarrow> (arch, unit) io" where
  "restore_loop E [] s = (Ok (), s)"
| "restore_loop E (dst # dsts) s = bind_io (restore_file E dst) (\<lambda>_. restore_loop E dsts) s"

definition mains :: "arch_env \<Rightarrow> entry list \<Rightarrow> string list \<Rightarrow> (arch, unit) io" where
  "mains E tree order = bind_io (listfiles E [] tree) (\<lambda>_. restore_loop E order)"

end
