(* ===== verification/Archive_Correct.thy ===== *)
theory Archive_Correct
  imports Archive
begin

text \<open>
  What archiving guarantees: every file of the tree is recorded under the sum of its content,
  one archive entry holds all files with that sum, and each entry expands to the content.
\<close>

text \<open>The files of a tree with their paths, in the order they are visited.\<close>

fun tree_files :: "arch_env \<Rightarrow> string \<Rightarrow> entry list \<Rightarrow> (string \<times> u8 list) list" where
  "tree_files E dir [] = []"
| "tree_files E dir (Dir n sub # es) = tree_files E (path_join [dir, n]) sub @ tree_files E dir es"
| "tree_files E dir (File n c # es) =
     (path_join [dir, path_base (path_join [ae_base E, dir, n])], c) # tree_files E dir es"

fun tree_count :: "entry list \<Rightarrow> nat" where
  "tree_count [] = 0"
| "tree_count (Dir n sub # es) = 1 + tree_count sub + tree_count es"
| "tree_count (File n c # es) = 1 + tree_count es"

definition arc_name :: "arch_env \<Rightarrow> u8 list \<Rightarrow> string" where
  "arc_name E c = (let hex = hex_str (ae_hash E c) in path_join [path_join [''arc'', take 2 hex], hex])"

definition calm_arch :: "arch_env \<Rightarrow> bool" where
  "calm_arch E \<longleftrightarrow> ae_readdir E = (\<lambda>p. None) \<and> ae_open E = (\<lambda>p. None)
     \<and> ae_read E = (\<lambda>p. None) \<and> ae_write E = (\<lambda>p b. (length b, None)) \<and> ae_mkdir E = (\<lambda>p. None) \<and> ae_create E = (\<lambda>p. None)
     \<and> (\<forall>c. 2 \<le> length (hex_str (ae_hash E c)))"

text \<open>What archiving one file does when nothing fails.\<close>

definition archived :: "arch_env \<Rightarrow> string \<times> u8 list \<Rightarrow> arch \<Rightarrow> arch" where
  "archived E f s =
     (let s' = put_file (arc_name E (snd f)) (ae_zip E (snd f)) s
      in s'\<lparr>ar_ss := (ar_ss s')(fst f \<mapsto> arc_name E (snd f))\<rparr>)"

lemma store_file_calm:
  assumes "calm_arch E"
  shows "store_file E dir n c s
    = (Ok (), archived E (path_join [dir, path_base (path_join [ae_base E, dir, n])], c) s)"
proof -
  have "arc_dir (hex_str (ae_hash E c)) = Ok (path_join [''arc'', take 2 (hex_str (ae_hash E c))])"
    using assms by (simp add: arc_dir_def slice_def calm_arch_def)
  then show ?thesis
    using assms
    by (simp add: store_file_def or_panic_def calm_arch_def copy_file_def put_file_def
      bind_io_def Let_def archived_def arc_name_def)
qed

lemma archived_count: "archived E f (s\<lparr>ar_count := k\<rparr>) = (archived E f s)\<lparr>ar_count := k\<rparr>"
  by (simp add: archived_def put_file_def Let_def)

lemma fold_archived_count:
  "fold (archived E) fs (s\<lparr>ar_count := k\<rparr>) = (fold (archived E) fs s)\<lparr>ar_count := k\<rparr>"
  by (induction fs arbitrary: s) (simp_all add: archived_count)

lemma archived_keeps_count: "ar_count (fold (archived E) fs s) = ar_count s"
  by (induction fs arbitrary: s) (simp_all add: archived_def put_file_def Let_def)

lemma list_entries_calm:
  assumes "calm_arch E"
  shows "list_entries E dir es s = (Ok (map entry_name es),
    (fold (archived E) (tree_files E dir es) s)\<lparr>ar_count := ar_count s + tree_count es\<rparr>)"
  using assms
proof (induction E dir es s rule: list_entries.induct)
  case (2 E dir n sub es s)
  then have "or_panic (ae_readdir E (path_join [ae_base E, path_join [dir, n]])) = ret ()"
    by (auto simp: or_panic_def calm_arch_def)
  with 2 show ?case
    by (simp add: bind_io_def fold_archived_count archived_keeps_count)
next
  case (3 E dir n c es s)
  then show ?case
    by (simp add: bind_io_def store_file_calm archived_count fold_archived_count)
qed simp

lemma listfiles_calm:
  "calm_arch E \<Longrightarrow> listfiles E dir es s = (Ok (map entry_name es),
    (fold (archived E) (tree_files E dir es) s)\<lparr>ar_count := ar_count s + tree_count es\<rparr>)"
  by (simp add: listfiles_def or_panic_def calm_arch_def bind_io_def list_entries_calm [unfolded calm_arch_def])

text \<open>Different contents of the tree have different sums.\<close>

definition no_collision :: "arch_env \<Rightarrow> (string \<times> u8 list) list \<Rightarrow> bool" where
  "no_collision E fs \<longleftrightarrow> (\<forall>f \<in> set fs. \<forall>g \<in> set fs. arc_name E (snd f) = arc_name E (snd g) \<longrightarrow> snd f = snd g)"

definition holds :: "arch_env \<Rightarrow> string \<times> u8 list \<Rightarrow> arch \<Rightarrow> bool" where
  "holds E f s \<longleftrightarrow> ar_files s (arc_name E (snd f)) = Some (ae_zip E (snd f))"

definition clean :: "arch_env \<Rightarrow> string \<times> u8 list \<Rightarrow> arch \<Rightarrow> bool" where
  "clean E f s \<longleftrightarrow> ar_files s (arc_name E (snd f)) = None \<or> holds E f s"

lemma archived_holds: "clean E f s \<Longrightarrow> holds E f (archived E f s)"
  by (auto simp: clean_def holds_def archived_def put_file_def pwrite_def Let_def)

lemma archived_other:
  assumes "no_collision E (f # fs)" and "g \<in> set fs"
  shows "clean E f s \<Longrightarrow> clean E g s \<Longrightarrow> clean E g (archived E f s)"
    and "clean E f s \<Longrightarrow> holds E g s \<Longrightarrow> holds E g (archived E f s)"
proof -
  have "arc_name E (snd f) = arc_name E (snd g) \<Longrightarrow> snd f = snd g" using assms by (simp add: no_collision_def)
  then show "clean E f s \<Longrightarrow> clean E g s \<Longrightarrow> clean E g (archived E f s)"
    and "clean E f s \<Longrightarrow> holds E g s \<Longrightarrow> holds E g (archived E f s)"
    by (auto simp: clean_def holds_def archived_def put_file_def pwrite_def Let_def)
qed

lemma archived_frame:
  "nm \<notin> (\<lambda>f. arc_name E (snd f)) ` set fs \<Longrightarrow> ar_files (fold (archived E) fs s) nm = ar_files s nm"
  by (induction fs arbitrary: s) (auto simp: archived_def put_file_def Let_def)

lemma archived_ss: "p \<notin> fst ` set fs \<Longrightarrow> ar_ss (fold (archived E) fs s) p = ar_ss s p"
  by (induction fs arbitrary: s) (auto simp: archived_def put_file_def Let_def)

lemma archived_all:
  assumes "no_collision E (fs @ gs)" and "\<forall>f \<in> set (fs @ gs). clean E f s" and "\<forall>g \<in> set gs. holds E g s"
  shows "\<forall>f \<in> set (fs @ gs). holds E f (fold (archived E) fs s)"
  using assms
proof (induction fs arbitrary: gs s)
  case (Cons f fs)
  have nc: "no_collision E (fs @ f # gs)" using Cons.prems(1) by (auto simp: no_collision_def)
  have nc': "no_collision E (f # fs @ gs)" using Cons.prems(1) by simp
  have f: "clean E f s" "holds E f (archived E f s)"
    using Cons.prems(2) archived_holds by auto
  have "\<forall>g \<in> set (fs @ f # gs). clean E g (archived E f s)"
    using archived_other(1) [OF nc' _ f(1)] Cons.prems(2) f(2) by (auto simp: clean_def)
  moreover have "\<forall>g \<in> set (f # gs). holds E g (archived E f s)"
    using archived_other(2) [OF nc' _ f(1)] Cons.prems(3) f(2) by auto
  ultimately show ?case using Cons.IH [OF nc] by auto
qed simp

lemma archived_names:
  "distinct (map fst fs) \<Longrightarrow> f \<in> set fs \<Longrightarrow> ar_ss (fold (archived E) fs s) (fst f) = Some (arc_name E (snd f))"
proof (induction fs arbitrary: s)
  case (Cons g fs)
  have "ar_ss (archived E g s) (fst g) = Some (arc_name E (snd g))"
    by (simp add: archived_def put_file_def Let_def)
  with Cons show ?case by (auto simp: archived_ss)
qed simp

section \<open>Restoring\<close>

definition ext_name :: "string \<Rightarrow> string" where
  "ext_name p = path_join [''ext'', p]"

lemma restore_one:
  assumes "calm_arch E" and "ar_ss s p = Some a" and "ar_files s a = Some z" and "ae_unzip E z = Inr c"
  shows "restore_file E p s = (Ok (), put_file (ext_name p) c s)"
  using assms by (simp add: restore_file_def or_panic_def calm_arch_def bind_io_def
    copy_file_def put_file_def ext_name_def)

lemma restore_all:
  assumes "calm_arch E" and "\<And>c. ae_unzip E (ae_zip E c) = Inr c" and "distinct (map (ext_name o fst) fs)"
    and "\<forall>f \<in> set fs. ar_ss s (fst f) = Some (arc_name E (snd f)) \<and> holds E f s"
    and "\<forall>f \<in> set fs. ar_files s (ext_name (fst f)) = None"
    and "\<forall>f \<in> set fs. \<forall>g \<in> set fs. ext_name (fst f) \<noteq> arc_name E (snd g)"
  shows "\<exists>t. restore_loop E (map fst fs) s = (Ok (), t)
    \<and> (\<forall>f \<in> set fs. ar_files t (ext_name (fst f)) = Some (snd f))
    \<and> (\<forall>p. p \<notin> (ext_name o fst) ` set fs \<longrightarrow> ar_files t p = ar_files s p) \<and> ar_ss t = ar_ss s"
  using assms(3-)
proof (induction fs arbitrary: s)
  case (Cons f fs)
  let ?s = "put_file (ext_name (fst f)) (snd f) s"
  have one: "restore_file E (fst f) s = (Ok (), ?s)"
    using restore_one [OF assms(1) _ _ assms(2)] Cons.prems(2) by (simp add: holds_def)
  have new: "ar_files ?s (ext_name (fst f)) = Some (snd f)"
    using Cons.prems(3) by (simp add: put_file_def pwrite_def)
  have frame: "p \<noteq> ext_name (fst f) \<Longrightarrow> ar_files ?s p = ar_files s p" "ar_ss ?s = ar_ss s" for p
    by (simp_all add: put_file_def)
  have "\<forall>g \<in> set fs. ar_ss ?s (fst g) = Some (arc_name E (snd g)) \<and> holds E g ?s"
    using Cons.prems(2,4) frame unfolding holds_def by (metis list.set_intros(1,2))
  moreover have "\<forall>g \<in> set fs. ar_files ?s (ext_name (fst g)) = None"
  proof
    fix g assume g: "g \<in> set fs"
    have "ext_name (fst g) \<noteq> ext_name (fst f)" using Cons.prems(1) g by (auto simp: image_iff)
    then show "ar_files ?s (ext_name (fst g)) = None" using Cons.prems(3) g frame by simp
  qed
  ultimately obtain t where t: "restore_loop E (map fst fs) ?s = (Ok (), t)"
      "\<forall>g \<in> set fs. ar_files t (ext_name (fst g)) = Some (snd g)"
      "\<forall>p. p \<notin> (ext_name o fst) ` set fs \<longrightarrow> ar_files t p = ar_files ?s p" "ar_ss t = ar_ss ?s"
    using Cons.IH [of ?s] Cons.prems(1,4) by auto
  have "ext_name (fst f) \<notin> (ext_name o fst) ` set fs" using Cons.prems(1) by (auto simp: comp_def)
  with t(3) new have "ar_files t (ext_name (fst f)) = Some (snd f)" by simp
  with one t frame show ?case by (auto simp: bind_io_def)
qed simp

text \<open>An enumeration of the keys of a list of pairs, with the values.\<close>

lemma reorder_keys:
  assumes "distinct (map fst fs)" and "distinct order" and "set order = fst ` set fs"
  obtains gs where "map fst gs = order" and "set gs = set fs"
proof
  let ?gs = "map (\<lambda>p. (p, the (map_of fs p))) order"
  show "map fst ?gs = order" by (simp add: comp_def)
  show "set ?gs = set fs"
  proof -
    have "(p, the (map_of fs p)) \<in> set fs" if "p \<in> fst ` set fs" for p
      using that assms(1) by (auto simp: map_of_is_SomeI)
    moreover have "(p, c) \<in> set ?gs" if "(p, c) \<in> set fs" for p c
      using that assms(1,3) by (force simp: map_of_is_SomeI image_iff)
    ultimately show ?thesis using assms(3) by auto
  qed
qed

text \<open>
  C38: archiving a tree and restoring it gives every file back under \<open>ext\<close> with its content,
  in whatever order the map of recorded files is walked (\<open>order\<close> is any enumeration of its
  keys), when no operation fails, decompression undoes compression, no two different
  contents of the tree have one sum, the paths of the files are distinct, nothing is recorded
  yet, and none of the written names exists or coincides with another.
\<close>

theorem archive_roundtrip:
  assumes "calm_arch E" and "\<And>c. ae_unzip E (ae_zip E c) = Inr c"
    and "tree_files E [] tree = fs" and "no_collision E fs"
    and "distinct (map fst fs)" and "distinct (map (ext_name o fst) fs)"
    and "\<forall>f \<in> set fs. ar_files s (ext_name (fst f)) = None \<and> ar_files s (arc_name E (snd f)) = None"
    and "\<forall>f \<in> set fs. \<forall>g \<in> set fs. ext_name (fst f) \<noteq> arc_name E (snd g)"
    and "ar_ss s = Map.empty" and "distinct order" and "set order = fst ` set fs"
  shows "\<exists>t. mains E tree order s = (Ok (), t) \<and> dom (ar_ss t) = set order
    \<and> (\<forall>f \<in> set fs. ar_files t (ext_name (fst f)) = Some (snd f))"
proof -
  define u where "u = (fold (archived E) fs s)\<lparr>ar_count := ar_count s + tree_count tree\<rparr>"
  have l: "listfiles E [] tree s = (Ok (map entry_name tree), u)"
    using listfiles_calm [OF assms(1), of "[]" tree s] assms(3) by (simp add: u_def)
  have "\<forall>f \<in> set fs. holds E f (fold (archived E) fs s)"
    using archived_all [of E fs "[]" s] assms(4,7) by (simp add: clean_def)
  then have a: "\<forall>f \<in> set fs. ar_ss u (fst f) = Some (arc_name E (snd f)) \<and> holds E f u"
    using archived_names [OF assms(5)] by (simp add: u_def holds_def)
  have b: "\<forall>f \<in> set fs. ar_files u (ext_name (fst f)) = None"
  proof
    fix f assume f: "f \<in> set fs"
    then have "ext_name (fst f) \<notin> (\<lambda>g. arc_name E (snd g)) ` set fs" using assms(8) by auto
    then show "ar_files u (ext_name (fst f)) = None" using archived_frame assms(7) f by (simp add: u_def)
  qed
  have keys: "dom (ar_ss u) = set order"
  proof
    show "dom (ar_ss u) \<subseteq> set order"
      using archived_ss [of _ fs E s] assms(9,11) by (auto simp: u_def)
    show "set order \<subseteq> dom (ar_ss u)" using a assms(11) by auto
  qed
  obtain gs where gs: "map fst gs = order" "set gs = set fs"
    by (rule reorder_keys [OF assms(5,10,11)])
  have "inj_on ext_name (fst ` set fs)" using assms(6) by (auto simp: distinct_map comp_inj_on_iff [symmetric] inj_on_def)
  then have "distinct (map ext_name (map fst gs))"
    unfolding gs(1) distinct_map using assms(10,11) by simp
  then have dist: "distinct (map (ext_name o fst) gs)" by simp
  from restore_all [OF assms(1,2) dist, of u, unfolded gs, OF a b assms(8)] obtain t where
      "restore_loop E order u = (Ok (), t)" "\<forall>f \<in> set fs. ar_files t (ext_name (fst f)) = Some (snd f)"
      "ar_ss t = ar_ss u"
    by blast
  with l keys show ?thesis by (auto simp: mains_def bind_io_def)
qed

definition sample_arch :: arch_env where
  "sample_arch = \<lparr>ae_base = ''D:'', ae_hash = (\<lambda>c. [case c of [] \<Rightarrow> 0 | b # bs \<Rightarrow> b]), ae_zip = (\<lambda>c. 31 # c),
     ae_unzip = (\<lambda>z. Inr (tl z)), ae_readdir = (\<lambda>p. None), ae_open = (\<lambda>p. None), ae_read = (\<lambda>p. None),
     ae_mkdir = (\<lambda>p. None), ae_create = (\<lambda>p. None), ae_write = (\<lambda>p b. (length b, None))\<rparr>"

definition sample_tree :: "entry list" where
  "sample_tree = [Dir ''a'' [File ''b'' [1, 2]], File ''c'' [3]]"

definition empty_arch :: arch where
  "empty_arch = \<lparr>ar_count = 0, ar_ss = Map.empty, ar_files = Map.empty\<rparr>"

lemma sample_arch_calm: "calm_arch sample_arch"
  by (auto simp: calm_arch_def sample_arch_def hex_str_def)

lemma sample_zip: "ae_unzip sample_arch (ae_zip sample_arch c) = Inr c"
  by (simp add: sample_arch_def)

lemma sample_tree_files: "tree_files sample_arch [] sample_tree = [(''a/b'', [1, 2]), (''c'', [3])]"
  by code_simp

text \<open>The sample tree restored in the order opposite to the one it was visited in.\<close>

theorem archive_roundtrip_witness:
  "\<exists>t. mains sample_arch sample_tree [''c'', ''a/b''] empty_arch = (Ok (), t)
     \<and> ar_files t ''ext/a/b'' = Some [1, 2] \<and> ar_files t ''ext/c'' = Some [3]"
proof -
  let ?fs = "[(''a/b'', [1, 2]), (''c'', [3])] :: (string \<times> u8 list) list"
  have n: "arc_name sample_arch [1, 2] = ''arc/01/01''" "arc_name sample_arch [3] = ''arc/03/03''"
    "ext_name ''a/b'' = ''ext/a/b''" "ext_name ''c'' = ''ext/c''"
    by code_simp+
  have "no_collision sample_arch ?fs" by (auto simp: no_collision_def n)
  then have "\<exists>t. mains sample_arch sample_tree [''c'', ''a/b''] empty_arch = (Ok (), t)
      \<and> dom (ar_ss t) = set [''c'', ''a/b'']
      \<and> (\<forall>f \<in> set ?fs. ar_files t (ext_name (fst f)) = Some (snd f))"
    by (intro archive_roundtrip sample_arch_calm sample_tree_files)
      (auto simp: n sample_zip empty_arch_def)
  then show ?thesis by (auto simp: n)
qed

end
