(* ===== verification/Interleaving.thy ===== *)
theory Interleaving
  imports Ldr_Prelude
begin

text \<open>
  A family of processes that share one part of their state and interleave: gRPC runs each
  call in a goroutine of its own, so every handler that changes shared state is such a
  process.  The interface is the rely-guarantee contract of one process; what follows from
  it for the whole family is proved once.
\<close>

text \<open>One step of the family: one process steps on the shared state and its own.\<close>

inductive family :: "('g \<times> 'l \<Rightarrow> 'g \<times> 'l \<Rightarrow> bool) \<Rightarrow> 'g \<times> ('i \<Rightarrow> 'l) \<Rightarrow> 'g \<times> ('i \<Rightarrow> 'l) \<Rightarrow> bool"
  for step where
  member: "step (g, L i) (g', l') \<Longrightarrow> family step (g, L) (g', L(i := l'))"

inductive_cases family_cases: "family step s t"

abbreviation families :: "('g \<times> 'l \<Rightarrow> 'g \<times> 'l \<Rightarrow> bool) \<Rightarrow> 'g \<times> ('i \<Rightarrow> 'l) \<Rightarrow> 'g \<times> ('i \<Rightarrow> 'l) \<Rightarrow> bool" where
  "families step \<equiv> (family step)\<^sup>*\<^sup>*"

text \<open>A run of one process is a run of the family in which the others wait.\<close>

lemma family_lift: "step\<^sup>*\<^sup>* s t \<Longrightarrow> families step (fst s, L(i := snd s)) (fst t, L(i := snd t))"
proof (induction rule: rtranclp_induct)
  case (step t u)
  have "step (fst t, (L(i := snd t)) i) (fst u, snd u)" using step.hyps(2) by simp
  from family.member [of step "fst t" "L(i := snd t)" i "fst u" "snd u", OF this]
  have "family step (fst t, L(i := snd t)) (fst u, L(i := snd u))" by simp
  with step.IH show ?case by (rule rtranclp.rtrancl_into_rtrancl)
qed simp

locale rely_guarantee =
  fixes step :: "'g \<times> 'l \<Rightarrow> 'g \<times> 'l \<Rightarrow> bool"
    and inv :: "'i \<Rightarrow> 'g \<Rightarrow> 'l \<Rightarrow> bool"
    and guar :: "'i \<Rightarrow> 'g \<Rightarrow> 'g \<Rightarrow> bool"
  assumes own_inv: "inv i g l \<Longrightarrow> step (g, l) (g', l') \<Longrightarrow> inv i g' l'"
    and own_guar: "inv i g l \<Longrightarrow> step (g, l) (g', l') \<Longrightarrow> guar i g g'"
    and stable: "inv i g l \<Longrightarrow> guar j g g' \<Longrightarrow> i \<noteq> j \<Longrightarrow> inv i g' l"
begin

definition all_inv :: "'g \<times> ('i \<Rightarrow> 'l) \<Rightarrow> bool" where
  "all_inv s \<longleftrightarrow> (\<forall>i. inv i (fst s) (snd s i))"

lemma family_inv:
  assumes "family step s t" and "all_inv s"
  shows "all_inv t"
  using assms
proof (cases rule: family.cases)
  case (member g L i g' l')
  show ?thesis
    unfolding all_inv_def
  proof
    fix j
    have "inv i g (L i)" "inv j g (L j)" using assms(2) member by (auto simp: all_inv_def)
    then show "inv j (fst t) (snd t j)"
      using own_inv [OF _ member(3)] stable [OF _ own_guar [OF _ member(3), of i], of j] member
      by (cases "j = i") auto
  qed
qed

lemma families_inv: "families step s t \<Longrightarrow> all_inv s \<Longrightarrow> all_inv t"
  by (induction rule: rtranclp_induct) (auto intro: family_inv)

lemma reached_inv: "families step (g0, L0) (g, L) \<Longrightarrow> (\<And>i. inv i g0 (L0 i)) \<Longrightarrow> inv i g (L i)"
  using families_inv [of "(g0, L0)" "(g, L)"] by (simp add: all_inv_def)

end

end
