(* ===== verification/Uploads.thy ===== *)
theory Uploads
  imports Interleaving Deployment_Correct
begin

text \<open>
  Any number of calls of \<open>Upload\<close> at a time (\<open>service/deployment.go\<close>): each has a handler,
  counters, a mutex and progress goroutines of its own, and all write to the files of one
  file system.  The store in the record of a transfer is its view, replaced by the shared
  one at each of its steps.
\<close>

definition shared_step :: "upload_env \<Rightarrow> (string \<rightharpoonup> u8 list) \<times> upload \<Rightarrow> (string \<rightharpoonup> u8 list) \<times> upload \<Rightarrow> bool" where
  "shared_step E a b \<longleftrightarrow> ustep E ((snd a)\<lparr>up_store := fst a\<rparr>) (snd b) \<and> fst b = up_store (snd b)"

type_synonym uploads = "(string \<rightharpoonup> u8 list) \<times> (nat \<Rightarrow> upload)"

definition uploads_start :: "(string \<rightharpoonup> u8 list) \<Rightarrow> (nat \<Rightarrow> (goerr + UploadRequest) list) \<Rightarrow> uploads" where
  "uploads_start fs inbox = (fs, \<lambda>i. upload_start fs (inbox i))"

abbreviation uploads_reach :: "upload_env \<Rightarrow> uploads \<Rightarrow> uploads \<Rightarrow> bool" where
  "uploads_reach E \<equiv> families (shared_step E)"

section \<open>Well-formed transfers\<close>

text \<open>
  The open file exists and the offset is within it.  The mutex is held either for a progress
  goroutine in its loop, the only one there is, or by the handler, which is about to unlock it
  after that goroutine took the value, or hashes.  The handler sends on \<open>stop\<close> only with the
  counter at the announced size and a file open.  The process is brought down by nothing but
  the division in a report.
\<close>

definition handler_holds :: "upload \<Rightarrow> bool" where
  "handler_holds s \<longleftrightarrow> up_phase s = Unlocking \<or> (\<exists>want. up_phase s = Hashing want)"

definition upload_wf :: "(string \<rightharpoonup> u8 list) \<Rightarrow> upload \<Rightarrow> bool" where
  "upload_wf fs s \<longleftrightarrow>
     (case up_file s of None \<Rightarrow> True | Some (p, off) \<Rightarrow> (\<exists>c. fs p = Some c \<and> off \<le> length c))
     \<and> up_reporters s = (if up_locked s \<and> \<not> handler_holds s then 1 else 0)
     \<and> (handler_holds s \<longrightarrow> up_locked s)
     \<and> (up_phase s = StopSend \<longrightarrow> up_received s = up_total s \<and> up_file s \<noteq> None)
     \<and> (up_crash s = None \<or> up_crash s = Some DivideByZero)"

definition grows :: "(string \<rightharpoonup> u8 list) \<Rightarrow> (string \<rightharpoonup> u8 list) \<Rightarrow> bool" where
  "grows fs fs' \<longleftrightarrow> (\<forall>p c. fs p = Some c \<longrightarrow> (\<exists>c'. fs' p = Some c' \<and> length c \<le> length c'))"

lemma grows_refl [simp]: "grows fs fs"
  by (simp add: grows_def)

lemma grows_update:
  "(case fs p of None \<Rightarrow> True | Some c \<Rightarrow> length c \<le> length c') \<Longrightarrow> grows fs (fs(p \<mapsto> c'))"
  by (auto simp: grows_def split: option.splits)

lemma upload_wf_grows: "upload_wf fs s \<Longrightarrow> grows fs fs' \<Longrightarrow> upload_wf fs' s"
  by (fastforce simp: upload_wf_def grows_def split: option.splits)

lemma open_target_wf:
  assumes "open_target E d n s = Ok t"
  shows "\<exists>p c. up_file t = Some (p, 0) \<and> up_store t p = Some c \<and> grows (up_store s) (up_store t)
    \<and> up_locked t = up_locked s \<and> up_reporters t = up_reporters s \<and> up_phase t = up_phase s
    \<and> up_crash t = up_crash s"
  using assms by (auto simp: open_target_def Let_def grows_update split: option.splits if_splits)

lemma open_target_Ok_Err: "open_target E d n s \<noteq> Panic p" "open_target E d n s \<noteq> Blocked"
  by (auto simp: open_target_def Let_def split: option.split)

lemma info_wf:
  assumes "upload_wf (up_store s) s" and "up_phase s = Receiving"
  shows "upload_wf (up_store (upload_info E m s)) (upload_info E m s)
    \<and> grows (up_store s) (up_store (upload_info E m s))"
proof (cases "open_target E (MetaData_GetDestination (Some m)) (MetaData_GetName (Some m)) (s\<lparr>up_total := MetaData_GetSize (Some m)\<rparr>)")
  case (Ok t)
  from open_target_wf [OF Ok] assms Ok show ?thesis
    by (auto simp: upload_info_def Let_def answer_def upload_wf_def handler_holds_def)
qed (use assms open_target_Ok_Err in \<open>auto simp: upload_info_def Let_def answer_def upload_wf_def handler_holds_def\<close>)

lemma chunk_wf:
  assumes "upload_wf (up_store s) s" and "up_phase s = Receiving"
  shows "upload_wf (up_store (upload_chunk E c s)) (upload_chunk E c s)
    \<and> grows (up_store s) (up_store (upload_chunk E c s))"
  using assms
  by (auto simp: upload_chunk_def store_chunk_def answer_def Let_def upload_wf_def length_pwrite handler_holds_def
      intro!: grows_update split: option.splits)

lemma hash_wf:
  assumes "upload_wf (up_store s) s" and "up_phase s = Hashing w"
  shows "upload_wf (up_store s) (mu_Unlock (upload_hash E w s)) \<and> up_store (mu_Unlock (upload_hash E w s)) = up_store s"
  using assms by (auto simp: upload_hash_def answer_def mu_Unlock_def upload_wf_def handler_holds_def split: option.splits)

lemma upload_wf_step:
  assumes "ustep E s t" and "upload_wf (up_store s) s"
  shows "upload_wf (up_store t) t \<and> grows (up_store s) (up_store t)"
  using assms
proof (cases rule: ustep.cases)
  case (recv r rest)
  let ?s = "s\<lparr>up_inbox := rest\<rparr>"
  have s: "upload_wf (up_store ?s) ?s" "up_phase ?s = Receiving"
    using assms(2) recv by (simp_all add: upload_wf_def handler_holds_def)
  show ?thesis
    by (cases r) (use info_wf [OF s] chunk_wf [OF s] s recv in \<open>auto simp: upload_request_def upload_wf_def handler_holds_def\<close>)
next
  case (report_crash p)
  then have "p = DivideByZero" by (auto simp: progress_text_def split: if_splits)
  with report_crash assms(2) show ?thesis by (simp add: upload_wf_def handler_holds_def)
next
  case (hashed want)
  with hash_wf [OF assms(2) hashed(3), of E] show ?thesis by simp
qed (auto simp: upload_wf_def answer_def handler_holds_def mu_Unlock_def split: if_splits)

interpretation wfu: rely_guarantee "shared_step E" "\<lambda>i :: nat. upload_wf" "\<lambda>i. grows" for E
proof
  fix i :: nat and g g' l l'
  assume "upload_wf g l" and st: "shared_step E (g, l) (g', l')"
  then have "upload_wf (up_store (l\<lparr>up_store := g\<rparr>)) (l\<lparr>up_store := g\<rparr>)" by (simp add: upload_wf_def handler_holds_def)
  with st show "upload_wf g' l'" "grows g g'"
    using upload_wf_step [of E "l\<lparr>up_store := g\<rparr>" l'] by (simp_all add: shared_step_def)
qed (rule upload_wf_grows)

text \<open>
  C5: whatever transfers run at the same time, also several to one file, each is well formed
  in every reachable state: its file exists and its offset is within the file; it has one
  progress goroutine that can take a value from \<open>stop\<close> exactly while its mutex is locked and the
  handler is neither about to unlock it nor hashing; in those two cases the mutex is locked, so
  that no unlocking ends the process, which only the division in a report can do; and it waits
  to stop the goroutine only with the announced size received.
\<close>

theorem uploads_well_formed:
  assumes "uploads_reach E (uploads_start fs0 inbox) (fs, S)"
  shows "upload_wf fs (S i)"
  using wfu.reached_inv [OF assms [unfolded uploads_start_def]]
  by (simp add: upload_wf_def upload_start_def handler_holds_def)

section \<open>Transfers to different files\<close>

text \<open>The files a stream may open, and a state that differs in other files only.\<close>

definition inbox_paths :: "(goerr + UploadRequest) list \<Rightarrow> string set" where
  "inbox_paths inbox = {meta_path m |m. Inr (UploadInfo m) \<in> set inbox}"

definition same_view :: "string set \<Rightarrow> upload \<Rightarrow> upload \<Rightarrow> bool" where
  "same_view A s u \<longleftrightarrow> s\<lparr>up_store := up_store u\<rparr> = u \<and> (\<forall>p \<in> A. up_store u p = up_store s p)
     \<and> (\<forall>p off. up_file s = Some (p, off) \<longrightarrow> p \<in> A) \<and> inbox_paths (up_inbox s) \<subseteq> A"

definition keeps_others :: "string set \<Rightarrow> (string \<rightharpoonup> u8 list) \<Rightarrow> (string \<rightharpoonup> u8 list) \<Rightarrow> bool" where
  "keeps_others A fs fs' \<longleftrightarrow> (\<forall>p. p \<notin> A \<longrightarrow> fs' p = fs p)"

lemma same_viewE:
  assumes "same_view A s u"
  obtains fs where "u = s\<lparr>up_store := fs\<rparr>" and "\<forall>p \<in> A. fs p = up_store s p"
  using assms unfolding same_view_def by metis

lemma same_viewI:
  "u = t\<lparr>up_store := fs\<rparr> \<Longrightarrow> \<forall>p \<in> A. fs p = up_store t p \<Longrightarrow> \<forall>p off. up_file t = Some (p, off) \<longrightarrow> p \<in> A
    \<Longrightarrow> inbox_paths (up_inbox t) \<subseteq> A \<Longrightarrow> same_view A t u"
  by (simp add: same_view_def)

text \<open>Opening the target either fails, independently of the state, or changes it so.\<close>

definition open_error :: "upload_env \<Rightarrow> string \<Rightarrow> string \<Rightarrow> goerr option" where
  "open_error E d n =
     (case if e_missing E (upload_dir d) then e_mkdir E (upload_dir d) else None of
        Some e \<Rightarrow> Some e
      | None \<Rightarrow> e_open E (upload_path d n))"

definition opened :: "upload_env \<Rightarrow> string \<Rightarrow> string \<Rightarrow> upload \<Rightarrow> upload" where
  "opened E d n s =
     (let p = upload_path d n in
      s\<lparr>up_dirs := (if e_missing E (upload_dir d) then [upload_dir d] else []) @ up_dirs s,
        up_store := (up_store s)(p \<mapsto> (case up_store s p of None \<Rightarrow> [] | Some c \<Rightarrow> c)),
        up_file := Some (p, 0)\<rparr>)"

lemma open_target_eq:
  "open_target E d n s = (case open_error E d n of Some e \<Rightarrow> Err e | None \<Rightarrow> Ok (opened E d n s))"
  by (simp add: open_target_def open_error_def opened_def Let_def split: option.split)

lemma opened_view:
  assumes "same_view A s u" and "upload_path d n \<in> A"
  shows "same_view A (opened E d n s) (opened E d n u)"
proof -
  from assms(1) obtain fs where u: "u = s\<lparr>up_store := fs\<rparr>" and fs: "\<forall>p \<in> A. fs p = up_store s p"
    by (rule same_viewE)
  show ?thesis
  proof (rule same_viewI)
    show "opened E d n u = (opened E d n s)\<lparr>up_store := up_store (opened E d n u)\<rparr>"
      by (simp add: u opened_def Let_def)
    show "\<forall>p \<in> A. up_store (opened E d n u) p = up_store (opened E d n s) p"
      using fs assms(2) by (simp add: u opened_def Let_def)
  qed (use assms in \<open>auto simp: same_view_def opened_def Let_def\<close>)
qed

lemma opened_keeps: "upload_path d n \<in> A \<Longrightarrow> keeps_others A (up_store s) (up_store (opened E d n s))"
  by (auto simp: keeps_others_def opened_def Let_def)

lemma same_view_update:
  assumes "same_view A s u"
    and "\<And>t fs. f (t\<lparr>up_store := fs\<rparr>) = (f t)\<lparr>up_store := fs\<rparr>"
    and "\<And>t. up_store (f t) = up_store t" and "\<And>t. up_file (f t) = up_file t" and "\<And>t. up_inbox (f t) = up_inbox t"
  shows "same_view A (f s) (f u)"
proof -
  from assms(1) obtain fs where u: "u = s\<lparr>up_store := fs\<rparr>" and fs: "\<forall>p \<in> A. fs p = up_store s p"
    by (rule same_viewE)
  show ?thesis
    by (rule same_viewI [where fs = fs]) (use assms fs in \<open>auto simp: u same_view_def\<close>)
qed

lemma same_view_fields:
  "same_view A s u \<Longrightarrow> up_locked u = up_locked s \<and> up_phase u = up_phase s \<and> up_file u = up_file s
     \<and> up_total u = up_total s \<and> up_received u = up_received s \<and> up_reporters u = up_reporters s
     \<and> up_leaving u = up_leaving s
     \<and> up_inbox u = up_inbox s \<and> up_crash u = up_crash s \<and> up_sent u = up_sent s"
  by (auto elim!: same_viewE)

lemma info_view:
  assumes "same_view A s u" and "meta_path m \<in> A"
  shows "same_view A (upload_info E m s) (upload_info E m u)
    \<and> keeps_others A (up_store s) (up_store (upload_info E m s))"
proof -
  let ?d = "MetaData_GetDestination (Some m)" and ?n = "MetaData_GetName (Some m)"
  let ?t = "\<lambda>s. s\<lparr>up_total := MetaData_GetSize (Some m)\<rparr>"
  have v: "same_view A (?t s) (?t u)" by (rule same_view_update [OF assms(1)]) auto
  have p: "upload_path ?d ?n \<in> A" using assms(2) by (simp add: meta_path_def)
  note o = opened_view [OF v p, of E]
  show ?thesis
  proof (cases "open_error E ?d ?n")
    case (Some e)
    have "same_view A (answer (Some e) (?t s)) (answer (Some e) (?t u))"
      by (rule same_view_update [OF v]) (auto simp: answer_def)
    then show ?thesis using Some
      by (simp add: upload_info_def Let_def open_target_eq keeps_others_def) (simp add: answer_def)
  next
    case None
    let ?so = "opened E ?d ?n (?t s)" and ?uo = "opened E ?d ?n (?t u)"
    have k: "keeps_others A (up_store s) (up_store ?so)" using opened_keeps [OF p, of "?t s" E] by simp
    have l: "up_locked ?so = up_locked s" "up_locked ?uo = up_locked s"
      using same_view_fields [OF assms(1)] by (simp_all add: opened_def Let_def)
    have a: "same_view A (answer r ?so) (answer r ?uo)" for r
      by (rule same_view_update [OF o]) (auto simp: answer_def)
    have b: "same_view A (?so\<lparr>up_locked := True, up_reporters := up_reporters ?so + 1\<rparr>)
        (?uo\<lparr>up_locked := True, up_reporters := up_reporters ?uo + 1\<rparr>)"
      by (rule same_view_update [OF o]) auto
    show ?thesis using None k a b l
      by - (cases "md_size m = 0"; cases "up_locked s"; simp add: upload_info_def Let_def open_target_eq answer_def)
  qed
qed

lemma chunk_view:
  assumes "same_view A s u"
  shows "same_view A (upload_chunk E c s) (upload_chunk E c u)
    \<and> keeps_others A (up_store s) (up_store (upload_chunk E c s))"
proof -
  from assms obtain fs where u: "u = s\<lparr>up_store := fs\<rparr>" and fs: "\<forall>p \<in> A. fs p = up_store s p"
    by (rule same_viewE)
  show ?thesis
    using assms fs
    by (auto simp: same_view_def u upload_chunk_def store_chunk_def answer_def Let_def keeps_others_def
        split: option.splits)
qed

lemma hash_view:
  assumes "same_view A s u"
  shows "same_view A (upload_hash E w s) (upload_hash E w u)
    \<and> keeps_others A (up_store s) (up_store (upload_hash E w s))"
proof -
  from assms obtain fs where u: "u = s\<lparr>up_store := fs\<rparr>" and fs: "\<forall>p \<in> A. fs p = up_store s p"
    by (rule same_viewE)
  show ?thesis
    using assms fs
    by (auto simp: same_view_def u upload_hash_def answer_def keeps_others_def split: option.splits)
qed

lemma request_view:
  assumes "same_view A s u" and "inbox_paths [Inr r] \<subseteq> A"
  shows "same_view A (upload_request E r s) (upload_request E r u)
    \<and> keeps_others A (up_store s) (up_store (upload_request E r s))"
proof (cases r)
  case (UploadInfo m)
  then show ?thesis using info_view [OF assms(1), of m E] assms(2)
    by (simp add: upload_request_def inbox_paths_def)
next
  case (UploadChunk c)
  then show ?thesis using chunk_view [OF assms(1), of E c] by (simp add: upload_request_def)
next
  case (UploadHash w)
  have "same_view A (s\<lparr>up_phase := LockWait w\<rparr>) (u\<lparr>up_phase := LockWait w\<rparr>)"
    by (rule same_view_update [OF assms(1)]) auto
  then show ?thesis using UploadHash by (simp add: upload_request_def keeps_others_def)
next
  case UploadEmpty
  then show ?thesis using assms(1) by (simp add: upload_request_def keeps_others_def)
qed

lemma inbox_paths_Cons: "inbox_paths (x # xs) = inbox_paths [x] \<union> inbox_paths xs"
  by (auto simp: inbox_paths_def)

lemma same_view_inbox:
  assumes "same_view A s u" and "up_inbox s = x # rest"
  shows "same_view A (s\<lparr>up_inbox := rest\<rparr>) (u\<lparr>up_inbox := rest\<rparr>)" "inbox_paths [x] \<subseteq> A"
proof -
  from assms(1) obtain fs where u: "u = s\<lparr>up_store := fs\<rparr>" and fs: "\<forall>p \<in> A. fs p = up_store s p"
    by (rule same_viewE)
  have p: "inbox_paths [x] \<union> inbox_paths rest \<subseteq> A"
    using assms by (simp add: same_view_def inbox_paths_Cons [of x rest])
  then show "inbox_paths [x] \<subseteq> A" by simp
  show "same_view A (s\<lparr>up_inbox := rest\<rparr>) (u\<lparr>up_inbox := rest\<rparr>)"
    by (rule same_viewI [where fs = fs]) (use assms(1) fs p in \<open>auto simp: u same_view_def\<close>)
qed

lemma keeps_others_refl [simp]: "keeps_others A fs fs"
  by (simp add: keeps_others_def)

lemma ustep_view:
  assumes "ustep E s t" and "same_view A s u"
  shows "\<exists>v. ustep E u v \<and> same_view A t v \<and> keeps_others A (up_store s) (up_store t)"
  using assms(1)
proof (cases rule: ustep.cases)
  case (recv r rest)
  note i = same_view_inbox [OF assms(2) recv(4)]
  have "ustep E u (upload_request E r (u\<lparr>up_inbox := rest\<rparr>))"
    using recv same_view_fields [OF assms(2)] by (intro ustep.recv) auto
  then show ?thesis using request_view [OF i, of E] recv(1) by auto
next
  case (recv_err e rest)
  note i = same_view_inbox [OF assms(2) recv_err(4)]
  have "ustep E u (answer (Some e) (u\<lparr>up_inbox := rest\<rparr>))"
    using recv_err same_view_fields [OF assms(2)] by (intro ustep.recv_err) auto
  moreover have "same_view A t (answer (Some e) (u\<lparr>up_inbox := rest\<rparr>))"
    unfolding recv_err(1) by (rule same_view_update [OF i(1)]) (auto simp: answer_def)
  ultimately show ?thesis using recv_err(1) by (auto simp: answer_def)
next
  case (report x)
  have "ustep E u (u\<lparr>up_sent := up_sent u @ [x]\<rparr>)"
    using report same_view_fields [OF assms(2)] by (intro ustep.report) auto
  moreover have "same_view A t (u\<lparr>up_sent := up_sent u @ [x]\<rparr>)"
    unfolding report(1) by (rule same_view_update [OF assms(2)]) auto
  ultimately show ?thesis using report(1) by auto
next
  case (report_crash p)
  have "ustep E u (u\<lparr>up_crash := Some p\<rparr>)"
    using report_crash same_view_fields [OF assms(2)] by (intro ustep.report_crash) auto
  moreover have "same_view A t (u\<lparr>up_crash := Some p\<rparr>)"
    unfolding report_crash(1) by (rule same_view_update [OF assms(2)]) auto
  ultimately show ?thesis using report_crash(1) by auto
next
  case stop
  let ?f = "\<lambda>s. s\<lparr>up_phase := Unlocking, up_reporters := up_reporters s - 1, up_leaving := up_leaving s + 1\<rparr>"
  have "ustep E u (?f u)"
    using stop same_view_fields [OF assms(2)] by (intro ustep.stop) auto
  moreover have "same_view A t (?f u)"
    unfolding stop(1) by (rule same_view_update [OF assms(2)]) auto
  ultimately show ?thesis using stop(1) by auto
next
  case (leave x)
  let ?f = "\<lambda>s. s\<lparr>up_sent := up_sent s @ [x], up_leaving := up_leaving s - 1\<rparr>"
  have "ustep E u (?f u)"
    using leave same_view_fields [OF assms(2)] by (intro ustep.leave) auto
  moreover have "same_view A t (?f u)"
    unfolding leave(1) by (rule same_view_update [OF assms(2)]) auto
  ultimately show ?thesis using leave(1) by auto
next
  case unlock
  let ?f = "\<lambda>s. mu_Unlock (s\<lparr>up_phase := Receiving\<rparr>)"
  have "ustep E u (?f u)"
    using unlock same_view_fields [OF assms(2)] by (intro ustep.unlock) auto
  moreover have "same_view A t (?f u)"
    unfolding unlock(1) by (rule same_view_update [OF assms(2)]) (auto simp: mu_Unlock_def)
  ultimately show ?thesis using unlock(1) by (auto simp: mu_Unlock_def)
next
  case (locked w)
  let ?f = "\<lambda>s. s\<lparr>up_phase := Hashing w, up_locked := True\<rparr>"
  have "ustep E u (?f u)"
    using locked same_view_fields [OF assms(2)] by (intro ustep.locked) auto
  moreover have "same_view A t (?f u)"
    unfolding locked(1) by (rule same_view_update [OF assms(2)]) auto
  ultimately show ?thesis using locked(1) by auto
next
  case (hashed w)
  note h = hash_view [OF assms(2), of E w]
  have "ustep E u (mu_Unlock (upload_hash E w u))"
    using hashed same_view_fields [OF assms(2)] by (intro ustep.hashed) auto
  moreover have "same_view A t (mu_Unlock (upload_hash E w u))"
    unfolding hashed(1) by (rule same_view_update [OF conjunct1 [OF h]]) (auto simp: mu_Unlock_def)
  ultimately show ?thesis using h hashed(1) by (auto simp: mu_Unlock_def)
qed

text \<open>Each transfer of a family whose streams name different files behaves as if alone.\<close>

definition apart :: "(nat \<Rightarrow> (goerr + UploadRequest) list) \<Rightarrow> bool" where
  "apart inbox \<longleftrightarrow> (\<forall>i j. i \<noteq> j \<longrightarrow> inbox_paths (inbox i) \<inter> inbox_paths (inbox j) = {})"

definition alone ::
  "upload_env \<Rightarrow> (string \<rightharpoonup> u8 list) \<Rightarrow> (goerr + UploadRequest) list \<Rightarrow> (string \<rightharpoonup> u8 list) \<Rightarrow> upload \<Rightarrow> bool" where
  "alone E fs0 inbox fs s \<longleftrightarrow>
     (\<exists>u. ureach E (upload_start fs0 inbox) u \<and> same_view (inbox_paths inbox) (s\<lparr>up_store := fs\<rparr>) u)"

lemma alone_step:
  assumes "alone E fs0 inbox g l" and "shared_step E (g, l) (g', l')"
  shows "alone E fs0 inbox g' l' \<and> keeps_others (inbox_paths inbox) g g'"
proof -
  from assms(2) have st: "ustep E (l\<lparr>up_store := g\<rparr>) l'" and g': "g' = up_store l'"
    by (simp_all add: shared_step_def)
  from assms(1) obtain u where u: "ureach E (upload_start fs0 inbox) u" "same_view (inbox_paths inbox) (l\<lparr>up_store := g\<rparr>) u"
    by (auto simp: alone_def)
  from ustep_view [OF st u(2)] obtain v where "ustep E u v" "same_view (inbox_paths inbox) l' v"
      "keeps_others (inbox_paths inbox) g (up_store l')"
    by auto
  with u(1) g' show ?thesis by (auto simp: alone_def intro: rtranclp.rtrancl_into_rtrancl)
qed

lemma same_view_keeps:
  assumes "same_view A (s\<lparr>up_store := fs\<rparr>) u" and "\<forall>p \<in> A. fs' p = fs p"
  shows "same_view A (s\<lparr>up_store := fs'\<rparr>) u"
  using assms by (auto simp: same_view_def)

interpretation iso: rely_guarantee "shared_step E"
    "\<lambda>i fs s. apart inbox \<longrightarrow> alone E fs0 (inbox i) fs s"
    "\<lambda>i fs fs'. apart inbox \<longrightarrow> keeps_others (inbox_paths (inbox i)) fs fs'" for E inbox fs0
proof
  fix i j g g' l l'
  assume "apart inbox \<longrightarrow> alone E fs0 (inbox i) g l"
  then show "shared_step E (g, l) (g', l') \<Longrightarrow> apart inbox \<longrightarrow> alone E fs0 (inbox i) g' l'"
    and "shared_step E (g, l) (g', l') \<Longrightarrow> apart inbox \<longrightarrow> keeps_others (inbox_paths (inbox i)) g g'"
    using alone_step by blast+
next
  fix i j g g' l
  assume a: "apart inbox \<longrightarrow> alone E fs0 (inbox i) g l"
    and k: "apart inbox \<longrightarrow> keeps_others (inbox_paths (inbox j)) g g'" and "i \<noteq> j"
  show "apart inbox \<longrightarrow> alone E fs0 (inbox i) g' l"
  proof
    assume ap: "apart inbox"
    then have "\<forall>p \<in> inbox_paths (inbox i). g' p = g p"
      using k \<open>i \<noteq> j\<close> by (auto simp: apart_def keeps_others_def)
    with a ap show "alone E fs0 (inbox i) g' l" unfolding alone_def using same_view_keeps by blast
  qed
qed

lemma start_alone: "alone E fs inbox fs (upload_start fs inbox)"
  by (auto simp: alone_def same_view_def upload_start_def intro!: exI [of _ "upload_start fs inbox"])

lemma uploads_alone:
  assumes "uploads_reach E (uploads_start fs0 inbox) (fs, S)" and "apart inbox"
  shows "alone E fs0 (inbox i) fs (S i)"
  using iso.reached_inv [OF assms(1) [unfolded uploads_start_def], of inbox fs0 i] assms(2) start_alone by blast

text \<open>
  C3: concurrent uploads that name different files do not disturb each other: in every
  reachable state each transfer, with its file as it is on the shared file system, is in a
  state a run of it alone can reach.
\<close>

theorem uploads_isolated:
  assumes "uploads_reach E (uploads_start fs0 inbox) (fs, S)" and "apart inbox"
  shows "\<exists>u. ureach E (upload_start fs0 (inbox i)) u \<and> u = (S i)\<lparr>up_store := up_store u\<rparr>
    \<and> (\<forall>p \<in> inbox_paths (inbox i). up_store u p = fs p)"
  using uploads_alone [OF assms, of i] by (fastforce simp: alone_def same_view_def)

definition scripts ::
  "nat \<Rightarrow> (nat \<Rightarrow> MetaData) \<Rightarrow> (nat \<Rightarrow> ChunkData list) \<Rightarrow> (nat \<Rightarrow> string) \<Rightarrow> nat \<Rightarrow> (goerr + UploadRequest) list" where
  "scripts n m cs h i = (if i < n then script (m i) (cs i) (h i) else [])"

text \<open>
  C4: when any number of clients upload different files at once, each announcing a positive
  size that its chunks reach with the last one and not before, every transfer that is
  answered has the verdict on its own bytes over what its own file held, and its file on the
  shared file system holds them.
\<close>

theorem uploads_answered:
  assumes "uploads_reach E (uploads_start fs0 (scripts n m cs h)) (fs, S)"
    and "inj_on (\<lambda>i. meta_path (m i)) {..<n}" and "benign E" and "i < n"
    and "md_size (m i) \<noteq> 0" and "\<And>k. k < length (cs i) \<Longrightarrow> \<not> hits (m i) (cs i) k"
    and "up_phase (S i) = Answered r"
  shows "r = verdict E (m i) (cs i) (h i) (old_content fs0 (m i))
    \<and> fs (meta_path (m i)) = Some (overlay (upto_chunk (cs i) (length (cs i))) (old_content fs0 (m i)))"
proof -
  have paths: "inbox_paths (scripts n m cs h j) = (if j < n then {meta_path (m j)} else {})" for j
    by (auto simp: inbox_paths_def script_def scripts_def)
  have "apart (scripts n m cs h)"
    using assms(2) by (auto simp: apart_def paths inj_on_def)
  from uploads_alone [OF assms(1) this, of i] obtain u where
      u: "ureach E (upload_start fs0 (scripts n m cs h i)) u"
      "same_view (inbox_paths (scripts n m cs h i)) ((S i)\<lparr>up_store := fs\<rparr>) u"
    by (auto simp: alone_def)
  have "script_inv E fs0 (m i) (cs i) (h i) u" 
    using script_reach [OF _ assms(3,5,6)] u(1) assms(4) by (simp add: scripts_def)
  moreover have "up_phase u = Answered r" using same_view_fields [OF u(2)] assms(7) by simp
  ultimately show ?thesis using u(2) assms(4) by (auto simp: script_inv_def same_view_def paths stored_def)
qed

section \<open>A sample\<close>

text \<open>A run of one transfer is a run of the family in which the others wait.\<close>

lemma lift_alone:
  assumes "ureach E s t"
  shows "uploads_reach E (up_store s, L(i := s)) (up_store t, L(i := t))"
proof -
  have "(shared_step E)\<^sup>*\<^sup>* (up_store s, s) (up_store t, t)"
    using assms
  proof (induction rule: rtranclp_induct)
    case (step t u)
    then have "shared_step E (up_store t, t) (up_store u, u)" by (simp add: shared_step_def)
    with step.IH show ?case by (rule rtranclp.rtrancl_into_rtrancl)
  qed simp
  from family_lift [OF this, of L i] show ?thesis by simp
qed

definition two_files :: "nat \<Rightarrow> (goerr + UploadRequest) list" where
  "two_files = scripts 2 (\<lambda>i. (meta 1)\<lparr>md_name := Some (if i = 0 then ''a.bin'' else ''b.bin'')\<rparr>)
     (\<lambda>i. [chunk [7]]) (\<lambda>i. ''07'')"

lemma two_files_0: "two_files 0 = sample_inbox"
  by (simp add: two_files_def scripts_def script_def sample_inbox_def meta_def)

definition one_done :: "nat \<Rightarrow> upload" where
  "one_done = (\<lambda>i. upload_start (\<lambda>p. None) (two_files i))(0 := sample_at 1 [7] False (0, 0) (Answered None) [])"

lemma two_files_reach:
  "uploads_reach calm_env (uploads_start (\<lambda>p. None) two_files)
     ([''c:/application/app/a.bin'' \<mapsto> [7]], one_done)"
proof -
  let ?L = "\<lambda>i. upload_start (\<lambda>p. None) (two_files i)"
  have "?L(0 := upload_start (\<lambda>p. None) sample_inbox) = ?L" by (rule ext) (simp add: two_files_0)
  with lift_alone [OF sample_reach, of ?L 0] show ?thesis
    by (simp add: uploads_start_def one_done_def sample_at_def) (simp add: upload_start_def)
qed

lemma two_paths: "meta_path ((meta 1)\<lparr>md_name := Some ''a.bin''\<rparr>) = ''c:/application/app/a.bin''"
  "meta_path ((meta 1)\<lparr>md_name := Some ''b.bin''\<rparr>) = ''c:/application/app/b.bin''"
  by code_simp+

theorem uploads_well_formed_witness:
  "upload_wf [''c:/application/app/a.bin'' \<mapsto> [7]] (one_done 0) \<and> up_phase (one_done 0) = Answered None"
  using uploads_well_formed [OF two_files_reach, of 0] by (simp add: one_done_def sample_at_def)

lemma two_files_inj:
  "inj_on (\<lambda>i. meta_path ((meta 1)\<lparr>md_name := Some (if i = (0 :: nat) then ''a.bin'' else ''b.bin'')\<rparr>)) {..<2}"
proof (rule inj_onI)
  fix i j :: nat
  assume "i \<in> {..<2}" "j \<in> {..<2}"
    and eq: "meta_path ((meta 1)\<lparr>md_name := Some (if i = 0 then ''a.bin'' else ''b.bin'')\<rparr>)
      = meta_path ((meta 1)\<lparr>md_name := Some (if j = 0 then ''a.bin'' else ''b.bin'')\<rparr>)"
  then have "i \<in> {0, 1}" "j \<in> {0, 1}" by auto
  with eq two_paths show "i = j" by (auto split: if_splits)
qed

lemma two_files_apart: "apart two_files"
proof -
  have "inbox_paths (two_files i) = (if i = 0 then {''c:/application/app/a.bin''}
      else if i = 1 then {''c:/application/app/b.bin''} else {})" for i
    using two_paths by (auto simp: two_files_def scripts_def script_def inbox_paths_def)
  then show ?thesis by (simp add: apart_def)
qed

theorem uploads_isolated_witness:
  "\<exists>u. ureach calm_env (upload_start (\<lambda>p. None) sample_inbox) u \<and> up_phase u = Answered None"
proof -
  from uploads_isolated [OF two_files_reach two_files_apart, of 0] obtain u where
    "ureach calm_env (upload_start (\<lambda>p. None) sample_inbox) u" "u = (one_done 0)\<lparr>up_store := up_store u\<rparr>"
    unfolding two_files_0 by blast
  moreover from this(2) have "up_phase u = up_phase ((one_done 0)\<lparr>up_store := up_store u\<rparr>)"
    by (rule arg_cong)
  then have "up_phase u = Answered None" by (simp add: one_done_def sample_at_def)
  ultimately show ?thesis by blast
qed

theorem uploads_answered_witness:
  "verdict calm_env ((meta 1)\<lparr>md_name := Some ''a.bin''\<rparr>) [chunk [7]] ''07'' [] = None
   \<and> up_phase (one_done 0) = Answered None"
proof -
  have o: "up_phase (one_done 0) = Answered None" by (simp add: one_done_def sample_at_def)
  have "\<not> hits ((meta 1)\<lparr>md_name := Some ''a.bin''\<rparr>) [chunk [7]] k" if "k < length [chunk [7]]" for k
    using that by (simp add: hits_def)
  with uploads_answered [OF two_files_reach [unfolded two_files_def] two_files_inj benign_calm, of 0 None] o
  show ?thesis by (auto simp: old_content_def meta_def)
qed

end
