(* ===== verification/Restart_Race.thy ===== *)
theory Restart_Race
  imports Interleaving Power_Ctl_Correct
begin

text \<open>
  \<open>RestartTo\<close> of \<open>service/power_ctl.go\<close> as gRPC runs it: every order in a goroutine of its own,
  without a lock around the reading, searching and writing of the boot order.  The handler
  is taken apart into its accesses to the variables; one order alone does what \<open>RestartTo\<close>
  does, and any number of them together keep the boot order a permutation of itself.
\<close>

section \<open>The handler in steps\<close>

text \<open>
  Where a handler is: before reading the order, in the search loop (the request, what was
  read, the entries left, the loop variable and \<open>targetIndex\<close>), before the write, at the
  call of \<open>Restart\<close>, or returned.
\<close>

datatype order_at =
    ReadOrder string
  | Searching string u32 "u16 list" "u16 list" nat "nat option"
  | Writing u32 "u16 list"
  | Restarting
  | Ended "unit res"

fun failed :: "'a res \<Rightarrow> unit res" where
  "failed (Ok x) = Ok ()"
| "failed (Err e) = Err e"
| "failed (Panic p) = Panic p"
| "failed Blocked = Blocked"

text \<open>One access to the variables, or one local step.\<close>

fun order_step :: "env \<Rightarrow> efivarfs \<Rightarrow> order_at \<Rightarrow> efivarfs \<times> order_at" where
  "order_step E fs (ReadOrder search) =
     (case BootOrder_Get (FsContext fs) of
        Ok (attr, order) \<Rightarrow> (fs, Searching search attr order order 0 None)
      | r \<Rightarrow> (fs, Ended (failed r)))"
| "order_step E fs (Searching search attr order (boot # bs) i target) =
     (case boot_desc (FsContext fs) boot of
        Ok desc \<Rightarrow> (fs, Searching search attr order bs (Suc i) (if str_contains desc search then Some i else target))
      | r \<Rightarrow> (fs, Ended (failed r)))"
| "order_step E fs (Searching search attr order [] i target) =
     (case target of
        None \<Rightarrow> (fs, Ended (Err ''boot entry not found''))
      | Some t \<Rightarrow> (fs, Writing attr (move_to_front order t)))"
| "order_step E fs (Writing attr newOrder) =
     (case put_order 0 newOrder (replicate (length newOrder * 2) 0) of
        Ok out \<Rightarrow>
          (case efi_set (refuses E) fs ''BootOrder'' attr out of
             (Some e, fs') \<Rightarrow> (fs', Ended (Err e))
           | (None, fs') \<Rightarrow> (fs', Restarting))
      | r \<Rightarrow> (fs, Ended (failed r)))"
| "order_step E fs Restarting = (fs, Restarting)"
| "order_step E fs (Ended r) = (fs, Ended r)"

fun at_end :: "order_at \<Rightarrow> bool" where
  "at_end Restarting = True"
| "at_end (Ended r) = True"
| "at_end p = False"

inductive rstep :: "env \<Rightarrow> efivarfs \<times> order_at \<Rightarrow> efivarfs \<times> order_at \<Rightarrow> bool" for E where
  rstep: "\<not> at_end p \<Longrightarrow> order_step E fs p = q \<Longrightarrow> rstep E (fs, p) q"

inductive_cases rstep_cases: "rstep E (fs, p) q"

section \<open>One order alone\<close>

text \<open>What is left of \<open>RestartTo\<close> at each point, on a machine nobody else changes.\<close>

definition write_rest :: "env \<Rightarrow> efivarfs power_ops \<Rightarrow> u32 \<Rightarrow> u16 list \<Rightarrow> (efivarfs machine, unit) io" where
  "write_rest E ops attr newOrder m =
     (case put_order 0 newOrder (replicate (length newOrder * 2) 0) of
        Ok out \<Rightarrow>
          (case efi_set (refuses E) (vars m) ''BootOrder'' attr out of
             (Some e, fs) \<Rightarrow> (Err e, m\<lparr>vars := fs\<rparr>)
           | (None, fs) \<Rightarrow> Restart ops (m\<lparr>vars := fs\<rparr>))
      | Err e \<Rightarrow> (Err e, m) | Panic p \<Rightarrow> (Panic p, m) | Blocked \<Rightarrow> (Blocked, m))"

fun order_rest :: "env \<Rightarrow> efivarfs power_ops \<Rightarrow> order_at \<Rightarrow> (efivarfs machine, unit) io" where
  "order_rest E ops (ReadOrder search) m = RestartTo E ops search m"
| "order_rest E ops (Searching search attr order bs i target) m =
     (case find_target (FsContext (vars m)) search i bs target of
        Ok None \<Rightarrow> (Err ''boot entry not found'', m)
      | Ok (Some t) \<Rightarrow> write_rest E ops attr (move_to_front order t) m
      | Err e \<Rightarrow> (Err e, m) | Panic p \<Rightarrow> (Panic p, m) | Blocked \<Rightarrow> (Blocked, m))"
| "order_rest E ops (Writing attr newOrder) m = write_rest E ops attr newOrder m"
| "order_rest E ops Restarting m = Restart ops m"
| "order_rest E ops (Ended r) m = (r, m)"

lemma order_rest_step:
  assumes "order_step E (vars m) p = (fs, q)"
  shows "order_rest E ops p m = order_rest E ops q (m\<lparr>vars := fs\<rparr>)"
proof -
  have same: "m\<lparr>vars := vars m\<rparr> = m" by simp
  show ?thesis
  proof (cases p)
    case (Searching search attr order bs i target)
    with assms same show ?thesis
      by (cases bs) (auto split: option.splits res.splits)
  qed (use assms same in \<open>auto simp: RestartTo_eq write_rest_def Let_def split: option.splits res.splits prod.splits\<close>)
qed

text \<open>
  The steps are those of the handler: a run of one order by itself, to its end, gives
  the outcome and the variables of \<open>RestartTo\<close>.
\<close>

lemma order_alone:
  assumes "(rstep E)\<^sup>*\<^sup>* (vars m, ReadOrder search) (fs, p)" and "at_end p"
  shows "RestartTo E ops search m =
    (case p of Ended r \<Rightarrow> (r, m\<lparr>vars := fs\<rparr>) | _ \<Rightarrow> Restart ops (m\<lparr>vars := fs\<rparr>))"
proof -
  have "order_rest E ops p (m\<lparr>vars := fs\<rparr>) = RestartTo E ops search m"
    using assms(1)
  proof (induction rule: rtranclp_induct2)
    case refl
    show ?case by simp
  next
    case (step fs1 p1 fs2 p2)
    then have "order_step E (vars (m\<lparr>vars := fs1\<rparr>)) p1 = (fs2, p2)" by (auto elim: rstep_cases)
    from order_rest_step [OF this, of ops] step.IH show ?case by simp
  qed
  with assms(2) show ?thesis by (cases p) auto
qed

text \<open>An order by itself comes to its end.\<close>

definition ends :: "env \<Rightarrow> efivarfs \<times> order_at \<Rightarrow> bool" where
  "ends E s \<longleftrightarrow> (\<exists>t. (rstep E)\<^sup>*\<^sup>* s t \<and> at_end (snd t))"

lemma ends_at_end: "at_end p \<Longrightarrow> ends E (fs, p)"
  unfolding ends_def by (rule exI [of _ "(fs, p)"]) simp

lemma ends_step:
  assumes "\<not> at_end p" and "ends E (order_step E fs p)"
  shows "ends E (fs, p)"
proof -
  from assms(2) obtain t where t: "(rstep E)\<^sup>*\<^sup>* (order_step E fs p) t" "at_end (snd t)" by (auto simp: ends_def)
  have "rstep E (fs, p) (order_step E fs p)" using assms(1) by (rule rstep.rstep) simp
  from converse_rtranclp_into_rtranclp [OF this t(1)] t(2) show ?thesis unfolding ends_def by blast
qed

lemma ends_searching: "ends E (fs, Searching search a order bs i t)"
proof (induction bs arbitrary: i t)
  case Nil
  have "ends E (fs, Writing a new)" for new
    by (rule ends_step) (auto intro!: ends_at_end split: res.split option.split prod.split)
  then show ?case by (intro ends_step) (auto intro!: ends_at_end split: option.split)
next
  case (Cons b bs)
  then show ?case by (intro ends_step) (auto intro!: ends_at_end split: res.split)
qed

lemma order_ends: "ends E (fs, ReadOrder search)"
  by (rule ends_step) (auto intro!: ends_at_end ends_searching split: res.split prod.split)

section \<open>Many orders at once\<close>

text \<open>What the boot order may become, and what every other variable stays.\<close>

definition order_kept :: "efivarfs \<Rightarrow> u32 \<Rightarrow> u16 list \<Rightarrow> (nat \<Rightarrow> string) \<Rightarrow> efivarfs \<Rightarrow> bool" where
  "order_kept fs0 a o0 search fs \<longleftrightarrow> (\<exists>order. BootOrder_Get (FsContext fs) = Ok (a, order) \<and> mset order = mset o0
     \<and> (order = o0 \<or> (\<exists>i d. boot_desc (FsContext fs0) (hd order) = Ok d \<and> str_contains d (search i))))
     \<and> (\<forall>f. f \<noteq> getFileName ''BootOrder'' \<longrightarrow> fs f = fs0 f)"

text \<open>What a handler knows at its point: its order is a permutation, its search is right.\<close>

fun order_knows :: "efivarfs \<Rightarrow> u32 \<Rightarrow> u16 list \<Rightarrow> string \<Rightarrow> order_at \<Rightarrow> bool" where
  "order_knows fs0 a o0 s (ReadOrder search) = (search = s)"
| "order_knows fs0 a o0 s (Searching search attr order bs i target) =
     (search = s \<and> attr = a \<and> mset order = mset o0 \<and> bs = drop i order
      \<and> (\<forall>t. target = Some t \<longrightarrow> t < length order \<and> (\<exists>d. boot_desc (FsContext fs0) (order ! t) = Ok d \<and> str_contains d s)))"
| "order_knows fs0 a o0 s (Writing attr newOrder) =
     (attr = a \<and> mset newOrder = mset o0 \<and> (\<exists>d. boot_desc (FsContext fs0) (hd newOrder) = Ok d \<and> str_contains d s))"
| "order_knows fs0 a o0 s Restarting = True"
| "order_knows fs0 a o0 s (Ended r) = True"

lemma boot_name_not_order: "boot_name b \<noteq> ''BootOrder''"
proof
  assume "boot_name b = ''BootOrder''"
  then have "CHR ''r'' \<in> set (pad4 (num_str 10 (unat b)))" by (simp add: boot_name_def fmt_04d_def)
  then have "CHR ''r'' \<in> set (num_str 10 (unat b))" by (auto simp: pad4_def split: if_splits)
  from num_str_digits [OF this] show False by (simp add: is_digit_def)
qed

lemma boot_desc_kept:
  "order_kept fs0 a o0 search fs \<Longrightarrow> boot_desc (FsContext fs) b = boot_desc (FsContext fs0) b"
  by (rule boot_desc_cong) (simp add: order_kept_def boot_name_not_order)

lemma order_written:
  assumes "efi_set ref fs ''BootOrder'' a (concat (map put_u16 new)) = (None, fs')" and "length new \<le> 1024"
  shows "BootOrder_Get (FsContext fs') = Ok (a, new)" and "f \<noteq> getFileName ''BootOrder'' \<Longrightarrow> fs' f = fs f"
proof -
  from efi.rd_wr [OF assms(1)] assms(2) show "BootOrder_Get (FsContext fs') = Ok (a, new)"
    by (intro BootOrder_Get_encoded) simp
  from assms(1) show "f \<noteq> getFileName ''BootOrder'' \<Longrightarrow> fs' f = fs f"
    by (auto simp: efi_set_def Let_def split: option.splits)
qed

text \<open>One step of a handler keeps what may be known.\<close>

lemma order_step_kept:
  assumes "order_step E fs p = (fs', p')" and "order_kept fs0 a o0 search fs"
    and "order_knows fs0 a o0 (search i) p" and "length o0 \<le> 1024"
  shows "order_kept fs0 a o0 search fs' \<and> order_knows fs0 a o0 (search i) p'"
proof (cases p)
  case (ReadOrder s)
  with assms show ?thesis by (auto simp: order_kept_def)
next
  case (Searching s b order bs k target)
  note sr = this
  show ?thesis
  proof (cases bs)
    case Nil
    with sr assms show ?thesis
      by (auto simp: move_to_front_mset move_to_front_def [of _ "the target"] split: option.splits)
        (auto simp: move_to_front_def)
  next
    case (Cons c cs)
    with sr assms(3) have d: "c # cs = drop k order" by simp
    then have k: "k < length order" by (metis drop_all leI list.distinct(1))
    with d Cons_nth_drop_Suc [OF k] have "c = order ! k" "cs = drop (Suc k) order" by (metis list.inject)+
    with sr Cons assms k show ?thesis
      by (auto simp: boot_desc_kept split: res.splits if_splits)
  qed
next
  case (Writing b new)
  with assms(3) have b: "b = a" "mset new = mset o0" "\<exists>d. boot_desc (FsContext fs0) (hd new) = Ok d \<and> str_contains d (search i)"
    by auto
  then have len: "length new \<le> 1024" using assms(4) by (metis size_mset)
  obtain r fs1 where w: "efi_set (refuses E) fs ''BootOrder'' a (concat (map put_u16 new)) = (r, fs1)"
    by (cases "efi_set (refuses E) fs ''BootOrder'' a (concat (map put_u16 new))")
  show ?thesis
  proof (cases r)
    case None
    with order_written [OF w [unfolded None] len] b assms(1,2) Writing w show ?thesis
      by (auto simp: order_kept_def put_order_all)
  next
    case (Some e)
    with efi_set_refused [OF w [unfolded Some]] b assms(1,2) Writing w show ?thesis
      by (auto simp: put_order_all)
  qed
qed (use assms in auto)

interpretation orders: rely_guarantee "rstep E"
    "\<lambda>i fs p. length o0 \<le> 1024 \<longrightarrow> order_kept fs0 a o0 search fs \<and> order_knows fs0 a o0 (search i) p"
    "\<lambda>i fs fs'. length o0 \<le> 1024 \<longrightarrow> order_kept fs0 a o0 search fs \<longrightarrow> order_kept fs0 a o0 search fs'"
  for E fs0 a o0 and search :: "nat \<Rightarrow> string"
proof
  fix i :: nat and g g' l l'
  assume inv: "length o0 \<le> 1024 \<longrightarrow> order_kept fs0 a o0 search g \<and> order_knows fs0 a o0 (search i) l"
    and "rstep E (g, l) (g', l')"
  then have "order_step E g l = (g', l')" by (auto elim: rstep_cases)
  from order_step_kept [OF this] inv
  show "length o0 \<le> 1024 \<longrightarrow> order_kept fs0 a o0 search g' \<and> order_knows fs0 a o0 (search i) l'"
    and "length o0 \<le> 1024 \<longrightarrow> order_kept fs0 a o0 search g \<longrightarrow> order_kept fs0 a o0 search g'" by blast+
qed auto

text \<open>
  C11: however many orders run at once and wherever each of them is, the boot order is a
  permutation of the one before with the same attributes, no other variable has changed,
  and unless it is still the old one it begins with an entry that one of the clients asked
  for.  Nothing more holds of two orders that both succeed: see below.
\<close>

theorem orders_kept:
  assumes "families (rstep E) (fs0, \<lambda>i :: nat. ReadOrder (search i)) (fs, L)"
    and "BootOrder_Get (FsContext fs0) = Ok (a, o0)" and "length o0 \<le> 1024"
  shows "\<exists>order. BootOrder_Get (FsContext fs) = Ok (a, order) \<and> mset order = mset o0
    \<and> (order = o0 \<or> (\<exists>i d. boot_desc (FsContext fs0) (hd order) = Ok d \<and> str_contains d (search i)))
    \<and> (\<forall>f. f \<noteq> getFileName ''BootOrder'' \<longrightarrow> fs f = fs0 f)"
proof -
  have "order_kept fs0 a o0 search fs0" using assms(2) by (simp add: order_kept_def)
  then have "length o0 \<le> 1024 \<longrightarrow> order_kept fs0 a o0 search fs \<and> order_knows fs0 a o0 (search 0) (L 0)"
    by (intro orders.reached_inv [OF assms(1)]) simp
  with assms(3) have "order_kept fs0 a o0 search fs" by simp
  then show ?thesis by (auto simp: order_kept_def)
qed

section \<open>Two orders that both succeed\<close>

lemma search_runs:
  "find_target (FsContext fs) s i bs target = Ok t
   \<Longrightarrow> (rstep E)\<^sup>*\<^sup>* (fs, Searching s a order bs i target) (fs, Searching s a order [] (i + length bs) t)"
proof (induction bs arbitrary: i target)
  case (Cons b bs)
  then obtain d where d: "boot_desc (FsContext fs) b = Ok d"
      "find_target (FsContext fs) s (Suc i) bs (if str_contains d s then Some i else target) = Ok t" by auto
  have "rstep E (fs, Searching s a order (b # bs) i target)
      (fs, Searching s a order bs (Suc i) (if str_contains d s then Some i else target))"
    by (rule rstep.rstep) (simp_all add: d(1))
  from converse_rtranclp_into_rtranclp [OF this Cons.IH [OF d(2)]] show ?case by simp
qed simp

lemma order_runs:
  assumes "BootOrder_Get (FsContext fs) = Ok (a, order)" and "boot_descs (FsContext fs) order = Ok ds" and "last_match s ds (Some t)"
    and "efi_set (refuses E) fs ''BootOrder'' a (concat (map put_u16 (move_to_front order t))) = (None, fs')"
  shows "(rstep E)\<^sup>*\<^sup>* (fs, ReadOrder s) (fs', Restarting)"
proof -
  have "rstep E (fs, ReadOrder s) (fs, Searching s a order order 0 None)"
    by (rule rstep.rstep) (simp_all add: assms(1))
  moreover have "(rstep E)\<^sup>*\<^sup>* (fs, Searching s a order order 0 None) (fs, Searching s a order [] (0 + length order) (Some t))"
    by (rule search_runs) (rule find_target_eq [OF assms(2,3)])
  moreover have "rstep E (fs, Searching s a order [] (0 + length order) (Some t)) (fs, Writing a (move_to_front order t))"
    by (rule rstep.rstep) simp_all
  moreover have "rstep E (fs, Writing a (move_to_front order t)) (fs', Restarting)"
    by (rule rstep.rstep) (simp_all add: put_order_all assms(4))
  ultimately show ?thesis by (meson converse_rtranclp_into_rtranclp rtranclp.rtrancl_into_rtrancl)
qed

text \<open>
  On the sample machine one client asks for \<open>W\<close> and another for \<open>L\<close>.  Both handlers get to the
  restart, and the machine boots \<open>L\<close>.
\<close>

definition two_orders :: "nat \<Rightarrow> string" where
  "two_orders i = (if i = 0 then ''W'' else ''L'')"

lemma both_succeed:
  "\<exists>fs L. families (rstep demo_env) (demo_vars, \<lambda>i. ReadOrder (two_orders i)) (fs, L)
     \<and> L 0 = Restarting \<and> L 1 = Restarting \<and> BootOrder_Get (FsContext fs) = Ok (7, [1, 2])"
proof -
  have put: "\<exists>fs'. efi_set (refuses demo_env) fs ''BootOrder'' a v = (None, fs')" for fs a v
    by (simp add: efi_set_def demo_takes)
  have front: "move_to_front [1, 2] 1 = [2, 1]" "move_to_front [2, 1] 1 = [1, 2 :: u16]"
    by (simp_all add: move_to_front_def)
  obtain fs1 where 1: "efi_set (refuses demo_env) demo_vars ''BootOrder'' 7 (concat (map put_u16 [2, 1])) = (None, fs1)"
    using put by blast
  have o1: "BootOrder_Get (FsContext fs1) = Ok (7, [2, 1])" by (rule order_written(1) [OF 1]) simp
  have same: "boot_desc (FsContext fs1) b = boot_desc (FsContext demo_vars) b" for b
    by (rule boot_desc_cong) (rule order_written(2) [OF 1], simp_all add: boot_name_not_order)
  have "boot_desc (FsContext demo_vars) 1 = Ok ''L''" "boot_desc (FsContext demo_vars) 2 = Ok ''W''"
    by (simp_all add: boot_desc_def demo_name demo_getdesc demo_trim)
  then have d1: "boot_descs (FsContext fs1) [2, 1] = Ok [''W'', ''L'']" by (simp add: same)
  have m1: "last_match ''L'' [''W'', ''L''] (Some 1)"
    by (auto simp: last_match_def str_contains_def less_Suc_eq)
  obtain fs2 where 2: "efi_set (refuses demo_env) fs1 ''BootOrder'' 7 (concat (map put_u16 [1, 2])) = (None, fs2)"
    using put by blast
  have o2: "BootOrder_Get (FsContext fs2) = Ok (7, [1, 2])" by (rule order_written(1) [OF 2]) simp
  have r1: "(rstep demo_env)\<^sup>*\<^sup>* (demo_vars, ReadOrder ''W'') (fs1, Restarting)"
    by (rule order_runs [OF demo_order demo_descs demo_targets(1)]) (simp only: front 1)
  have r2: "(rstep demo_env)\<^sup>*\<^sup>* (fs1, ReadOrder ''L'') (fs2, Restarting)"
    by (rule order_runs [OF o1 d1 m1]) (simp only: front 2)
  let ?L = "\<lambda>i. ReadOrder (two_orders i)"
  have "families (rstep demo_env) (demo_vars, ?L) (fs1, ?L(0 := Restarting))"
    using family_lift [OF r1, of ?L 0] by (simp add: fun_upd_idem two_orders_def)
  moreover have "families (rstep demo_env) (fs1, ?L(0 := Restarting)) (fs2, ?L(0 := Restarting, 1 := Restarting))"
    using family_lift [OF r2, of "?L(0 := Restarting)" 1] by (simp add: fun_upd_idem two_orders_def)
  ultimately have "families (rstep demo_env) (demo_vars, ?L) (fs2, ?L(0 := Restarting, 1 := Restarting))"
    by (rule rtranclp_trans)
  with o2 show ?thesis by (intro exI [of _ fs2] exI [of _ "?L(0 := Restarting, 1 := Restarting)"]) simp
qed

theorem orders_kept_witness:
  "\<exists>fs (L :: nat \<Rightarrow> order_at) order. L 0 = Restarting \<and> BootOrder_Get (FsContext fs) = Ok (7, order) \<and> mset order = mset [1, 2]
     \<and> fs (getFileName ''Boot0001'') = demo_vars (getFileName ''Boot0001'')"
proof -
  from both_succeed obtain fs L where
      r: "families (rstep demo_env) (demo_vars, \<lambda>i. ReadOrder (two_orders i)) (fs, L)" "L 0 = Restarting" by blast
  from orders_kept [OF r(1) demo_order] obtain order where "BootOrder_Get (FsContext fs) = Ok (7, order)" "mset order = mset [1, 2]"
      "\<forall>f. f \<noteq> getFileName ''BootOrder'' \<longrightarrow> fs f = demo_vars f" by auto
  with r(2) show ?thesis by (intro exI [of _ fs] exI [of _ L] exI [of _ order]) simp
qed

lemma order_alone_witness:
  "\<exists>fs. RestartTo demo_env (linux_ops demo_env) ''W'' demo_machine
     = Restart (linux_ops demo_env) (demo_machine\<lparr>vars := fs\<rparr>)"
proof -
  obtain fs1 where 1: "efi_set (refuses demo_env) (vars demo_machine) ''BootOrder'' 7
      (concat (map put_u16 (move_to_front [1, 2] 1))) = (None, fs1)"
    by (simp add: efi_set_def demo_takes)
  have "(rstep demo_env)\<^sup>*\<^sup>* (vars demo_machine, ReadOrder ''W'') (fs1, Restarting)"
    by (rule order_runs [OF demo_machine_order demo_machine_descs demo_targets(1) 1])
  from order_alone [OF this, of "linux_ops demo_env"] show ?thesis by auto
qed

end
