(* ===== verification/Power_Windows.thy ===== *)
theory Power_Windows
  imports Power_Ctl_Correct
begin

text \<open>
  The power-control service under Windows, where the vendored \<open>efivario\<close> package reaches the
  variables by calls of the Windows API (\<open>context_windows.go\<close>, \<open>efiwindows/syscall_windows.go\<close>)
  instead of files.  What the calls do is a parameter; what Microsoft documents of them is the
  hypothesis \<open>documented\<close>.
\<close>

section \<open>The Windows context\<close>

text \<open>
  The calls, over a firmware state of any type: the status and the needed length of a query
  without a buffer; the returned length, the last error, the attributes and the bytes put into
  a buffer of a given length; the returned flag and last error of a write; the text of an error
  code.  All accesses are to the global-variable GUID.
\<close>

record 's firmware =
  fw_query :: "string \<Rightarrow> 's \<Rightarrow> u32 \<times> u32"
  fw_get :: "string \<Rightarrow> nat \<Rightarrow> 's \<Rightarrow> u32 \<times> nat \<times> u32 \<times> u8 list"
  fw_set :: "string \<Rightarrow> u8 list \<Rightarrow> u32 \<Rightarrow> 's \<Rightarrow> (u64 \<times> nat) \<times> 's"
  fw_text :: "nat \<Rightarrow> string"

definition STATUS_BUFFER_TOO_SMALL :: u32 where
  "STATUS_BUFFER_TOO_SMALL = 0xC0000023"

definition ERROR_INSUFFICIENT_BUFFER :: nat where
  "ERROR_INSUFFICIENT_BUFFER = 122"

definition ERROR_ENVVAR_NOT_FOUND :: nat where
  "ERROR_ENVVAR_NOT_FOUND = 203"

text \<open>\<open>syscall.UTF16PtrFromString\<close> refuses a zero byte; \<open>%q\<close> for names of printable characters.\<close>

definition utf16_error :: "string \<Rightarrow> goerr option" where
  "utf16_error name = (if CHR 0x00 \<in> set name then Some ''invalid argument'' else None)"

definition go_quote :: "string \<Rightarrow> string" where
  "go_quote s = CHR 0x22 # concat (map (\<lambda>c.
     if c = CHR 0x00 then [CHR 0x5C] @ ''x00''
     else if c = CHR 0x22 \<or> c = CHR 0x5C then [CHR 0x5C, c] else [c]) s) @ [CHR 0x22]"

text \<open>\<open>errnoErr\<close>: a failed call without an error code counts as an invalid argument.\<close>

definition efi_errno :: "'s firmware \<Rightarrow> nat \<Rightarrow> goerr" where
  "efi_errno F e = (if e = 0 then ''invalid argument'' else fw_text F e)"

definition win_GetSizeHint :: "'s firmware \<Rightarrow> 's \<Rightarrow> string \<Rightarrow> goerr + int" where
  "win_GetSizeHint F s name =
     (case utf16_error name of
        Some e \<Rightarrow> Inl (''efivario/GetSizeHint: utf16('' @ go_quote name @ ''): '' @ e)
      | None \<Rightarrow>
          (let (status, bufLen) = fw_query F name s in
           if status \<noteq> 0 \<and> status \<noteq> STATUS_BUFFER_TOO_SMALL
           then Inl (''efivario/GetSizeHint: query('' @ go_quote name @ ''): '' @ fw_text F (unat status))
           else Inr (uint bufLen)))"

definition win_Get ::
  "'s firmware \<Rightarrow> 's \<Rightarrow> string \<Rightarrow> u8 list \<Rightarrow> u32 \<times> nat \<times> u8 list \<times> get_err option" where
  "win_Get F s name out =
     (case utf16_error name of
        Some e \<Rightarrow> (0, 0, out, Some (GetErr (''efivario/Get: utf16('' @ go_quote name @ ''): '' @ e)))
      | None \<Rightarrow>
          (let (n, e1, a, bytes) = fw_get F name (length out) s; out' = bytes @ drop (length bytes) out in
           if n = 0
           then (a, 0, out',
                 Some (if e1 = ERROR_INSUFFICIENT_BUFFER then TooSmall (efi_msg ErrInsufficientSpace)
                       else if e1 = ERROR_ENVVAR_NOT_FOUND then GetErr (efi_msg ErrNotFound)
                       else GetErr (''efivario/Get: '' @ efi_errno F e1)))
           else (a, unat n, out', None)))"

definition win_Set ::
  "'s firmware \<Rightarrow> string \<Rightarrow> u32 \<Rightarrow> u8 list \<Rightarrow> 's \<Rightarrow> goerr option \<times> 's" where
  "win_Set F name attrs val s =
     (case utf16_error name of
        Some e \<Rightarrow> (Some (''efivario/Set: utf16('' @ go_quote name @ ''): '' @ e), s)
      | None \<Rightarrow>
          (let ((r1, e1), s') = fw_set F name val attrs s in
           if r1 = 0 then (Some (''efivario/Set: '' @ efi_errno F e1), s') else (None, s')))"

definition win_Delete :: "'s firmware \<Rightarrow> string \<Rightarrow> 's \<Rightarrow> goerr option \<times> 's" where
  "win_Delete F name s =
     (case utf16_error name of
        Some e \<Rightarrow> (Some (''efivario/Delete: utf16('' @ go_quote name @ ''): '' @ e), s)
      | None \<Rightarrow>
          (let ((r1, e1), s') = fw_set F name [] 0 s in
           if r1 = 0 then (Some (''efivario/Delete: '' @ efi_errno F e1), s') else (None, s')))"

definition WindowsContext :: "'s firmware \<Rightarrow> 's \<Rightarrow> efi_context" where
  "WindowsContext F s = \<lparr>ctx_GetSizeHint = win_GetSizeHint F s, ctx_Get = win_Get F s\<rparr>"

definition windows_store :: "'s firmware \<Rightarrow> 's machine efi_store" where
  "windows_store F =
     \<lparr>st_ctx = \<lambda>m. WindowsContext F (vars m),
      st_Set = \<lambda>name attrs val m. (let (e, s) = win_Set F name attrs val (vars m)
                                  in (e, m\<lparr>vars := s\<rparr>))\<rparr>"

text \<open>The RPC as the Windows build has it.\<close>

definition windows_PowerCtl ::
  "env \<Rightarrow> 's firmware \<Rightarrow> PowerCtlOrder \<Rightarrow> ('s machine, Result) io" where
  "windows_PowerCtl E F = PowerCtl_on (windows_store F) (windows_ops E)"

section \<open>What is documented\<close>

text \<open>
  The firmware keeps a value and its attributes under a name.  A query for the size of a
  variable says that no buffer is too small and what is needed, a read into a large enough
  buffer gives the value and its length, and into a smaller one says so and puts nothing; a
  write replaces the variable or changes nothing.  Variables are never empty, and the append
  bit is not stored.
\<close>

definition read_documented :: "'s firmware \<Rightarrow> ('s \<Rightarrow> string \<rightharpoonup> u32 \<times> u8 list) \<Rightarrow> string \<Rightarrow> 's \<Rightarrow> bool" where
  "read_documented F view name s \<longleftrightarrow>
     (case view s name of
        None \<Rightarrow>
          fst (fw_query F name s) \<notin> {0, STATUS_BUFFER_TOO_SMALL}
          \<and> (\<forall>k. fst (fw_get F name k s) = 0 \<and> fst (snd (fw_get F name k s)) = ERROR_ENVVAR_NOT_FOUND)
      | Some (a, v) \<Rightarrow>
          v \<noteq> [] \<and> length v < 2 ^ 31 \<and> and a AppendWrite = 0
          \<and> fw_query F name s = (STATUS_BUFFER_TOO_SMALL, word_of_nat (length v))
          \<and> (\<forall>k \<ge> length v. \<exists>e. fw_get F name k s = (word_of_nat (length v), e, a, v))
          \<and> (\<forall>k < length v. \<exists>b. fw_get F name k s = (0, ERROR_INSUFFICIENT_BUFFER, b, [])))"

definition write_documented :: "'s firmware \<Rightarrow> ('s \<Rightarrow> string \<rightharpoonup> u32 \<times> u8 list) \<Rightarrow> string \<Rightarrow> 's \<Rightarrow> bool" where
  "write_documented F view name s \<longleftrightarrow>
     (\<forall>a v. v \<noteq> [] \<longrightarrow> and a AppendWrite = 0 \<longrightarrow>
        view (snd (fw_set F name v a s))
          = (if fst (fst (fw_set F name v a s)) = 0 then view s else (view s)(name \<mapsto> (a, v))))"

definition documented :: "'s firmware \<Rightarrow> ('s \<Rightarrow> string \<rightharpoonup> u32 \<times> u8 list) \<Rightarrow> bool" where
  "documented F view \<longleftrightarrow> (\<forall>name s. read_documented F view name s \<and> write_documented F view name s)"

section \<open>Reading\<close>

lemma u32_of_length:
  assumes "length v < 2 ^ 31"
  shows "unat (word_of_nat (length v) :: u32) = length v" and "uint (word_of_nat (length v) :: u32) = int (length v)"
proof -
  have "take_bit 32 (length v) = length v" using assms by (intro take_bit_nat_eq_self) simp
  then show "unat (word_of_nat (length v) :: u32) = length v" by (simp add: unsigned_of_nat)
  from \<open>take_bit 32 (length v) = length v\<close> show "uint (word_of_nat (length v) :: u32) = int (length v)" by (simp add: unsigned_of_nat)
qed

text \<open>What the context gives for a name without zero bytes.\<close>

lemma win_hint:
  assumes "documented F view" and "CHR 0x00 \<notin> set name"
  shows "case view s name of
      None \<Rightarrow> \<exists>e. win_GetSizeHint F s name = Inl e
    | Some (a, v) \<Rightarrow> win_GetSizeHint F s name = Inr (int (length v))"
proof -
  have d: "read_documented F view name s" using assms(1) by (simp add: documented_def)
  have u: "utf16_error name = None" using assms(2) by (simp add: utf16_error_def)
  show ?thesis
  proof (cases "view s name")
    case None
    with d u show ?thesis
      by (cases "fw_query F name s") (simp add: win_GetSizeHint_def read_documented_def)
  next
    case (Some p)
    obtain a v where p: "p = (a, v)" by fastforce
    with Some d u show ?thesis
      by (simp add: win_GetSizeHint_def read_documented_def u32_of_length)
  qed
qed

lemma win_Get_absent:
  assumes "documented F view" and "CHR 0x00 \<notin> set name" and "view s name = None"
  shows "\<exists>a b. win_Get F s name out = (a, 0, b, Some (GetErr ''variable not found''))"
proof -
  have "read_documented F view name s" using assms(1) by (simp add: documented_def)
  moreover have "utf16_error name = None" using assms(2) by (simp add: utf16_error_def)
  ultimately show ?thesis using assms(3)
    by (cases "fw_get F name (length out) s")
       (auto simp: win_Get_def read_documented_def ERROR_INSUFFICIENT_BUFFER_def ERROR_ENVVAR_NOT_FOUND_def
          Let_def dest!: spec [of _ "length out"])
qed

lemma win_Get_exact:
  assumes "documented F view" and "CHR 0x00 \<notin> set name" and "view s name = Some (a, v)"
    and "length out = length v"
  shows "win_Get F s name out = (a, length v, v, None)"
proof -
  have d: "read_documented F view name s" using assms(1) by (simp add: documented_def)
  have "utf16_error name = None" using assms(2) by (simp add: utf16_error_def)
  moreover from d assms(3) have v: "v \<noteq> []" "length v < 2 ^ 31" by (simp_all add: read_documented_def)
  moreover from d assms(3,4) obtain e where "fw_get F name (length out) s = (word_of_nat (length v), e, a, v)"
    by (auto simp: read_documented_def)
  moreover have "(word_of_nat (length v) :: u32) \<noteq> 0"
    using u32_of_length(1) [OF v(2)] v(1) by (metis length_0_conv unat_0)
  ultimately show ?thesis using assms(4)
    by (simp add: win_Get_def u32_of_length)
qed

text \<open>\<open>ReadAll\<close> and \<open>getEnvVar\<close>, which are all the service reads by.\<close>

lemma win_ReadAll:
  assumes "documented F view" and "CHR 0x00 \<notin> set name"
  shows "ReadAll (WindowsContext F s) name =
    (case view s name of
       None \<Rightarrow> Err ''variable not found''
     | Some (a, v) \<Rightarrow> if length v \<le> 2048 then Ok (a, v) else Ok (0, replicate (length v) 0))"
proof (cases "view s name")
  case None
  from win_hint [OF assms, of s] None obtain e where "win_GetSizeHint F s name = Inl e" by auto
  moreover obtain a b where "win_Get F s name (replicate 8 0) = (a, 0, b, Some (GetErr ''variable not found''))"
    using win_Get_absent [OF assms None] by blast
  ultimately show ?thesis using None by (simp add: ReadAll_def WindowsContext_def read_all_loop.simps)
next
  case (Some p)
  obtain a v where p: "p = (a, v)" by fastforce
  have h: "win_GetSizeHint F s name = Inr (int (length v))"
    using win_hint [OF assms, of s] Some p by simp
  have g: "win_Get F s name (replicate (length v) 0) = (a, length v, v, None)"
    by (rule win_Get_exact [OF assms Some [unfolded p]]) simp
  show ?thesis
    using Some p h g by (simp add: ReadAll_def WindowsContext_def read_all_loop.simps)
qed

lemma win_getEnvVar:
  assumes "documented F view" and "CHR 0x00 \<notin> set name"
  shows "getEnvVar (WindowsContext F s) name =
    Ok (case view s name of None \<Rightarrow> [] | Some (a, v) \<Rightarrow> v)"
proof (cases "view s name")
  case None
  from win_hint [OF assms, of s] None obtain e where "win_GetSizeHint F s name = Inl e" by auto
  with None show ?thesis by (simp add: getEnvVar_def WindowsContext_def)
next
  case (Some p)
  obtain a v where p: "p = (a, v)" by fastforce
  have h: "win_GetSizeHint F s name = Inr (int (length v))"
    using win_hint [OF assms, of s] Some p by simp
  have g: "win_Get F s name (replicate (length v) 0) = (a, length v, v, None)"
    by (rule win_Get_exact [OF assms Some [unfolded p]]) simp
  show ?thesis using Some p h g by (simp add: getEnvVar_def WindowsContext_def)
qed

text \<open>A name with a zero byte is refused whatever the firmware holds.\<close>

lemma win_ReadAll_nul:
  assumes "CHR 0x00 \<in> set name"
  shows "ReadAll (WindowsContext F s) name =
    Err (''efivario/Get: utf16('' @ go_quote name @ ''): invalid argument'')"
  using assms
  by (simp add: ReadAll_def WindowsContext_def win_GetSizeHint_def win_Get_def utf16_error_def read_all_loop.simps)

section \<open>Writing\<close>

definition win_admits :: "u32 \<Rightarrow> u8 list \<Rightarrow> bool" where
  "win_admits a v \<longleftrightarrow> v \<noteq> [] \<and> length v \<le> 2048 \<and> and a AppendWrite = 0"

lemma win_Set_cases:
  assumes "documented F view" and "win_admits a v" and "win_Set F name a v s = (r, s')"
  shows "r = None \<Longrightarrow> CHR 0x00 \<notin> set name \<and> view s' = (view s)(name \<mapsto> (a, v))"
    and "r = Some e \<Longrightarrow> view s' = view s"
proof -
  have w: "write_documented F view name s" using assms(1) by (simp add: documented_def)
  obtain r1 e1 t where c: "fw_set F name v a s = ((r1, e1), t)" by (cases "fw_set F name v a s") auto
  have "view t = (if r1 = 0 then view s else (view s)(name \<mapsto> (a, v)))"
    using w assms(2) c by (force simp: write_documented_def win_admits_def)
  with assms(3) c
  show "r = None \<Longrightarrow> CHR 0x00 \<notin> set name \<and> view s' = (view s)(name \<mapsto> (a, v))"
    and "r = Some e \<Longrightarrow> view s' = view s"
    by (auto simp: win_Set_def utf16_error_def split: if_splits)
qed

text \<open>The Windows store keeps the contract of the variable store.\<close>

lemma win_ReadAll_view:
  assumes "documented F view" and "view s' n = view s n"
  shows "ReadAll (WindowsContext F s') n = ReadAll (WindowsContext F s) n"
  using assms by (cases "CHR 0x00 \<in> set n") (simp_all add: win_ReadAll_nul win_ReadAll)

lemma windows_order_store:
  assumes "documented F view"
  shows "order_store (windows_store F) win_admits"
proof (unfold_locales, goal_cases)
  case (1 m n a v m')
  then obtain s' where w: "win_Set F n a v (vars m) = (None, s')" and m': "m' = m\<lparr>vars := s'\<rparr>"
    by (auto simp: windows_store_def split: prod.splits)
  from win_Set_cases(1) [OF assms 1(2) w] 1(2) show ?case
    by (simp add: m' windows_store_def win_ReadAll [OF assms] win_admits_def)
next
  case (2 m n a v m' k)
  then obtain s' where w: "win_Set F n a v (vars m) = (None, s')" and m': "m' = m\<lparr>vars := s'\<rparr>"
    by (auto simp: windows_store_def split: prod.splits)
  from win_Set_cases(1) [OF assms 2(2) w] 2(3) have "view s' k = view (vars m) k" by simp
  from win_ReadAll_view [of F view, OF assms this] show ?case by (simp add: m' windows_store_def)
next
  case (3 m n a v e m' k)
  then obtain s' where w: "win_Set F n a v (vars m) = (Some e, s')" and m': "m' = m\<lparr>vars := s'\<rparr>"
    by (auto simp: windows_store_def split: prod.splits)
  from win_Set_cases(2) [OF assms 3(2) w] have "view s' k = view (vars m) k" by simp
  from win_ReadAll_view [of F view, OF assms this] show ?case by (simp add: m' windows_store_def)
qed

text \<open>
  C12: Under Windows, as far as its calls do what is documented: a restart order for a boot entry
  that exists either fails with the boot order and every other variable reading as before, or
  moves the last matching entry to the front of the stored order, keeps everything else, and
  runs the restart command.
\<close>
theorem windows_RestartTo:
  assumes "documented F view"
    and "BootOrder_Get (WindowsContext F (vars m)) = Ok (attr, order)"
    and "boot_descs (WindowsContext F (vars m)) order = Ok ds"
    and "last_match entry ds (Some t)"
    and "length order \<le> 1024" and "and attr AppendWrite = 0"
  shows "\<exists>s. (case fst (win_Set F ''BootOrder'' attr (concat (map put_u16 (move_to_front order t))) (vars m)) of
       Some e \<Rightarrow> RestartTo_on (windows_store F) (windows_Restart E) entry m = (Err e, m\<lparr>vars := s\<rparr>)
         \<and> (\<forall>n. ReadAll (WindowsContext F s) n = ReadAll (WindowsContext F (vars m)) n)
     | None \<Rightarrow> RestartTo_on (windows_store F) (windows_Restart E) entry m = windows_Restart E (m\<lparr>vars := s\<rparr>)
         \<and> BootOrder_Get (WindowsContext F s) = Ok (attr, move_to_front order t)
         \<and> mset (move_to_front order t) = mset order
         \<and> (\<forall>n. n \<noteq> ''BootOrder'' \<longrightarrow>
              ReadAll (WindowsContext F s) n = ReadAll (WindowsContext F (vars m)) n))"
proof -
  have t: "t < length order"
    using assms(4) boot_descs_length [OF assms(3)] by (simp add: last_match_def)
  let ?v = "concat (map put_u16 (move_to_front order t))"
  have adm: "win_admits attr ?v"
  proof -
    have "length ?v = 2 * length order" by (simp only: length_concat_put_u16 move_to_front_length [OF t])
    with t assms(5) have "0 < length ?v" and "length ?v \<le> 2048" by linarith+
    with assms(6) show ?thesis unfolding win_admits_def length_greater_0_conv by (intro conjI)
  qed
  obtain r s where w: "win_Set F ''BootOrder'' attr ?v (vars m) = (r, s)" by fastforce
  then have set: "st_Set (windows_store F) ''BootOrder'' attr ?v m = (r, m\<lparr>vars := s\<rparr>)"
    by (simp add: windows_store_def)
  have ctx: "st_ctx (windows_store F) m = WindowsContext F (vars m)" for m
    by (simp add: windows_store_def)
  show ?thesis
  proof (cases r)
    case None
    note moved = order_store.order_moved [OF windows_order_store [OF assms(1)], unfolded ctx,
        OF assms(2-4) adm set [unfolded None]]
    from w None moved(1) [where restart = "windows_Restart E"] moved(2) moved(3) move_to_front_mset [OF t]
    show ?thesis by (intro exI [of _ s]) simp
  next
    case (Some e)
    note refused = order_store.order_refused [OF windows_order_store [OF assms(1)], unfolded ctx,
        OF assms(2-4) adm set [unfolded Some]]
    from w Some refused(1) [where restart = "windows_Restart E"] refused(2)
    show ?thesis by (intro exI [of _ s]) simp
  qed
qed

section \<open>Windows and Linux read alike\<close>

text \<open>The variables of a firmware as the files efivarfs would show.\<close>

definition as_files :: "(string \<rightharpoonup> u32 \<times> u8 list) \<Rightarrow> efivarfs" where
  "as_files vs f =
     (let name = take (length f - 37) f in
      if getFileName name = f then map_option (\<lambda>(a, v). put_u32 a @ v) (vs name) else None)"

lemma as_files_getFileName: "as_files vs (getFileName name) = map_option (\<lambda>(a, v). put_u32 a @ v) (vs name)"
proof -
  have "take (length (getFileName name) - 37) (getFileName name) = name"
    by (simp add: getFileName_def global_guid_def)
  then show ?thesis by (simp add: as_files_def)
qed

lemma files_getEnvVar:
  "getEnvVar (FsContext (as_files vs)) name = Ok (case vs name of None \<Rightarrow> [] | Some (a, v) \<Rightarrow> v)"
proof (cases "vs name")
  case None
  then show ?thesis by (simp add: getEnvVar_def FsContext_def GetSizeHint_def as_files_getFileName)
next
  case (Some p)
  then show ?thesis
    by (cases p) (simp add: getEnvVar_value as_files_getFileName)
qed

lemma files_ReadAll:
  "ReadAll (FsContext (as_files vs)) name =
    (case vs name of
       None \<Rightarrow> Err ''efivario/get: variable not found''
     | Some (a, v) \<Rightarrow> if length v \<le> 2048 then Ok (a, v) else Ok (0, replicate (length v) 0))"
proof (cases "vs name")
  case None
  then have "as_files vs (getFileName name) = None" by (simp add: as_files_getFileName)
  then show ?thesis using None
    by (simp add: ReadAll_def FsContext_def GetSizeHint_def read_all_loop.simps efi_get_def
        readEfiVarFileName_def fs_get_err_def)
next
  case (Some p)
  obtain a v where p: "p = (a, v)" by fastforce
  then have f: "as_files vs (getFileName name) = Some (put_u32 a @ v)"
    using Some by (simp add: as_files_getFileName)
  show ?thesis
    using Some p ReadAll_exact [of "as_files vs" name a v] ReadAll_large [of "as_files vs" name "put_u32 a @ v"] f
    by (simp add: f32.length_put)
qed

definition same_but_text :: "'a res \<Rightarrow> 'a res \<Rightarrow> bool" where
  "same_but_text r q \<longleftrightarrow> r = q \<or> (\<exists>d e. r = Err d \<and> q = Err e)"

lemma boot_name_plain: "CHR 0x00 \<notin> set (boot_name boot)"
proof
  assume "CHR 0x00 \<in> set (boot_name boot)"
  then have "CHR 0x00 \<in> set (num_str 10 (unat boot))"
    by (auto simp: boot_name_def fmt_04d_def pad4_def split: if_splits)
  from num_str_digits [OF this] show False by (simp add: is_digit_def)
qed

lemma win_boot_desc:
  assumes "documented F view"
  shows "boot_desc (WindowsContext F s) boot = boot_desc (FsContext (as_files (view s))) boot"
  by (simp add: boot_desc_def getBootDesc_def files_getEnvVar win_getEnvVar [OF assms boot_name_plain])

lemma win_BootOrder_Get:
  assumes "documented F view" and "view s ''BootOrder'' = Some (a, concat (map put_u16 vs))" and "length vs \<le> 1024"
  shows "BootOrder_Get (WindowsContext F s) = Ok (a, vs)"
  by (rule BootOrder_Get_encoded) (use assms in \<open>simp add: win_ReadAll\<close>)

text \<open>
  C13: The service reads the same under Windows, as far as its calls do what is documented, as it
  would under Linux from files that hold the same variables: the boot order up to the text of an
  error, and the description of every boot entry.
\<close>
theorem windows_reads_as_files:
  assumes "documented F view"
  shows "same_but_text (BootOrder_Get (WindowsContext F s)) (BootOrder_Get (FsContext (as_files (view s))))
    \<and> boot_desc (WindowsContext F s) boot = boot_desc (FsContext (as_files (view s))) boot"
proof
  have "CHR 0x00 \<notin> set ''BootOrder''" by simp
  from win_ReadAll [OF assms this, of s]
  show "same_but_text (BootOrder_Get (WindowsContext F s)) (BootOrder_Get (FsContext (as_files (view s))))"
    by (cases "view s ''BootOrder''") (auto simp: BootOrder_Get_def files_ReadAll same_but_text_def)
  show "boot_desc (WindowsContext F s) boot = boot_desc (FsContext (as_files (view s))) boot"
    by (rule win_boot_desc [OF assms])
qed

section \<open>A concrete firmware\<close>

text \<open>It shows what is not empty, not too long and without the append bit, and refuses the rest.\<close>

definition held :: "(string \<rightharpoonup> u32 \<times> u8 list) \<Rightarrow> string \<rightharpoonup> u32 \<times> u8 list" where
  "held s name =
     (case s name of
        None \<Rightarrow> None
      | Some (a, v) \<Rightarrow> if v \<noteq> [] \<and> length v < 2 ^ 31 \<and> and a AppendWrite = 0 then Some (a, v) else None)"

definition sample_firmware :: "(string \<rightharpoonup> u32 \<times> u8 list) firmware" where
  "sample_firmware =
     \<lparr>fw_query = \<lambda>name s. (case held s name of
          Some (a, v) \<Rightarrow> (STATUS_BUFFER_TOO_SMALL, word_of_nat (length v)) | None \<Rightarrow> (0xC0000100, 0)),
      fw_get = \<lambda>name k s. (case held s name of
          Some (a, v) \<Rightarrow> if length v \<le> k then (word_of_nat (length v), 0, a, v)
                        else (0, ERROR_INSUFFICIENT_BUFFER, a, [])
        | None \<Rightarrow> (0, ERROR_ENVVAR_NOT_FOUND, 0, [])),
      fw_set = \<lambda>name v a s. (if length v < 2 ^ 31 then ((1, 0), s(name \<mapsto> (a, v))) else ((0, 87), s)),
      fw_text = \<lambda>e. ''error''\<rparr>"

lemma sample_documented: "documented sample_firmware held"
proof -
  have "read_documented sample_firmware held name s" for name s
    by (auto simp: read_documented_def sample_firmware_def STATUS_BUFFER_TOO_SMALL_def held_def
        split: option.splits if_splits)
  moreover have "held (s(name \<mapsto> (a, v))) = (held s)(name \<mapsto> (a, v))"
    if "v \<noteq> []" "length v < 2 ^ 31" "and a AppendWrite = 0" for s name a v
    using that by (auto simp: held_def fun_eq_iff)
  then have "write_documented sample_firmware held name s" for name s
    by (auto simp: write_documented_def sample_firmware_def)
  ultimately show ?thesis by (simp add: documented_def)
qed

definition win_demo :: "(string \<rightharpoonup> u32 \<times> u8 list) machine" where
  "win_demo = \<lparr>vars =
     [''BootOrder'' \<mapsto> (7, concat (map put_u16 [1, 2])),
      ''Boot0001'' \<mapsto> (7, demo_option [76]),
      ''Boot0002'' \<mapsto> (7, demo_option [87])], actions = []\<rparr>"

lemma put_u16_nonempty: "put_u16 v \<noteq> []"
  using f16.length_put [of v] by auto

lemma win_demo_held:
  "held (vars win_demo) ''BootOrder'' = Some (7, concat (map put_u16 [1, 2]))"
  "held (vars win_demo) ''Boot0001'' = Some (7, demo_option [76])"
  "held (vars win_demo) ''Boot0002'' = Some (7, demo_option [87])"
  by (simp_all add: win_demo_def held_def demo_option_def AppendWrite_def f32.length_put f16.length_put
      put_u16_nonempty)

lemma win_demo_order: "BootOrder_Get (WindowsContext sample_firmware (vars win_demo)) = Ok (7, [1, 2])"
proof (rule win_BootOrder_Get)
  show "documented sample_firmware held" by (rule sample_documented)
  show "held (vars win_demo) ''BootOrder'' = Some (7, concat (map put_u16 [1, 2]))" by (rule win_demo_held(1))
qed simp

lemma win_demo_descs:
  "boot_descs (WindowsContext sample_firmware (vars win_demo)) [1, 2] = Ok [''L'', ''W'']"
proof -
  have same: "boot_desc (WindowsContext sample_firmware (vars win_demo)) b = boot_desc (FsContext demo_vars) b"
    if "b = 1 \<or> b = 2" for b
    unfolding win_boot_desc [OF sample_documented]
    by (rule boot_desc_cong) (use that in \<open>auto simp: as_files_getFileName demo_name win_demo_held demo_vars_def\<close>)
  show ?thesis using demo_descs by (simp add: same)
qed

theorem windows_RestartTo_witness:
  "\<exists>s. RestartTo_on (windows_store sample_firmware) (windows_Restart demo_env) ''W'' win_demo
        = windows_Restart demo_env (win_demo\<lparr>vars := s\<rparr>)
     \<and> BootOrder_Get (WindowsContext sample_firmware s) = Ok (7, move_to_front [1, 2] 1)"
proof -
  have "fst (win_Set sample_firmware ''BootOrder'' 7 (concat (map put_u16 (move_to_front [1, 2] 1))) (vars win_demo)) = None"
    by (simp add: win_Set_def utf16_error_def sample_firmware_def move_to_front_def f16.length_put)
  moreover have "and 7 AppendWrite = 0" by (simp add: AppendWrite_def)
  ultimately show ?thesis
    using windows_RestartTo [OF sample_documented win_demo_order win_demo_descs demo_targets(1), of demo_env]
    by auto
qed

theorem windows_reads_as_files_witness:
  "boot_desc (WindowsContext sample_firmware (vars win_demo)) 2
     = boot_desc (FsContext (as_files (held (vars win_demo)))) 2"
  using windows_reads_as_files [OF sample_documented, of "vars win_demo" 2] by blast

end
