(* ===== verification/Efi_Guard.thy ===== *)
theory Efi_Guard
  imports Efi_Vars
begin

text \<open>
  How the vendored \<open>efivario\<close> package writes and removes a variable file under Linux:
  \<open>safeguard_linux.go\<close> and the two functions of \<open>fscontext.go\<close> that use it.  The kernel marks
  most variable files immutable; the guard keeps a second descriptor of the file, clears
  the mark for the time of the write and sets it again by a deferred call.  The state has the
  inode flags beside the contents.  The answers of the kernel and the firmware are arguments.
\<close>

section \<open>Files with inode flags\<close>

record guarded_fs =
  gf_files :: efivarfs
  gf_flags :: "string \<Rightarrow> u32"

datatype ioctl_err = ENOTTY | IoctlErr goerr

datatype sync_err = SyncInvalid | SyncErr goerr

text \<open>
  \<open>ge_open\<close>: opening an existing file for reading.  \<open>ge_os_file\<close>: whether the file system hands
  out files of the operating system.  \<open>ge_open_write\<close> sees the inode flags of the file, if it
  exists, and whether it is opened for appending; \<open>ge_new_flags\<close> are the flags of a file it
  creates.  \<open>ge_write\<close> is the refusal of the firmware, \<open>ge_stored\<close> what the file holds after an
  accepted write, from what it held and the written bytes.
\<close>

record guard_env =
  ge_open :: "string \<Rightarrow> goerr option"
  ge_os_file :: bool
  ge_getflags :: "string \<Rightarrow> ioctl_err option"
  ge_setflags :: "string \<Rightarrow> u32 \<Rightarrow> ioctl_err option"
  ge_guard_close :: "string \<Rightarrow> goerr option"
  ge_open_write :: "string \<Rightarrow> u32 option \<Rightarrow> bool \<Rightarrow> goerr option"
  ge_new_flags :: "string \<Rightarrow> u32"
  ge_write :: "string \<Rightarrow> u8 list \<Rightarrow> goerr option"
  ge_stored :: "u8 list \<Rightarrow> u8 list \<Rightarrow> u8 list"
  ge_sync :: "string \<Rightarrow> sync_err option"
  ge_close :: "string \<Rightarrow> goerr option"
  ge_remove :: "string \<Rightarrow> u32 \<Rightarrow> goerr option"

text \<open>\<open>multierr.Append\<close> as far as the text of the error goes.\<close>

fun err_append :: "goerr option \<Rightarrow> goerr option \<Rightarrow> goerr option" where
  "err_append None e = e"
| "err_append e None = e"
| "err_append (Some e1) (Some e2) = Some (e1 @ ''; '' @ e2)"

lemma err_append_None [simp]: "err_append e None = e"
  by (cases e) auto

lemma err_append_eq_None [simp]: "err_append e e' = None \<longleftrightarrow> e = None \<and> e' = None"
  by (cases e; cases e') auto

text \<open>\<open>fmt.Errorf("...: %w", err)\<close> around an error that may be nil.\<close>

definition errorf_w :: "string \<Rightarrow> goerr option \<Rightarrow> goerr option" where
  "errorf_w ctx e = map_option (\<lambda>e. ctx @ e) e"

lemma errorf_w_simps [simp]:
  "errorf_w ctx None = None" "errorf_w ctx (Some m) = Some (ctx @ m)" "errorf_w ctx e = None \<longleftrightarrow> e = None"
  by (auto simp: errorf_w_def)

section \<open>The guard\<close>

definition FS_IMMUTABLE_FL :: u32 where
  "FS_IMMUTABLE_FL = 0x10"

definition flags_IsSet :: "u32 \<Rightarrow> u32 \<Rightarrow> bool" where
  "flags_IsSet a attrs = (and a attrs \<noteq> 0)"

definition flags_Clear :: "u32 \<Rightarrow> u32 \<Rightarrow> u32" where
  "flags_Clear a attrs = and a (not attrs)"

definition flags_Set :: "u32 \<Rightarrow> u32 \<Rightarrow> u32" where
  "flags_Set a attrs = or a attrs"

text \<open>
  \<open>withInnerFileDescriptor\<close>: an ioctl the file system does not implement counts as done.  The
  descriptor is open, so the access to it does not fail.
\<close>

definition inner_error :: "ioctl_err option \<Rightarrow> goerr option" where
  "inner_error r = (case r of Some (IoctlErr e) \<Rightarrow> Some e | _ \<Rightarrow> None)"

text \<open>
  \<open>openSafeguard\<close>: no guard for a file that does not exist, nor for a file system without inode
  flags.  Otherwise the guard is the flags that were read, zero when they cannot be had.
\<close>

definition openSafeguard :: "guard_env \<Rightarrow> string \<Rightarrow> guarded_fs \<Rightarrow> goerr + u32 option" where
  "openSafeguard E fpath s =
     (if gf_files s fpath = None then Inr None
      else case ge_open E fpath of
        Some e \<Rightarrow> Inl e
      | None \<Rightarrow>
          (if \<not> ge_os_file E
           then (case ge_close E fpath of Some e \<Rightarrow> Inl e | None \<Rightarrow> Inr None)
           else case ge_getflags E fpath of
             None \<Rightarrow> Inr (Some (gf_flags s fpath))
           | Some ENOTTY \<Rightarrow> Inr (Some 0)
           | Some (IoctlErr e) \<Rightarrow> Inl e))"

definition setFlags :: "guard_env \<Rightarrow> string \<Rightarrow> u32 \<Rightarrow> guarded_fs \<Rightarrow> goerr option \<times> guarded_fs" where
  "setFlags E fpath fl s =
     (let r = ge_setflags E fpath fl in
      (inner_error r, if r = None then s\<lparr>gf_flags := (gf_flags s)(fpath := fl)\<rparr> else s))"

text \<open>\<open>disable\<close> gives whether the file was protected, its error, and the flags the guard then has.\<close>

definition safeguard_disable ::
  "guard_env \<Rightarrow> string \<Rightarrow> u32 option \<Rightarrow> guarded_fs \<Rightarrow> (bool \<times> goerr option \<times> u32 option) \<times> guarded_fs" where
  "safeguard_disable E fpath g s =
     (case g of
        None \<Rightarrow> ((False, None, None), s)
      | Some fl \<Rightarrow>
          (if \<not> flags_IsSet fl FS_IMMUTABLE_FL then ((False, None, g), s)
           else (let fl' = flags_Clear fl FS_IMMUTABLE_FL; (e, s') = setFlags E fpath fl' s
                 in ((True, e, Some fl'), s'))))"

definition safeguard_enable ::
  "guard_env \<Rightarrow> string \<Rightarrow> u32 \<Rightarrow> guarded_fs \<Rightarrow> goerr option \<times> guarded_fs" where
  "safeguard_enable E fpath fl s = setFlags E fpath (flags_Set fl FS_IMMUTABLE_FL) s"

definition safeguard_close :: "guard_env \<Rightarrow> string \<Rightarrow> u32 option \<Rightarrow> goerr option" where
  "safeguard_close E fpath g =
     (case g of None \<Rightarrow> None | Some fl \<Rightarrow> errorf_w ''guard close: '' (ge_guard_close E fpath))"

section \<open>Writing\<close>

text \<open>
  Opening for writing creates the file where there is none.  The deferred close is appended
  to the result; an unimplemented sync is ignored.
\<close>

definition open_for_write :: "guard_env \<Rightarrow> string \<Rightarrow> bool \<Rightarrow> guarded_fs \<Rightarrow> goerr option \<times> guarded_fs" where
  "open_for_write E fpath app s =
     (case gf_files s fpath of
        Some b \<Rightarrow> (ge_open_write E fpath (Some (gf_flags s fpath)) app, s)
      | None \<Rightarrow>
          (case ge_open_write E fpath None app of
             Some e \<Rightarrow> (Some e, s)
           | None \<Rightarrow> (None, s\<lparr>gf_files := (gf_files s)(fpath \<mapsto> []),
                              gf_flags := (gf_flags s)(fpath := ge_new_flags E fpath)\<rparr>)))"

definition write_and_sync :: "guard_env \<Rightarrow> string \<Rightarrow> u8 list \<Rightarrow> guarded_fs \<Rightarrow> goerr option \<times> guarded_fs" where
  "write_and_sync E fpath buf s =
     (case ge_write E fpath buf of
        Some e \<Rightarrow> (Some e, s)
      | None \<Rightarrow>
          (let old = (case gf_files s fpath of None \<Rightarrow> [] | Some b \<Rightarrow> b);
               s' = s\<lparr>gf_files := (gf_files s)(fpath \<mapsto> ge_stored E old buf)\<rparr>
           in case ge_sync E fpath of
                Some (SyncErr e) \<Rightarrow> (Some e, s')
              | _ \<Rightarrow> (None, s')))"

definition write_file ::
  "guard_env \<Rightarrow> string \<Rightarrow> u8 list \<Rightarrow> bool \<Rightarrow> guarded_fs \<Rightarrow> goerr option \<times> guarded_fs" where
  "write_file E fpath buf app s =
     (let (e, s1) = open_for_write E fpath app s in
      case e of
        Some e \<Rightarrow> (Some e, s1)
      | None \<Rightarrow> (let (r, s2) = write_and_sync E fpath buf s1 in (err_append r (ge_close E fpath), s2)))"

text \<open>
  \<open>writeEfiVarFileName\<close>: the deferred calls run in reverse order, the mark is set again before
  the guard is closed.
\<close>

definition writeEfiVarFileName ::
  "guard_env \<Rightarrow> string \<Rightarrow> u8 list \<Rightarrow> u32 \<Rightarrow> guarded_fs \<Rightarrow> goerr option \<times> guarded_fs" where
  "writeEfiVarFileName E fpath val attrs s =
     (let buf = put_u32 attrs @ val in
      case openSafeguard E fpath s of
        Inl e \<Rightarrow> (Some (''guard open: '' @ e), s)
      | Inr g \<Rightarrow>
          (let ((was, derr, g'), s1) = safeguard_disable E fpath g s in
           case derr of
             Some e \<Rightarrow> (err_append (Some (''disable protection: '' @ e)) (safeguard_close E fpath g'), s1)
           | None \<Rightarrow>
               (let (r, s2) = write_file E fpath buf (and attrs AppendWrite \<noteq> 0) s1;
                    (r', s3) = (case g' of
                       Some fl \<Rightarrow>
                         (if was
                          then (let (e, t) = safeguard_enable E fpath fl s2
                                in (err_append r (errorf_w ''enable protection: '' e), t))
                          else (r, s2))
                     | None \<Rightarrow> (r, s2))
                in (err_append r' (safeguard_close E fpath g'), s3))))"

definition FsContext_Set ::
  "guard_env \<Rightarrow> string \<Rightarrow> u32 \<Rightarrow> u8 list \<Rightarrow> guarded_fs \<Rightarrow> goerr option \<times> guarded_fs" where
  "FsContext_Set E name attrs val s =
     (let (r, s') = writeEfiVarFileName E (getFileName name) val attrs s
      in (errorf_w ''efivario/set: '' r, s'))"

section \<open>Removing\<close>

text \<open>
  \<open>deleteEfiFile\<close>: the result is not named, so the error of the deferred close goes to a local
  variable nobody reads, and no call sets the mark again.
\<close>

definition deleteEfiFile :: "guard_env \<Rightarrow> string \<Rightarrow> guarded_fs \<Rightarrow> goerr option \<times> guarded_fs" where
  "deleteEfiFile E fpath s =
     (case openSafeguard E fpath s of
        Inl e \<Rightarrow> (Some (''guard open: '' @ e), s)
      | Inr g \<Rightarrow>
          (let ((was, derr, g'), s1) = safeguard_disable E fpath g s in
           case derr of
             Some e \<Rightarrow> (Some (''guard disable: '' @ e), s1)
           | None \<Rightarrow>
               (if gf_files s1 fpath = None then (Some (''remove: '' @ efi_msg ErrNotFound), s1)
                else case ge_remove E fpath (gf_flags s1 fpath) of
                  Some e \<Rightarrow> (Some (''remove: '' @ e), s1)
                | None \<Rightarrow> (None, s1\<lparr>gf_files := (gf_files s1)(fpath := None)\<rparr>))))"

definition FsContext_Delete :: "guard_env \<Rightarrow> string \<Rightarrow> guarded_fs \<Rightarrow> goerr option \<times> guarded_fs" where
  "FsContext_Delete E name s =
     (let (r, s') = deleteEfiFile E (getFileName name) s in (errorf_w ''efivario/delete: '' r, s'))"

section \<open>The mark\<close>

lemma FS_IMMUTABLE_FL_exp: "FS_IMMUTABLE_FL = 2 ^ 4"
  by (simp add: FS_IMMUTABLE_FL_def)

lemma FS_IMMUTABLE_FL_bit: "bit FS_IMMUTABLE_FL n \<longleftrightarrow> n = 4"
  unfolding FS_IMMUTABLE_FL_exp bit_exp_iff by auto

lemma flags_IsSet_bit: "flags_IsSet fl FS_IMMUTABLE_FL \<longleftrightarrow> bit fl 4"
  by (simp only: flags_IsSet_def FS_IMMUTABLE_FL_exp and_exp_eq_0_iff_not_bit not_not)

lemma flags_Clear_Set:
  assumes "flags_IsSet fl FS_IMMUTABLE_FL"
  shows "flags_Set (flags_Clear fl FS_IMMUTABLE_FL) FS_IMMUTABLE_FL = fl"
  using assms
  by (intro bit_eqI)
     (auto simp: flags_Set_def flags_Clear_def flags_IsSet_bit bit_or_iff bit_and_iff bit_not_iff
        FS_IMMUTABLE_FL_bit)

lemma flags_Clear_unset: "\<not> flags_IsSet (flags_Clear fl FS_IMMUTABLE_FL) FS_IMMUTABLE_FL"
  by (simp add: flags_IsSet_bit flags_Clear_def bit_and_iff bit_not_iff FS_IMMUTABLE_FL_bit)


section \<open>A write and the mark\<close>

lemma write_file_flags:
  assumes "gf_files s fpath \<noteq> None"
  shows "gf_flags (snd (write_file E fpath buf app s)) = gf_flags s"
  using assms
  by (auto simp: write_file_def open_for_write_def write_and_sync_def Let_def
      split: option.splits prod.splits sync_err.splits)

lemma write_file_files:
  assumes "gf_files s fpath = Some old"
  shows "gf_files (snd (write_file E fpath buf app s))
    \<in> {gf_files s, (gf_files s)(fpath \<mapsto> ge_stored E old buf)}"
  using assms
  by (auto simp: write_file_def open_for_write_def write_and_sync_def Let_def
      split: option.splits prod.splits sync_err.splits)

lemma setFlags_files [simp]: "gf_files (snd (setFlags E fpath fl s)) = gf_files s"
  by (simp add: setFlags_def Let_def)

lemma setFlags_done:
  "ge_setflags E fpath fl = None \<Longrightarrow> setFlags E fpath fl s = (None, s\<lparr>gf_flags := (gf_flags s)(fpath := fl)\<rparr>)"
  by (simp add: setFlags_def inner_error_def)

lemma setFlags_not_done:
  "ge_setflags E fpath fl = Some r \<Longrightarrow> setFlags E fpath fl s = (inner_error (Some r), s)"
  by (simp add: setFlags_def)

text \<open>What the guard is, for an existing file: its flags, or nothing that has to be cleared.\<close>

lemma openSafeguard_cases:
  assumes "openSafeguard E fpath s = Inr g"
  obtains "g = None" | "g = Some 0" | "g = Some (gf_flags s fpath)"
  using assms by (auto simp: openSafeguard_def split: option.splits ioctl_err.splits if_splits)

lemma safeguard_disable_unprotected:
  assumes "g = None \<or> (\<exists>fl. g = Some fl \<and> \<not> flags_IsSet fl FS_IMMUTABLE_FL)"
  shows "safeguard_disable E fpath g s = ((False, None, g), s)"
  using assms by (auto simp: safeguard_disable_def)

lemma zero_unprotected [simp]: "\<not> flags_IsSet 0 FS_IMMUTABLE_FL"
  by (simp add: flags_IsSet_def)

text \<open>The two ways of a write, without and with the mark.\<close>

lemma write_unprotected:
  assumes "openSafeguard E fpath s = Inr g"
    and "g = None \<or> (\<exists>fl. g = Some fl \<and> \<not> flags_IsSet fl FS_IMMUTABLE_FL)"
  shows "writeEfiVarFileName E fpath val attrs s =
    (let (r, s2) = write_file E fpath (put_u32 attrs @ val) (and attrs AppendWrite \<noteq> 0) s
     in (err_append r (safeguard_close E fpath g), s2))"
  using assms(1) safeguard_disable_unprotected [OF assms(2)]
  by (cases "write_file E fpath (put_u32 attrs @ val) (and attrs AppendWrite \<noteq> 0) s"; cases g)
     (simp_all add: writeEfiVarFileName_def)

lemma write_protected:
  assumes "openSafeguard E fpath s = Inr (Some fl)" and "flags_IsSet fl FS_IMMUTABLE_FL"
    and "setFlags E fpath (flags_Clear fl FS_IMMUTABLE_FL) s = (None, s1)"
    and "write_file E fpath (put_u32 attrs @ val) (and attrs AppendWrite \<noteq> 0) s1 = (r, s2)"
    and "setFlags E fpath fl s2 = (e, s3)"
  shows "writeEfiVarFileName E fpath val attrs s =
    (err_append (err_append r (errorf_w ''enable protection: '' e))
       (safeguard_close E fpath (Some (flags_Clear fl FS_IMMUTABLE_FL))), s3)"
  using assms
  by (simp add: writeEfiVarFileName_def safeguard_disable_def safeguard_enable_def flags_Clear_Set)

lemma write_not_cleared:
  assumes "openSafeguard E fpath s = Inr (Some fl)" and "flags_IsSet fl FS_IMMUTABLE_FL"
    and "setFlags E fpath (flags_Clear fl FS_IMMUTABLE_FL) s = (Some e, s1)"
  shows "fst (writeEfiVarFileName E fpath val attrs s) \<noteq> None
    \<and> snd (writeEfiVarFileName E fpath val attrs s) = s1"
  using assms by (simp add: writeEfiVarFileName_def safeguard_disable_def)

lemma setFlags_error:
  assumes "setFlags E fpath fl s = (Some e, s1)"
  shows "s1 = s"
  using assms by (auto simp: setFlags_def Let_def inner_error_def split: if_splits)

lemma setFlags_flags:
  assumes "setFlags E fpath fl s = (e, s1)"
  shows "gf_flags s1 = gf_flags s \<or> gf_flags s1 = (gf_flags s)(fpath := fl)"
  using assms by (auto simp: setFlags_def Let_def split: if_splits)

lemma write_file_success:
  assumes "gf_files s fpath = Some old" and "write_file E fpath buf app s = (None, s2)"
  shows "gf_files s2 = (gf_files s)(fpath \<mapsto> ge_stored E old buf)"
  using assms
  by (auto simp: write_file_def open_for_write_def write_and_sync_def Let_def
      split: option.splits prod.splits sync_err.splits)

text \<open>
  What a write of an existing variable leaves: the marks as they were, unless setting the mark
  again failed, which is reported except where the file system knows no marks; and the contents
  as they were or as written.
\<close>

definition mark_kept :: "guard_env \<Rightarrow> string \<Rightarrow> bool \<Rightarrow> guarded_fs \<Rightarrow> guarded_fs \<Rightarrow> bool" where
  "mark_kept E fpath failed s s' \<longleftrightarrow>
     gf_flags s' = gf_flags s
     \<or> gf_flags s' = (gf_flags s)(fpath := flags_Clear (gf_flags s fpath) FS_IMMUTABLE_FL)
       \<and> (case ge_setflags E fpath (gf_flags s fpath) of
            None \<Rightarrow> False | Some ENOTTY \<Rightarrow> True | Some (IoctlErr e) \<Rightarrow> failed)"

definition contents_written ::
  "guard_env \<Rightarrow> string \<Rightarrow> u8 list \<Rightarrow> u8 list \<Rightarrow> bool \<Rightarrow> guarded_fs \<Rightarrow> guarded_fs \<Rightarrow> bool" where
  "contents_written E fpath old buf failed s s' \<longleftrightarrow>
     gf_files s' = (gf_files s)(fpath \<mapsto> ge_stored E old buf)
     \<or> failed \<and> gf_files s' = gf_files s"

lemma write_protected_outcome:
  assumes "gf_files s fpath = Some old"
    and "openSafeguard E fpath s = Inr (Some (gf_flags s fpath))"
    and "flags_IsSet (gf_flags s fpath) FS_IMMUTABLE_FL"
    and w: "writeEfiVarFileName E fpath val attrs s = (r, s')"
  shows "mark_kept E fpath (r \<noteq> None) s s' \<and> contents_written E fpath old (put_u32 attrs @ val) (r \<noteq> None) s s'"
proof (cases "setFlags E fpath (flags_Clear (gf_flags s fpath) FS_IMMUTABLE_FL) s")
  case (Pair d s1)
  show ?thesis
  proof (cases d)
    case (Some e)
    have "r \<noteq> None \<and> s' = s1"
      using write_not_cleared [OF assms(2,3) Pair [unfolded Some], of val attrs] w by simp
    with setFlags_error [OF Pair [unfolded Some]]
    show ?thesis by (simp add: mark_kept_def contents_written_def)
  next
    case None
    let ?buf = "put_u32 attrs @ val" and ?app = "and attrs AppendWrite \<noteq> 0"
    obtain q s2 where q: "write_file E fpath ?buf ?app s1 = (q, s2)" by fastforce
    obtain e s3 where e: "setFlags E fpath (gf_flags s fpath) s2 = (e, s3)" by fastforce
    from write_protected [OF assms(2,3) Pair [unfolded None] q e] w
    have r: "r = err_append (err_append q (errorf_w ''enable protection: '' e))
        (safeguard_close E fpath (Some (flags_Clear (gf_flags s fpath) FS_IMMUTABLE_FL)))"
      and s3: "s' = s3" by auto
    have f1: "gf_files s1 = gf_files s" using setFlags_files [of E fpath _ s] Pair by (metis snd_conv)
    have f3: "gf_files s3 = gf_files s2" using setFlags_files [of E fpath _ s2] e by (metis snd_conv)
    have l2: "gf_flags s2 = gf_flags s1"
      using write_file_flags [of s1 fpath E ?buf ?app] assms(1) f1 q by simp
    have "contents_written E fpath old ?buf (r \<noteq> None) s s'"
      using write_file_files [of s1 fpath old E ?buf ?app] write_file_success [of s1 fpath old E ?buf ?app s2]
        assms(1) f1 f3 q s3 r by (cases q) (auto simp: contents_written_def)
    moreover have "mark_kept E fpath (r \<noteq> None) s s'"
    proof (cases "ge_setflags E fpath (gf_flags s fpath)")
      case None
      with e have "gf_flags s3 = (gf_flags s2)(fpath := gf_flags s fpath)"
        by (auto simp: setFlags_done)
      with setFlags_flags [OF Pair] l2 s3 show ?thesis by (auto simp: mark_kept_def)
    next
      case (Some x)
      with e have "s3 = s2" and "e = inner_error (Some x)" by (auto simp: setFlags_not_done)
      with setFlags_flags [OF Pair] l2 s3 r Some show ?thesis
        by (cases x) (auto simp: mark_kept_def inner_error_def)
    qed
    ultimately show ?thesis by blast
  qed
qed


lemma write_unprotected_outcome:
  assumes "gf_files s fpath = Some old"
    and "openSafeguard E fpath s = Inr g"
    and "g = None \<or> (\<exists>fl. g = Some fl \<and> \<not> flags_IsSet fl FS_IMMUTABLE_FL)"
    and w: "writeEfiVarFileName E fpath val attrs s = (r, s')"
  shows "mark_kept E fpath (r \<noteq> None) s s' \<and> contents_written E fpath old (put_u32 attrs @ val) (r \<noteq> None) s s'"
proof -
  let ?buf = "put_u32 attrs @ val" and ?app = "and attrs AppendWrite \<noteq> 0"
  obtain q s2 where q: "write_file E fpath ?buf ?app s = (q, s2)" by fastforce
  from write_unprotected [OF assms(2,3), of val attrs] w q
  have r: "r = err_append q (safeguard_close E fpath g)" and s2: "s' = s2" by simp_all
  have "gf_flags s2 = gf_flags s" using write_file_flags [of s fpath E ?buf ?app] assms(1) q by simp
  moreover have "contents_written E fpath old ?buf (r \<noteq> None) s s'"
    using write_file_files [OF assms(1), of E ?buf ?app] write_file_success [OF assms(1), of E ?buf ?app s2]
      q r s2 by (cases q) (auto simp: contents_written_def)
  ultimately show ?thesis using s2 by (simp add: mark_kept_def)
qed

lemma write_outcome:
  assumes "gf_files s fpath = Some old"
    and w: "writeEfiVarFileName E fpath val attrs s = (r, s')"
  shows "mark_kept E fpath (r \<noteq> None) s s' \<and> contents_written E fpath old (put_u32 attrs @ val) (r \<noteq> None) s s'"
proof (cases "openSafeguard E fpath s")
  case (Inl e)
  with w have "r \<noteq> None \<and> s' = s" by (auto simp: writeEfiVarFileName_def)
  then show ?thesis by (simp add: mark_kept_def contents_written_def)
next
  case (Inr g)
  show ?thesis
  proof (cases "g = Some (gf_flags s fpath) \<and> flags_IsSet (gf_flags s fpath) FS_IMMUTABLE_FL")
    case True
    with Inr show ?thesis by (intro write_protected_outcome [OF assms(1) _ _ w]) auto
  next
    case False
    have "g = None \<or> (\<exists>fl. g = Some fl \<and> \<not> flags_IsSet fl FS_IMMUTABLE_FL)"
      by (rule openSafeguard_cases [OF Inr]) (use False in simp_all)
    then show ?thesis by (rule write_unprotected_outcome [OF assms(1) Inr _ w])
  qed
qed

text \<open>
  C14: Writing an existing variable under Linux, whatever the kernel answers: the immutable
  mark of the file is afterwards as it was, unless the call that sets it again failed, and then
  an error is reported except where the file system knows no marks; every other file keeps its
  mark; the file holds what was written or, with an error reported, what it held; no other file
  changes.
\<close>
theorem Set_keeps_mark:
  assumes "gf_files s (getFileName name) = Some old"
    and "FsContext_Set E name attrs val s = (r, s')"
  shows "mark_kept E (getFileName name) (r \<noteq> None) s s'
    \<and> contents_written E (getFileName name) old (put_u32 attrs @ val) (r \<noteq> None) s s'"
proof -
  obtain q where q: "writeEfiVarFileName E (getFileName name) val attrs s = (q, s')"
    and r: "r = errorf_w ''efivario/set: '' q"
    using assms(2) by (auto simp: FsContext_Set_def split: prod.splits)
  from write_outcome [OF assms(1) q] show ?thesis
    by (simp add: r)
qed

section \<open>A calm kernel\<close>

text \<open>
  What the kernel promises where nothing is out of order: the calls on the guard succeed, an
  unmarked file can be opened for writing, a sync succeeds or is not implemented, and a write
  without the append attribute replaces the contents.
\<close>

definition calm_guard :: "guard_env \<Rightarrow> bool" where
  "calm_guard E \<longleftrightarrow>
     ge_os_file E
     \<and> (\<forall>f. ge_open E f = None \<and> ge_getflags E f = None \<and> ge_guard_close E f = None \<and> ge_close E f = None)
     \<and> (\<forall>f fl. ge_setflags E f fl = None)
     \<and> (\<forall>f fl app. \<not> flags_IsSet fl FS_IMMUTABLE_FL \<longrightarrow> ge_open_write E f (Some fl) app = None)
     \<and> (\<forall>f e. ge_sync E f \<noteq> Some (SyncErr e))
     \<and> (\<forall>old a v. and a AppendWrite = 0 \<longrightarrow> ge_stored E old (put_u32 a @ v) = put_u32 a @ v)"

lemma calm_openSafeguard:
  "calm_guard E \<Longrightarrow> gf_files s fpath = Some old \<Longrightarrow> openSafeguard E fpath s = Inr (Some (gf_flags s fpath))"
  by (simp add: openSafeguard_def calm_guard_def)

lemma calm_setFlags:
  "calm_guard E \<Longrightarrow> setFlags E fpath fl s = (None, s\<lparr>gf_flags := (gf_flags s)(fpath := fl)\<rparr>)"
  by (rule setFlags_done) (simp add: calm_guard_def)

lemma calm_disable:
  "calm_guard E \<Longrightarrow> flags_IsSet fl FS_IMMUTABLE_FL \<Longrightarrow>
     safeguard_disable E fpath (Some fl) s =
       ((True, None, Some (flags_Clear fl FS_IMMUTABLE_FL)),
        s\<lparr>gf_flags := (gf_flags s)(fpath := flags_Clear fl FS_IMMUTABLE_FL)\<rparr>)"
  by (simp add: safeguard_disable_def calm_setFlags Let_def)

lemma calm_close: "calm_guard E \<Longrightarrow> safeguard_close E fpath g = None"
  by (simp add: safeguard_close_def calm_guard_def split: option.split)

lemma calm_write_file:
  assumes "calm_guard E" and "gf_files s fpath = Some old" and "and attrs AppendWrite = 0"
    and "\<not> flags_IsSet (gf_flags s fpath) FS_IMMUTABLE_FL"
  shows "write_file E fpath (put_u32 attrs @ val) app s =
    (case ge_write E fpath (put_u32 attrs @ val) of
       Some e \<Rightarrow> (Some e, s)
     | None \<Rightarrow> (None, s\<lparr>gf_files := (gf_files s)(fpath \<mapsto> put_u32 attrs @ val)\<rparr>))"
  using assms
  by (auto simp: calm_guard_def write_file_def open_for_write_def write_and_sync_def Let_def
      split: option.splits sync_err.splits)

lemma calm_write:
  assumes "calm_guard E" and "gf_files s fpath = Some old" and "and attrs AppendWrite = 0"
  shows "writeEfiVarFileName E fpath val attrs s =
    (case ge_write E fpath (put_u32 attrs @ val) of
       Some e \<Rightarrow> (Some e, s)
     | None \<Rightarrow> (None, s\<lparr>gf_files := (gf_files s)(fpath \<mapsto> put_u32 attrs @ val)\<rparr>))"
proof -
  let ?fl = "gf_flags s fpath"
  note g = calm_openSafeguard [OF assms(1,2)]
  note c = calm_close [OF assms(1)] and set_ok = calm_setFlags [OF assms(1)]
  show ?thesis
  proof (cases "flags_IsSet ?fl FS_IMMUTABLE_FL")
    case False
    with g c show ?thesis
      by (simp add: write_unprotected calm_write_file [OF assms] split: option.split)
  next
    case True
    let ?s1 = "s\<lparr>gf_flags := (gf_flags s)(fpath := flags_Clear ?fl FS_IMMUTABLE_FL)\<rparr>"
    note wf = calm_write_file [of E ?s1 fpath old attrs val]
    show ?thesis
    proof (cases "ge_write E fpath (put_u32 attrs @ val)")
      case (Some e)
      have "write_file E fpath (put_u32 attrs @ val) app ?s1 = (Some e, ?s1)" for app
        using wf [of app] assms Some by (simp add: flags_Clear_unset)
      from write_protected [OF g True set_ok this set_ok] Some c show ?thesis by simp
    next
      case None
      have "write_file E fpath (put_u32 attrs @ val) app ?s1
          = (None, ?s1\<lparr>gf_files := (gf_files s)(fpath \<mapsto> put_u32 attrs @ val)\<rparr>)" for app
        using wf [of app] assms None by (simp add: flags_Clear_unset)
      from write_protected [OF g True set_ok this set_ok] None c show ?thesis by simp
    qed
  qed
qed

text \<open>
  C15: Where the kernel is calm, writing an existing variable through the guard is the plain
  write of the variable model, with the refusals of the firmware, and no mark changes.
\<close>
theorem guarded_Set_refines:
  assumes "calm_guard E" and "gf_files s (getFileName name) \<noteq> None" and "and attrs AppendWrite = 0"
    and "FsContext_Set E name attrs val s = (r, s')"
  shows "efi_set (ge_write E) (gf_files s) name attrs val = (r, gf_files s') \<and> gf_flags s' = gf_flags s"
  using assms calm_write [OF assms(1) _ assms(3), of s "getFileName name" _ val]
  by (auto simp: FsContext_Set_def efi_set_def Let_def split: option.splits)


section \<open>Deleting and the mark\<close>

text \<open>
  A removal that fails leaves a marked variable unmarked, which a write never does; the removal
  of an unmarked or absent variable changes nothing else.
\<close>

lemma Delete_failed_unmarks:
  assumes "calm_guard E" and "gf_files s (getFileName name) = Some old"
    and "flags_IsSet (gf_flags s (getFileName name)) FS_IMMUTABLE_FL"
    and "ge_remove E (getFileName name) (flags_Clear (gf_flags s (getFileName name)) FS_IMMUTABLE_FL) = Some e"
  shows "FsContext_Delete E name s =
    (Some (''efivario/delete: remove: '' @ e),
     s\<lparr>gf_flags := (gf_flags s)(getFileName name :=
       flags_Clear (gf_flags s (getFileName name)) FS_IMMUTABLE_FL)\<rparr>)"
  using assms calm_openSafeguard [OF assms(1,2)] calm_disable [OF assms(1,3)]
  by (simp add: FsContext_Delete_def deleteEfiFile_def)

lemma Delete_removes:
  assumes "calm_guard E" and "gf_files s (getFileName name) = Some old"
    and "\<And>fl. \<not> flags_IsSet fl FS_IMMUTABLE_FL \<Longrightarrow> ge_remove E (getFileName name) fl = None"
  shows "fst (FsContext_Delete E name s) = None
    \<and> gf_files (snd (FsContext_Delete E name s)) = (gf_files s)(getFileName name := None)"
proof (cases "flags_IsSet (gf_flags s (getFileName name)) FS_IMMUTABLE_FL")
  case True
  with assms calm_openSafeguard [OF assms(1,2)] calm_disable [OF assms(1) True] show ?thesis
    by (simp add: FsContext_Delete_def deleteEfiFile_def flags_Clear_unset)
next
  case False
  with assms calm_openSafeguard [OF assms(1,2)] show ?thesis
    by (simp add: FsContext_Delete_def deleteEfiFile_def safeguard_disable_def)
qed

lemma Delete_absent:
  assumes "gf_files s (getFileName name) = None"
  shows "FsContext_Delete E name s = (Some ''efivario/delete: remove: variable not found'', s)"
  using assms by (simp add: FsContext_Delete_def deleteEfiFile_def openSafeguard_def safeguard_disable_def)

text \<open>The error of closing the guard is lost by the removal.\<close>

lemma Delete_close_lost:
  "FsContext_Delete (E\<lparr>ge_guard_close := c\<rparr>) name s = FsContext_Delete E name s"
proof -
  have o: "openSafeguard (E\<lparr>ge_guard_close := c\<rparr>) = openSafeguard E"
    by (intro ext) (simp add: openSafeguard_def cong: option.case_cong ioctl_err.case_cong)
  have f: "setFlags (E\<lparr>ge_guard_close := c\<rparr>) = setFlags E"
    by (intro ext) (simp add: setFlags_def)
  have r: "ge_remove (E\<lparr>ge_guard_close := c\<rparr>) = ge_remove E" by simp
  show ?thesis
    unfolding FsContext_Delete_def deleteEfiFile_def safeguard_disable_def o f r ..
qed

section \<open>A concrete kernel\<close>

text \<open>It refuses to open marked files for writing and to remove them.\<close>

definition strict_kernel :: guard_env where
  "strict_kernel = \<lparr>ge_open = \<lambda>_. None, ge_os_file = True, ge_getflags = \<lambda>_. None,
     ge_setflags = \<lambda>_ _. None, ge_guard_close = \<lambda>_. None,
     ge_open_write = \<lambda>_ fl _. (case fl of
       Some f \<Rightarrow> if flags_IsSet f FS_IMMUTABLE_FL then Some ''operation not permitted'' else None
     | None \<Rightarrow> None),
     ge_new_flags = \<lambda>_. FS_IMMUTABLE_FL, ge_write = \<lambda>_ _. None, ge_stored = \<lambda>_ b. b,
     ge_sync = \<lambda>_. Some SyncInvalid, ge_close = \<lambda>_. None,
     ge_remove = \<lambda>_ f. if flags_IsSet f FS_IMMUTABLE_FL then Some ''operation not permitted'' else None\<rparr>"

lemma calm_strict_kernel: "calm_guard strict_kernel"
  by (simp add: calm_guard_def strict_kernel_def)

definition marked_fs :: guarded_fs where
  "marked_fs = \<lparr>gf_files = [getFileName ''BootOrder'' \<mapsto> put_u32 7 @ [1, 0]],
     gf_flags = \<lambda>_. FS_IMMUTABLE_FL\<rparr>"

lemma marked_fs_file: "gf_files marked_fs (getFileName ''BootOrder'') = Some (put_u32 7 @ [1, 0])"
  by (simp add: marked_fs_def)

theorem Set_keeps_mark_witness:
  "let (r, s') = FsContext_Set strict_kernel ''BootOrder'' 7 [2, 0] marked_fs
   in mark_kept strict_kernel (getFileName ''BootOrder'') (r \<noteq> None) marked_fs s'"
  using Set_keeps_mark [OF marked_fs_file surjective_pairing, of strict_kernel 7 "[2, 0]"]
  by (simp add: case_prod_beta)

lemma append_7: "and 7 AppendWrite = 0"
  by (simp add: AppendWrite_def)

theorem guarded_Set_refines_witness:
  "gf_flags (snd (FsContext_Set strict_kernel ''BootOrder'' 7 [2, 0] marked_fs)) = gf_flags marked_fs
   \<and> snd (efi_set (\<lambda>_ _. None) (gf_files marked_fs) ''BootOrder'' 7 [2, 0])
     = gf_files (snd (FsContext_Set strict_kernel ''BootOrder'' 7 [2, 0] marked_fs))"
  using guarded_Set_refines [OF calm_strict_kernel _ append_7 surjective_pairing, of marked_fs "''BootOrder''" "[2, 0]"]
  by (simp add: marked_fs_file strict_kernel_def)

end
