(* ===== verification/Pid_File.thy ===== *)
theory Pid_File
  imports Daemon_Correct Go_Fmt
begin

text \<open>
  How the Linux daemon is started, found and kept single: \<open>main\<close> of \<open>main_linux.go\<close> over the
  vendored \<open>go-daemon\<close> (\<open>daemon_unix.go\<close>, \<open>lock_file.go\<close>, \<open>lock_file_unix.go\<close>).  A start opens the
  pid file, locks it, and starts a child that inherits the locked descriptor and writes its
  pid; \<open>hvl-loader -s\<close> reads the pid back.  Any number of starts run at once.  The file system
  keeps inodes beside the name, because a lock belongs to the inode and the removal to the name.
\<close>

section \<open>The context\<close>

record daemon_context =
  dc_PidFileName :: string
  dc_PidFilePerm :: nat
  dc_LogFileName :: string
  dc_LogFilePerm :: nat
  dc_WorkDir :: string
  dc_Umask :: nat
  dc_Args :: "string list"

definition cntxt :: daemon_context where
  "cntxt = \<lparr>dc_PidFileName = ''/var/run/hvlloader.pid'', dc_PidFilePerm = 420,
     dc_LogFileName = ''/var/log/hvlloader.log'', dc_LogFilePerm = 416,
     dc_WorkDir = ''./'', dc_Umask = 23, dc_Args = [''[hvl-loader]'']\<rparr>"

section \<open>The pid file\<close>

text \<open>\<open>ReadPid\<close> on a text of digits, which is all \<open>WritePid\<close> leaves; \<open>None\<close> is an error.\<close>

definition ReadPid :: "string \<Rightarrow> nat option" where
  "ReadPid s = (let ds = takeWhile is_digit s in if ds = [] then None else Some (num_val 10 ds))"

text \<open>\<open>WritePid\<close> lays the digits over the old text, then cuts the file to their length.\<close>

definition pid_written :: "nat \<Rightarrow> string \<Rightarrow> string" where
  "pid_written pid old = num_str 10 pid @ drop (length (num_str 10 pid)) old"

definition pid_cut :: "nat \<Rightarrow> string \<Rightarrow> string" where
  "pid_cut pid txt = take (length (num_str 10 pid)) txt"

text \<open>
  Where a start is: before the open, with the file open, locked, started as a child, with the
  pid written, serving signals, in \<open>Remove\<close> with the lock given up, or gone.
\<close>

datatype start_at =
    Opening
  | Opened nat
  | Locked nat
  | Born nat
  | Cutting nat
  | Serving nat daemon
  | Unlinking nat
  | Gone

record pid_state =
  pf_link :: "nat option"
  pf_inodes :: nat
  pf_text :: "nat \<Rightarrow> string"
  pf_flock :: "nat \<Rightarrow> nat option"
  pf_at :: "nat \<Rightarrow> start_at"

text \<open>The inode a start has locked, its process or the child holding the descriptor.\<close>

fun lock_of :: "start_at \<Rightarrow> nat option" where
  "lock_of (Locked n) = Some n"
| "lock_of (Born n) = Some n"
| "lock_of (Cutting n) = Some n"
| "lock_of (Serving n d) = Some n"
| "lock_of a = None"

fun unlock :: "nat option \<Rightarrow> pid_state \<Rightarrow> pid_state" where
  "unlock None s = s"
| "unlock (Some n) s = s\<lparr>pf_flock := (pf_flock s)(n := None)\<rparr>"

definition move :: "nat \<Rightarrow> start_at \<Rightarrow> pid_state \<Rightarrow> pid_state" where
  "move i a s = s\<lparr>pf_at := (pf_at s)(i := a)\<rparr>"

text \<open>\<open>OpenLockFile\<close>: the inode the name leads to, or a new one.\<close>

definition OpenLockFile :: "pid_state \<Rightarrow> nat \<times> pid_state" where
  "OpenLockFile s =
     (case pf_link s of
        Some n \<Rightarrow> (n, s)
      | None \<Rightarrow>
          (let n = pf_inodes s in
           (n, s\<lparr>pf_link := Some n, pf_inodes := n + 1, pf_text := (pf_text s)(n := []),
                 pf_flock := (pf_flock s)(n := None)\<rparr>)))"

text \<open>
  One step of one start.  \<open>faulty\<close> says whether starting the process, or the set-up of the
  child behind \<open>WritePid\<close>, may fail, the two places where the code removes the file again; the
  pid of the child of start \<open>i\<close> is \<open>pid i\<close>.  Failures between the lock and the start of the
  process close the file only, and a process may be killed anywhere.
\<close>

inductive pstep :: "(nat \<Rightarrow> nat) \<Rightarrow> bool \<Rightarrow> pid_state \<Rightarrow> pid_state \<Rightarrow> bool" for pid faulty where
  opens: "pf_at s i = Opening \<Longrightarrow> OpenLockFile s = (n, s') \<Longrightarrow> pstep pid faulty s (move i (Opened n) s')"
| locks: "pf_at s i = Opened n \<Longrightarrow> pf_flock s n = None
    \<Longrightarrow> pstep pid faulty s (move i (Locked n) (s\<lparr>pf_flock := (pf_flock s)(n := Some i)\<rparr>))"
| refused: "pf_at s i = Opened n \<Longrightarrow> pf_flock s n \<noteq> None \<Longrightarrow> pstep pid faulty s (move i Gone s)"
| born: "pf_at s i = Locked n \<Longrightarrow> pstep pid faulty s (move i (Born n) s)"
| no_process: "faulty \<Longrightarrow> pf_at s i = Locked n \<Longrightarrow> pstep pid faulty s (move i (Unlinking n) (unlock (Some n) s))"
| writes: "pf_at s i = Born n
    \<Longrightarrow> pstep pid faulty s (move i (Cutting n) (s\<lparr>pf_text := (pf_text s)(n := pid_written (pid i) (pf_text s n))\<rparr>))"
| cuts: "pf_at s i = Cutting n
    \<Longrightarrow> pstep pid faulty s (move i (Serving n daemon_init) (s\<lparr>pf_text := (pf_text s)(n := pid_cut (pid i) (pf_text s n))\<rparr>))"
| no_setup: "faulty \<Longrightarrow> pf_at s i = Cutting n \<Longrightarrow> pstep pid faulty s (move i (Unlinking n) (unlock (Some n) s))"
| serves: "pf_at s i = Serving n d \<Longrightarrow> dstep d d' \<Longrightarrow> pstep pid faulty s (move i (Serving n d') s)"
| releases: "pf_at s i = Serving n d \<Longrightarrow> dm_main d = Terminated
    \<Longrightarrow> pstep pid faulty s (move i (Unlinking n) (unlock (Some n) s))"
| unlinks: "pf_at s i = Unlinking n \<Longrightarrow> pstep pid faulty s (move i Gone (s\<lparr>pf_link := None\<rparr>))"
| dies: "pf_at s i \<noteq> Gone \<Longrightarrow> pstep pid faulty s (move i Gone (unlock (lock_of (pf_at s i)) s))"

inductive_cases pstep_cases: "pstep pid faulty s t"

text \<open>
  At first nobody holds a lock; the file may be there from an earlier daemon, with any text.
\<close>

definition pid_start :: "string option \<Rightarrow> pid_state" where
  "pid_start old =
     \<lparr>pf_link = map_option (\<lambda>_. 0) old, pf_inodes = 1,
      pf_text = (\<lambda>_. case old of None \<Rightarrow> [] | Some t \<Rightarrow> t), pf_flock = (\<lambda>_. None), pf_at = (\<lambda>_. Opening)\<rparr>"

section \<open>Finding the daemon\<close>

text \<open>
  \<open>search\<close>: the process whose pid is in the file, if it is alive; the test signal that fails
  leaves neither a process nor an error.
\<close>

definition context_search :: "daemon_context \<Rightarrow> (nat \<Rightarrow> bool) \<Rightarrow> pid_state \<Rightarrow> goerr + nat option" where
  "context_search c alive s =
     (if dc_PidFileName c = [] then Inr None
      else case pf_link s of
        None \<Rightarrow> Inl ''no such file or directory''
      | Some n \<Rightarrow>
          (case ReadPid (pf_text s n) of
             None \<Rightarrow> Inl ''unexpected EOF''
           | Some p \<Rightarrow> Inr (if alive p then Some p else None)))"

section \<open>One daemon\<close>

lemma move_sel [simp]:
  "pf_at (move i a s) = (pf_at s)(i := a)" "pf_link (move i a s) = pf_link s"
  "pf_text (move i a s) = pf_text s" "pf_flock (move i a s) = pf_flock s"
  "pf_inodes (move i a s) = pf_inodes s"
  by (simp_all add: move_def)

lemma unlock_sel [simp]:
  "pf_at (unlock h s) = pf_at s" "pf_link (unlock h s) = pf_link s" "pf_text (unlock h s) = pf_text s"
  "pf_inodes (unlock h s) = pf_inodes s"
  "pf_flock (unlock h s) = (case h of None \<Rightarrow> pf_flock s | Some n \<Rightarrow> (pf_flock s)(n := None))"
  by (cases h; simp)+

fun refers :: "start_at \<Rightarrow> nat option" where
  "refers (Opened n) = Some n"
| "refers a = lock_of a"

lemma lock_of_refers: "lock_of a = Some n \<Longrightarrow> refers a = Some n"
  by (cases a) auto

text \<open>What a start knows of the file it has locked.\<close>

fun at_knows :: "nat \<Rightarrow> string \<Rightarrow> start_at \<Rightarrow> bool" where
  "at_knows p txt (Cutting n) = (take (length (num_str 10 p)) txt = num_str 10 p)"
| "at_knows p txt (Serving n d) = (txt = num_str 10 p \<and> dreach daemon_init d)"
| "at_knows p txt (Unlinking n) = False"
| "at_knows p txt a = True"

definition pid_inv :: "(nat \<Rightarrow> nat) \<Rightarrow> pid_state \<Rightarrow> bool" where
  "pid_inv pid s \<longleftrightarrow>
     (\<forall>i n. lock_of (pf_at s i) = Some n \<longrightarrow> pf_flock s n = Some i)
     \<and> (\<forall>i n. refers (pf_at s i) = Some n \<longrightarrow> pf_link s = Some n)
     \<and> (\<forall>i. at_knows (pid i) (case refers (pf_at s i) of None \<Rightarrow> [] | Some n \<Rightarrow> pf_text s n) (pf_at s i))"

lemma pid_invD:
  assumes "pid_inv pid s"
  shows "lock_of (pf_at s i) = Some n \<Longrightarrow> pf_flock s n = Some i"
    and "refers (pf_at s i) = Some n \<Longrightarrow> pf_link s = Some n"
    and "at_knows (pid i) (case refers (pf_at s i) of None \<Rightarrow> [] | Some n \<Rightarrow> pf_text s n) (pf_at s i)"
  using assms by (auto simp: pid_inv_def)

lemma pid_inv_start: "pid_inv pid (pid_start old)"
  by (simp add: pid_inv_def pid_start_def)

text \<open>Two starts that hold a lock hold the same one, so they are one.\<close>

lemma pid_inv_single:
  assumes "pid_inv pid s" and "lock_of (pf_at s i) = Some n" and "lock_of (pf_at s j) = Some m"
  shows "i = j"
proof -
  from assms lock_of_refers have "pf_link s = Some n" "pf_link s = Some m"
    by (auto dest: pid_invD(2))
  then have "m = n" by simp
  with pid_invD(1) [OF assms(1,2)] pid_invD(1) [OF assms(1,3)] show ?thesis by simp
qed

text \<open>
  A step that moves start \<open>i\<close> and changes the locks, the link and the texts keeps the invariant
  if it keeps what the others know and \<open>i\<close> knows what it should.
\<close>

lemma pid_inv_move:
  assumes inv: "pid_inv pid s" and at: "pf_at s' = (pf_at s)(i := a)"
    and link: "\<And>j n. refers (pf_at s j) = Some n \<Longrightarrow> pf_link s' = pf_link s"
    and others: "\<And>j n. j \<noteq> i \<Longrightarrow> lock_of (pf_at s j) = Some n \<Longrightarrow> pf_flock s' n = pf_flock s n \<and> pf_text s' n = pf_text s n"
    and own: "\<And>n. lock_of a = Some n \<Longrightarrow> pf_flock s' n = Some i"
    and ref: "\<And>n. refers a = Some n \<Longrightarrow> pf_link s' = Some n"
    and knows: "at_knows (pid i) (case refers a of None \<Rightarrow> [] | Some n \<Rightarrow> pf_text s' n) a"
  shows "pid_inv pid s'"
  unfolding pid_inv_def
proof (intro conjI allI impI)
  fix j n assume h: "lock_of (pf_at s' j) = Some n"
  show "pf_flock s' n = Some j"
  proof (cases "j = i")
    case True
    with h at own show ?thesis by simp
  next
    case False
    with h at have "lock_of (pf_at s j) = Some n" by simp
    with others [OF False this] pid_invD(1) [OF inv this] show ?thesis by simp
  qed
next
  fix j n assume r: "refers (pf_at s' j) = Some n"
  show "pf_link s' = Some n"
  proof (cases "j = i")
    case True
    with r at ref show ?thesis by simp
  next
    case False
    with r at have "refers (pf_at s j) = Some n" by simp
    with link [OF this] pid_invD(2) [OF inv this] show ?thesis by simp
  qed
next
  fix j
  show "at_knows (pid j) (case refers (pf_at s' j) of None \<Rightarrow> [] | Some n \<Rightarrow> pf_text s' n) (pf_at s' j)"
  proof (cases "j = i")
    case True
    with at knows show ?thesis by simp
  next
    case False
    with at pid_invD(3) [OF inv, of j] others [OF False]
    show ?thesis by (cases "pf_at s j") auto
  qed
qed

lemma pid_inv_step:
  assumes "pstep pid False s t" and inv: "pid_inv pid s"
  shows "pid_inv pid t"
  using assms(1)
proof (cases rule: pstep.cases)
  case (opens i n s')
  show ?thesis
  proof (cases "pf_link s")
    case None
    have "refers (pf_at s j) = None" for j
      using pid_invD(2) [OF inv, of j] None by (cases "refers (pf_at s j)") auto
    moreover from this lock_of_refers have "lock_of (pf_at s j) = None" for j
      by (metis not_None_eq)
    ultimately show ?thesis using opens None
      by (intro pid_inv_move [OF inv, of t i "Opened n"]) (auto simp: OpenLockFile_def Let_def)
  next
    case (Some k)
    with opens show ?thesis
      by (intro pid_inv_move [OF inv, of t i "Opened n"]) (auto simp: OpenLockFile_def)
  qed
next
  case (locks i n)
  then show ?thesis
    using pid_invD(1) [OF inv] pid_invD(2) [OF inv, of i n]
    by (intro pid_inv_move [OF inv, of t i "Locked n"]) auto
next
  case (refused i n)
  then show ?thesis by (intro pid_inv_move [OF inv, of t i Gone]) auto
next
  case (born i n)
  then show ?thesis
    using pid_invD(1) [OF inv, of i n] pid_invD(2) [OF inv, of i n]
    by (intro pid_inv_move [OF inv, of t i "Born n"]) auto
next
  case (writes i n)
  then show ?thesis
    using pid_invD(1) [OF inv, of i n] pid_invD(2) [OF inv, of i n] pid_inv_single [OF inv, of i n]
    by (intro pid_inv_move [OF inv, of t i "Cutting n"]) (auto simp: pid_written_def)
next
  case (cuts i n)
  then show ?thesis
    using pid_invD(1) [OF inv, of i n] pid_invD(2) [OF inv, of i n] pid_invD(3) [OF inv, of i]
      pid_inv_single [OF inv, of i n]
    by (intro pid_inv_move [OF inv, of t i "Serving n daemon_init"]) (auto simp: pid_cut_def)
next
  case (serves i n d d')
  then show ?thesis
    using pid_invD(1) [OF inv, of i n] pid_invD(2) [OF inv, of i n] pid_invD(3) [OF inv, of i]
    by (intro pid_inv_move [OF inv, of t i "Serving n d'"]) (auto intro: rtranclp.rtrancl_into_rtrancl)
next
  case (releases i n d)
  then have "dreach daemon_init d" using pid_invD(3) [OF inv, of i] by simp
  from daemon_never_terminates [OF this] releases show ?thesis by simp
next
  case (unlinks i n)
  then show ?thesis using pid_invD(3) [OF inv, of i] by simp
next
  case (dies i)
  then show ?thesis
    using pid_invD(1) [OF inv] pid_inv_single [OF inv]
    by (intro pid_inv_move [OF inv, of t i Gone]) (fastforce split: option.splits)+
qed simp_all

lemma pid_inv_reach: "(pstep pid False)\<^sup>*\<^sup>* (pid_start old) s \<Longrightarrow> pid_inv pid s"
  by (induction rule: rtranclp_induct) (auto intro: pid_inv_start pid_inv_step)

lemma takeWhile_digits: "takeWhile is_digit (num_str 10 n) = num_str 10 n"
  by (simp add: takeWhile_eq_all_conv num_str_digits)

lemma ReadPid_num_str: "ReadPid (num_str 10 n) = Some n"
  by (simp add: ReadPid_def takeWhile_digits Let_def num_val_num_str)

text \<open>
  C32: As long as no process start and no set-up of a child fails: however many times the
  program is started, and whichever of the processes are killed, at most one start is past the
  lock at any time, and while a daemon serves, whoever asks for the running daemon finds it, if
  it is alive.  The removal of the pid file at the end of \<open>main\<close> is never reached.
\<close>
theorem single_daemon:
  assumes "(pstep pid False)\<^sup>*\<^sup>* (pid_start old) s"
  shows "(lock_of (pf_at s i) \<noteq> None \<and> lock_of (pf_at s j) \<noteq> None \<longrightarrow> i = j)
    \<and> (pf_at s i = Serving n d \<longrightarrow>
         context_search cntxt alive s = Inr (if alive (pid i) then Some (pid i) else None))
    \<and> pf_at s i \<noteq> Unlinking n"
proof (intro conjI impI)
  note inv = pid_inv_reach [OF assms]
  show "i = j" if "lock_of (pf_at s i) \<noteq> None \<and> lock_of (pf_at s j) \<noteq> None"
    using that pid_inv_single [OF inv] by blast
  show "pf_at s i \<noteq> Unlinking n" using pid_invD(3) [OF inv, of i] by auto
  assume "pf_at s i = Serving n d"
  with pid_invD(2) [OF inv, of i n] pid_invD(3) [OF inv, of i]
  show "context_search cntxt alive s = Inr (if alive (pid i) then Some (pid i) else None)"
    by (simp add: context_search_def cntxt_def ReadPid_num_str)
qed

section \<open>Runs\<close>

lemma pid_cut_written [simp]: "pid_cut p (pid_written p old) = num_str 10 p"
  by (simp add: pid_cut_def pid_written_def)

text \<open>From an open, unlocked file a start comes to serve.\<close>

lemma runs_to_serving:
  assumes "pf_at s i = Opened n" and "pf_flock s n = None"
  shows "(pstep pid faulty)\<^sup>*\<^sup>* s (move i (Serving n daemon_init)
     (s\<lparr>pf_flock := (pf_flock s)(n := Some i), pf_text := (pf_text s)(n := num_str 10 (pid i))\<rparr>))"
proof -
  let ?l = "move i (Locked n) (s\<lparr>pf_flock := (pf_flock s)(n := Some i)\<rparr>)"
  let ?b = "move i (Born n) ?l"
  let ?w = "move i (Cutting n) (?b\<lparr>pf_text := (pf_text ?b)(n := pid_written (pid i) (pf_text ?b n))\<rparr>)"
  let ?c = "move i (Serving n daemon_init) (?w\<lparr>pf_text := (pf_text ?w)(n := pid_cut (pid i) (pf_text ?w n))\<rparr>)"
  have "pstep pid faulty s ?l" using assms by (rule pstep.locks)
  moreover have "pstep pid faulty ?l ?b" by (rule pstep.born) simp
  moreover have "pstep pid faulty ?b ?w" by (rule pstep.writes) simp
  moreover have "pstep pid faulty ?w ?c" by (rule pstep.cuts) simp
  ultimately have run: "(pstep pid faulty)\<^sup>*\<^sup>* s ?c"
    by (meson converse_rtranclp_into_rtranclp r_into_rtranclp)
  have eq: "?c = move i (Serving n daemon_init)
     (s\<lparr>pf_flock := (pf_flock s)(n := Some i), pf_text := (pf_text s)(n := num_str 10 (pid i))\<rparr>)"
    by (simp add: move_def)
  show ?thesis using run unfolding eq .
qed

lemma opens_linked:
  assumes "pf_at s i = Opening" and "pf_link s = Some n"
  shows "pstep pid faulty s (move i (Opened n) s)"
  using assms by (intro pstep.opens) (simp_all add: OpenLockFile_def)

lemma opens_new:
  assumes "pf_at s i = Opening" and "pf_link s = None"
  shows "pstep pid faulty s (move i (Opened (pf_inodes s))
     (s\<lparr>pf_link := Some (pf_inodes s), pf_inodes := pf_inodes s + 1, pf_text := (pf_text s)(pf_inodes s := []),
        pf_flock := (pf_flock s)(pf_inodes s := None)\<rparr>))"
  using assms by (intro pstep.opens) (simp_all add: OpenLockFile_def Let_def)

lemma daemon_comes_up:
  "\<exists>s. (pstep pid faulty)\<^sup>*\<^sup>* (pid_start (Some old)) s \<and> pf_at s 0 = Serving 0 daemon_init"
proof -
  let ?o = "move 0 (Opened 0) (pid_start (Some old))"
  have "pstep pid faulty (pid_start (Some old)) ?o" by (rule opens_linked) (simp_all add: pid_start_def)
  moreover have "pf_flock ?o 0 = None" by (simp add: pid_start_def)
  then have "(pstep pid faulty)\<^sup>*\<^sup>* ?o (move 0 (Serving 0 daemon_init)
      (?o\<lparr>pf_flock := (pf_flock ?o)(0 := Some 0), pf_text := (pf_text ?o)(0 := num_str 10 (pid 0))\<rparr>))"
    by (intro runs_to_serving) simp_all
  ultimately show ?thesis by (intro exI conjI) (erule converse_rtranclp_into_rtranclp, assumption, simp)
qed

theorem single_daemon_witness:
  "\<exists>s. pf_at s 0 = Serving 0 daemon_init \<and> context_search cntxt (\<lambda>p. p = 70) s = Inr (Some 70)"
proof -
  obtain s where s: "(pstep (\<lambda>i. i + 70) False)\<^sup>*\<^sup>* (pid_start (Some ''12345'')) s" "pf_at s 0 = Serving 0 daemon_init"
    using daemon_comes_up by blast
  with single_daemon [OF s(1), of 0 0 0 daemon_init "\<lambda>p. p = 70"] show ?thesis by auto
qed

text \<open>
  Where starting a process can fail there may be two daemons: a start that lost its process gives
  up the lock before it removes the file, another one that has the file open locks it between,
  and after the removal a third finds no file and makes a new one.
\<close>

lemma two_daemons:
  "\<exists>s. (pstep pid True)\<^sup>*\<^sup>* (pid_start (Some old)) s
     \<and> pf_at s 1 = Serving 0 daemon_init \<and> pf_at s 2 = Serving 1 daemon_init"
proof -
  let ?R = "pstep pid True"
  define a where "a = move 0 (Opened 0) (pid_start (Some old))"
  define b where "b = move 1 (Opened 0) a"
  define c where "c = move 0 (Locked 0) (b\<lparr>pf_flock := (pf_flock b)(0 := Some 0)\<rparr>)"
  define d where "d = move 0 (Unlinking 0) (unlock (Some 0) c)"
  define e where "e = move 1 (Serving 0 daemon_init)
    (d\<lparr>pf_flock := (pf_flock d)(0 := Some 1), pf_text := (pf_text d)(0 := num_str 10 (pid 1))\<rparr>)"
  define f where "f = move 0 Gone (e\<lparr>pf_link := None\<rparr>)"
  define g where "g = move 2 (Opened (pf_inodes f))
    (f\<lparr>pf_link := Some (pf_inodes f), pf_inodes := pf_inodes f + 1, pf_text := (pf_text f)(pf_inodes f := []),
       pf_flock := (pf_flock f)(pf_inodes f := None)\<rparr>)"
  define h where "h = move 2 (Serving 1 daemon_init)
    (g\<lparr>pf_flock := (pf_flock g)(1 := Some 2), pf_text := (pf_text g)(1 := num_str 10 (pid 2))\<rparr>)"
  note defs = a_def b_def c_def d_def e_def f_def g_def h_def pid_start_def
  have "?R (pid_start (Some old)) a" unfolding a_def by (rule opens_linked) (simp_all add: pid_start_def)
  moreover have "?R a b" unfolding b_def by (rule opens_linked) (simp_all add: defs)
  moreover have "?R b c" unfolding c_def by (rule pstep.locks) (simp_all add: defs)
  moreover have "?R c d" unfolding d_def by (rule pstep.no_process) (simp_all add: defs)
  moreover have "?R\<^sup>*\<^sup>* d e" unfolding e_def by (rule runs_to_serving) (simp_all add: defs)
  moreover have "?R e f" unfolding f_def by (rule pstep.unlinks [where n = 0]) (simp add: defs)
  moreover have "?R f g" unfolding g_def by (rule opens_new) (simp_all add: defs)
  moreover have "?R\<^sup>*\<^sup>* g h" unfolding h_def by (rule runs_to_serving) (simp_all add: defs)
  ultimately have "?R\<^sup>*\<^sup>* (pid_start (Some old)) h"
    by (meson r_into_rtranclp rtranclp_trans)
  moreover have "pf_at h 1 = Serving 0 daemon_init" "pf_at h 2 = Serving 1 daemon_init"
    by (simp_all add: defs)
  ultimately show ?thesis by blast
qed

text \<open>
  The command line and a daemon that died without a trace but its pid file: the search finds no
  process and no error, and \<open>-s stop\<close> crashes.
\<close>

lemma stop_after_death:
  assumes "context_search cntxt alive s = Inr None"
  shows "main_linux ''stop'' (context_search cntxt alive s) deliver reborn = Crash NilDeref"
  using assms by (simp add: main_linux_def active_signals_def commands_def)

lemma dead_daemon_found:
  assumes "(pstep pid False)\<^sup>*\<^sup>* (pid_start old) s" and "pf_at s i = Serving n d" and "\<not> alive (pid i)"
  shows "context_search cntxt alive (move i Gone (unlock (Some n) s)) = Inr None"
proof -
  note inv = pid_inv_reach [OF assms(1)]
  from pid_invD(2) [OF inv, of i n] pid_invD(3) [OF inv, of i] assms(2,3) show ?thesis
    by (simp add: context_search_def cntxt_def ReadPid_num_str)
qed

end
