(* ===== verification/Disk_Makers.thy ===== *)
theory Disk_Makers
  imports Disk_Format_Correct
begin

text \<open>
  What a successful \<open>FormatDisks\<close> has run: the file-system makers, one for each requested
  partition that exists on the committed table of its disk, in the order of the request.
  The listings of block devices and partitions are taken as steady while the file systems are
  made; laying out, which creates and deletes partitions, changes them as it may.
\<close>

section \<open>The makers of a request\<close>

definition maker_of :: "string option \<Rightarrow> string \<Rightarrow> int \<Rightarrow> PartitionInfo \<Rightarrow> string list list" where
  "maker_of T dev n part =
     (if pi_type part = ''ntfs'' then [Mkntfs_cmd (GetDevByPartNum T dev n) (pi_label part)]
      else if pi_type part = ''fat32'' then [Mkvfat_cmd (GetDevByPartNum T dev n) (pi_label part)]
      else [])"

fun makers :: "'d ped \<Rightarrow> string option \<Rightarrow> string \<Rightarrow> 'd \<Rightarrow> int \<Rightarrow> PartitionInfo list \<Rightarrow> string list list" where
  "makers P T dev d n [] = []"
| "makers P T dev d n (part # parts) =
     (if GetPartition P d n = None then [] else maker_of T dev n part) @ makers P T dev d (n + 1) parts"

definition disk_makers ::
  "'d ped \<Rightarrow> (string \<times> string) list option \<Rightarrow> string option \<Rightarrow> DiskLayout \<times> 'd \<Rightarrow> string list list" where
  "disk_makers P B T = (\<lambda>(disk, d).
     makers P T (GetDiskDevByLocation B (dl_location disk)) d 1 (dl_partitions disk))"

text \<open>
  The tables the formatting half read, one for each disk of the request, in worlds with the
  fact \<open>G\<close>; and worlds with this fact have the block devices \<open>B\<close> and the partition list \<open>T\<close>.
\<close>

definition tables_read ::
  "('d, 'w) system \<Rightarrow> ('w \<Rightarrow> bool) \<Rightarrow> (string \<times> string) list option \<Rightarrow> DiskLayout list \<Rightarrow> 'd list \<Rightarrow> bool" where
  "tables_read S G B disks ds =
     list_all2 (\<lambda>disk d. \<exists>w. G w \<and> s_disk S w (GetDiskDevByLocation B (dl_location disk)) = Some d) disks ds"

definition steady ::
  "('d, 'w) system \<Rightarrow> ('w \<Rightarrow> bool) \<Rightarrow> (string \<times> string) list option \<Rightarrow> string option \<Rightarrow> bool" where
  "steady S G B T \<longleftrightarrow> (\<forall>w. G w \<longrightarrow> s_block S w = B \<and> s_table S w = T)"

section \<open>What is run\<close>

lemma run_cmd_Ok: "run_cmd S c f = (Ok (), f') \<Longrightarrow> fm_ran f' = fm_ran f @ [c]"
  by (auto simp: run_cmd_def split: prod.splits)

lemma format_part_keeps:
  "keeps S G \<Longrightarrow> G (fm_world f) \<Longrightarrow> G (fm_world (snd (format_part P S dev d i part f)))"
  by (simp add: keeps_def format_part_def run_cmd_def send_def Let_def case_prod_unfold split: option.split)

lemma format_disk_keeps:
  assumes "keeps S G" and "G (fm_world f)"
  shows "G (fm_world (snd (format_disk P S disk f)))"
  using format_runs [of disk "[disk]" S G P f] assms by (simp add: runs_only_def)

lemma format_part_runs:
  assumes "format_part P S dev d i part f = (Ok (), f')" and "steady S G B T" and "G (fm_world f)"
  shows "fm_ran f' = fm_ran f @ (if GetPartition P d (i + 1) = None then [] else maker_of T dev (i + 1) part)"
proof -
  have "s_table S (fm_world f) = T" using assms(2,3) by (simp add: steady_def)
  with assms(1) show ?thesis
    by (auto simp: format_part_def maker_of_def Let_def send_def dest!: run_cmd_Ok
        split: option.splits if_splits)
qed

lemma format_loop_runs:
  assumes "format_loop P S dev d i parts f = (Ok (), f')" and "steady S G B T" and "keeps S G" and "G (fm_world f)"
  shows "fm_ran f' = fm_ran f @ makers P T dev d (i + 1) parts"
  using assms(1,4)
proof (induction parts arbitrary: i f)
  case (Cons part parts)
  then obtain f1 where one: "format_part P S dev d i part f = (Ok (), f1)"
      and rest: "format_loop P S dev d (i + 1) parts f1 = (Ok (), f')"
    by (auto elim!: bind_io_Ok_E)
  have "G (fm_world f1)" using format_part_keeps [OF assms(3) Cons.prems(2), of P dev d i part] one by simp
  from format_part_runs [OF one assms(2) Cons.prems(2)] Cons.IH [OF rest this] show ?case
    by (simp add: algebra_simps)
qed simp

lemma Commit_runs_nothing: "fm_ran (snd (Commit S d f)) = fm_ran f"
  using commit_runs [of S "\<lambda>w. True" d "\<lambda>c. False" f] by (simp add: recommits_def runs_only_def)

lemma format_disk_runs:
  assumes "format_disk P S disk f = (Ok (), f')" and "steady S G B T" and "keeps S G" and g: "G (fm_world f)"
  obtains d where "s_disk S (fm_world f) (GetDiskDevByLocation B (dl_location disk)) = Some d"
    and "fm_ran f' = fm_ran f @ disk_makers P B T (disk, d)"
proof -
  let ?dev = "GetDiskDevByLocation B (dl_location disk)"
  have "s_block S (fm_world f) = B" using assms(2) g by (simp add: steady_def)
  with assms(1) obtain d where d: "s_disk S (fm_world f) ?dev = Some d"
      and l: "bind_io (format_loop P S ?dev d 0 (dl_partitions disk)) (\<lambda>_. Commit S d) f = (Ok (), f')"
    by (auto simp: format_disk_def Let_def split: if_splits option.splits)
  from l obtain f1 where "format_loop P S ?dev d 0 (dl_partitions disk) f = (Ok (), f1)" and "Commit S d f1 = (Ok (), f')"
    by (auto elim!: bind_io_Ok_E)
  with format_loop_runs [OF _ assms(2,3) g] Commit_runs_nothing [of S d f1]
  have "fm_ran f' = fm_ran f @ disk_makers P B T (disk, d)" by (fastforce simp: disk_makers_def)
  with d that show thesis by blast
qed

lemma format_disks_run:
  assumes "each_disk (format_disk P S) disks f = (Ok (), f')" and "steady S G B T" and "keeps S G"
    and "G (fm_world f)"
  shows "\<exists>ds. tables_read S G B disks ds
    \<and> fm_ran f' = fm_ran f @ concat (map (disk_makers P B T) (zip disks ds))"
  using assms(1,4)
proof (induction disks arbitrary: f)
  case Nil
  then show ?case by (auto simp: tables_read_def)
next
  case (Cons disk disks)
  then obtain f1 where one: "format_disk P S disk f = (Ok (), f1)"
      and rest: "each_disk (format_disk P S) disks f1 = (Ok (), f')"
    by (auto elim!: bind_io_Ok_E)
  obtain d where
      d: "s_disk S (fm_world f) (GetDiskDevByLocation B (dl_location disk)) = Some d"
        "fm_ran f1 = fm_ran f @ disk_makers P B T (disk, d)"
    by (rule format_disk_runs [OF one assms(2,3) Cons.prems(2)])
  have "G (fm_world f1)" using format_disk_keeps [OF assms(3) Cons.prems(2), of P disk] one by simp
  from Cons.IH [OF rest this] obtain ds where "tables_read S G B disks ds"
      "fm_ran f' = fm_ran f1 @ concat (map (disk_makers P B T) (zip disks ds))" by blast
  with d Cons.prems(2) show ?case by (intro exI [of _ "d # ds"]) (auto simp: tables_read_def)
qed

text \<open>
  C17: a \<open>FormatDisks\<close> that succeeds has run exactly the makers of the requested partitions
  that exist on the tables read after the layout, each with the partition's device and label,
  disk by disk in the order of the request, also for partitions the request itself created.
  What is assumed is that from the layout on, running the makers and committing the tables
  just read again leave a fact \<open>G\<close> about the world, and that worlds with it list the same
  block devices \<open>B\<close> and partitions \<open>T\<close>.
\<close>

theorem FormatDisks_formats:
  assumes "FormatDisks P S disks f = (Ok (), f')"
    and "G (fm_world (laid_out P S disks f))" and "keeps S G" and "steady S G B T"
  shows "\<exists>ds. tables_read S G B disks ds
    \<and> fm_ran f' = fm_ran f @ concat (map (disk_makers P B T) (zip disks ds))"
proof -
  from assms(1) obtain f1 where lay: "each_disk (layout_disk P S) disks f = (Ok (), f1)"
      and fmt: "each_disk (format_disk P S) disks (send ''Creating filesystems'' f1) = (Ok (), f')"
    by (auto simp: FormatDisks_def elim!: bind_io_Ok_E)
  have "G (fm_world (send ''Creating filesystems'' f1))"
    using assms(2) lay by (simp add: laid_out_def send_def)
  from layout_runs_nothing [of P S disks f] lay format_disks_run [OF fmt assms(4,3) this] show ?thesis
    by (simp add: send_def)
qed

text \<open>
  A disk without partitions, on which the request creates two.  The world is the table; the
  kernel lists the two partitions once they are there.
\<close>

definition listing :: "(int \<times> ped_part) list \<Rightarrow> string" where
  "listing w = ''major'' @ [CHR 0x0A] @ ''8 0 9 sda''
     @ (if length w = 2 then [CHR 0x0A] @ ''8 1 9 sda1'' @ [CHR 0x0A] @ ''8 2 9 sda2'' else [])"

definition makers_system :: "((int \<times> ped_part) list, (int \<times> ped_part) list) system" where
  "makers_system = \<lparr>s_block = (\<lambda>w. Some [(''sda'', ''../pci0/block/sda'')]), s_table = (\<lambda>w. Some (listing w)),
     s_device = (\<lambda>w n. True), s_disk = (\<lambda>w n. Some w), s_label_known = (\<lambda>t. True),
     s_fresh = (\<lambda>w n t. Some []), s_commit = (\<lambda>d w. (True, d)), s_commit_dev = (\<lambda>d w. (True, d)),
     s_commit_os = (\<lambda>d w. (True, d)), s_run = (\<lambda>c w. (None, w))\<rparr>"

definition makers_request :: DiskLayout where
  "makers_request = \<lparr>dl_location = ''pci0'', dl_partitionType = ''gpt'',
     dl_partitions = [want 98 ''fat32'', want 101 ''ntfs'']\<rparr>"

definition start_empty :: "(int \<times> ped_part) list fmt" where
  "start_empty = \<lparr>fm_world = [], fm_sent = [], fm_ran = []\<rparr>"

definition created_table :: "(int \<times> ped_part) list" where
  "created_table = fm_world (laid_out sample_ped makers_system [makers_request] start_empty)"

definition created_block :: "(string \<times> string) list option" where
  "created_block = Some [(''sda'', ''../pci0/block/sda'')]"

lemma created_listing: "listing created_table
    = ''major'' @ [CHR 0x0A] @ ''8 0 9 sda'' @ [CHR 0x0A] @ ''8 1 9 sda1'' @ [CHR 0x0A] @ ''8 2 9 sda2''"
  by code_simp

lemma created_devices:
  "GetDevByPartNum (Some (listing created_table)) ''/dev/sda'' 1 = ''/dev/sda1''"
  "GetDevByPartNum (Some (listing created_table)) ''/dev/sda'' 2 = ''/dev/sda2''"
  unfolding created_listing by code_simp+

lemma created_parts:
  "GetPartition sample_ped created_table 1 \<noteq> None" "GetPartition sample_ped created_table 2 \<noteq> None"
  by code_simp+

lemma makers_run: "\<exists>f'. FormatDisks sample_ped makers_system [makers_request] start_empty = (Ok (), f')"
proof -
  have "fst (FormatDisks sample_ped makers_system [makers_request] start_empty) = Ok ()" by code_simp
  then show ?thesis by (cases "FormatDisks sample_ped makers_system [makers_request] start_empty") simp
qed

lemma makers_keep: "keeps makers_system (\<lambda>w. w = created_table)"
  by (simp add: keeps_def recommits_def makers_system_def)

lemma makers_steady:
  "steady makers_system (\<lambda>w. w = created_table) created_block (Some (listing created_table))"
  by (simp add: steady_def makers_system_def created_block_def)

lemma makers_req:
  "dl_location makers_request = ''pci0''" "dl_partitions makers_request = [want 98 ''fat32'', want 101 ''ntfs'']"
  "pi_type (want n t) = t" "pi_label (want n t) = []" "fm_ran start_empty = []"
  "GetDiskDevByLocation created_block ''pci0'' = ''/dev/sda''"
  by (simp_all add: makers_request_def want_def start_empty_def created_block_def sample_device)

theorem FormatDisks_formats_witness:
  "fm_ran (snd (FormatDisks sample_ped makers_system [makers_request] start_empty))
   = [Mkvfat_cmd ''/dev/sda1'' [], Mkntfs_cmd ''/dev/sda2'' []]"
proof -
  from makers_run obtain f' where run: "FormatDisks sample_ped makers_system [makers_request] start_empty = (Ok (), f')" ..
  let ?G = "\<lambda>w. w = created_table"
  from FormatDisks_formats [OF run _ makers_keep makers_steady] obtain ds where
      ds: "tables_read makers_system ?G created_block [makers_request] ds"
        "fm_ran f' = fm_ran start_empty
          @ concat (map (disk_makers sample_ped created_block (Some (listing created_table))) (zip [makers_request] ds))"
    by (auto simp: created_table_def)
  from ds(1) have "ds = [created_table]" by (auto simp: tables_read_def list_all2_Cons1 makers_system_def)
  with created_devices created_parts ds(2) run show ?thesis
    by (auto simp: disk_makers_def makers_req maker_of_def)
qed

end
