(* ===== verification/Provisioning.thy ===== *)
theory Provisioning
  imports Disk_Makers Image_Apply_Correct
begin

text \<open>
  Installing a machine takes two requests: \<open>FormatDisks\<close> and then \<open>ApplyImage\<close>.  The handlers look
  the partition up independently; proved here is that they mean the same one, so that the
  image goes onto the file system that was just made.
\<close>

section \<open>The makers of one partition\<close>

lemma maker_in_makers:
  "k < length parts \<Longrightarrow> GetPartition P d (n + int k) \<noteq> None
   \<Longrightarrow> set (maker_of T dev (n + int k) (parts ! k)) \<subseteq> set (makers P T dev d n parts)"
proof (induction parts arbitrary: n k)
  case (Cons part parts)
  show ?case
  proof (cases k)
    case 0
    with Cons.prems show ?thesis by auto
  next
    case (Suc j)
    with Cons.IH [of j "n + 1"] Cons.prems show ?thesis by (auto simp: algebra_simps)
  qed
qed simp

text \<open>In a loop that succeeds, a disk of the request is formatted in a state that kept the fact.\<close>

lemma each_disk_formats:
  assumes "each_disk (format_disk P S) disks f = (Ok (), f')" and "disk \<in> set disks"
    and "keeps S G" and "G (fm_world f)" and "steady S G B T"
  shows "G (fm_world f') \<and> (\<exists>w d pre suf. G w \<and> s_disk S w (GetDiskDevByLocation B (dl_location disk)) = Some d
    \<and> fm_ran f' = fm_ran f @ pre @ disk_makers P B T (disk, d) @ suf)"
proof
  have "runs_only G (\<lambda>c. True) f (snd (each_disk (format_disk P S) disks f))"
    using format_disk_keeps [OF assms(3)]
  proof (intro each_runs)
    fix d f
    show "runs_only G (\<lambda>c. True) f (snd (format_disk P S d f))"
      using format_runs [of d "[d]" S G P f] assms(3) by (auto simp: runs_only_def)
  qed
  with assms(1,4) show "G (fm_world f')" by (simp add: runs_only_def)
  obtain ds where ds: "tables_read S G B disks ds"
      "fm_ran f' = fm_ran f @ concat (map (disk_makers P B T) (zip disks ds))"
    using format_disks_run [OF assms(1,5,3,4)] by blast
  from assms(2) obtain k where k: "k < length disks" "disk = disks ! k" by (auto simp: in_set_conv_nth)
  have len: "length ds = length disks" and read: "\<exists>w. G w \<and> s_disk S w (GetDiskDevByLocation B (dl_location disk)) = Some (ds ! k)"
    using ds(1) k by (auto simp: tables_read_def list_all2_conv_all_nth)
  then have "zip disks ds = take k (zip disks ds) @ (disk, ds ! k) # drop (Suc k) (zip disks ds)"
    using k id_take_nth_drop [of k "zip disks ds"] by simp
  then have "fm_ran f' = fm_ran f @ concat (map (disk_makers P B T) (take k (zip disks ds)))
      @ disk_makers P B T (disk, ds ! k) @ concat (map (disk_makers P B T) (drop (Suc k) (zip disks ds)))"
    using ds(2) by (metis append.assoc concat.simps(2) concat_append list.simps(9) map_append)
  with read show "\<exists>w d pre suf. G w \<and> s_disk S w (GetDiskDevByLocation B (dl_location disk)) = Some d
      \<and> fm_ran f' = fm_ran f @ pre @ disk_makers P B T (disk, d) @ suf" by blast
qed

section \<open>The two requests\<close>

definition provision ::
  "'d ped \<Rightarrow> ('d, 'w) system \<Rightarrow> (string \<Rightarrow> int \<times> goerr option) \<Rightarrow> DiskLayout list \<Rightarrow> ApplyImageRequest
   \<Rightarrow> ('w fmt, apply_plan) io" where
  "provision P S wim_open disks req =
     bind_io (FormatDisks P S disks) (\<lambda>_ f. (ApplyImage_plan P S wim_open (fm_world f) req, f))"

lemma wimapply_target:
  assumes "ApplyImage_plan P S wim_open w req = Ok (RunWimapply cmd)" and "steady S G B T" and "G w"
  shows "cmd = [''wimapply'', ''/nfs/'' @ ai_imagePath req, num_str 10 (unat (ai_imageIndex req)),
      GetDevByPartNum T (GetDiskDevByLocation B (ai_targetDisk req)) (uint (ai_targetPartition req))]"
  using assms
  by (auto simp: ApplyImage_plan_def ApplyImage2_plan_def steady_def Let_def split: if_splits option.splits)

text \<open>
  C18: when a disk was formatted and then an image requested for one of the partitions the
  request wanted as NTFS, also one it has just created, the program that writes the image is
  given the device on which \<open>mkntfs\<close> was run.  Assumed is that from the layout on, running the
  makers and committing the tables just read again leave a fact \<open>G\<close> about the world, that
  worlds with it list the same block devices and partitions, and that the partition is on
  the tables libparted reads in them.
\<close>

theorem provision_writes_formatted:
  assumes "provision P S wim_open disks req f = (Ok (RunWimapply cmd), f')"
    and "G (fm_world (laid_out P S disks f))" and "keeps S G" and "steady S G B T"
    and "disk \<in> set disks" and "dl_location disk = ai_targetDisk req"
    and "n < length (dl_partitions disk)" and "uint (ai_targetPartition req) = int n + 1"
    and "pi_type (dl_partitions disk ! n) = ''ntfs''"
    and "\<And>w d. G w \<Longrightarrow> s_disk S w (GetDiskDevByLocation B (dl_location disk)) = Some d
        \<Longrightarrow> GetPartition P d (int n + 1) \<noteq> None"
  shows "cmd \<noteq> [] \<and> Mkntfs_cmd (last cmd) (pi_label (dl_partitions disk ! n))
    \<in> set (drop (length (fm_ran f)) (fm_ran f'))"
proof -
  from assms(1) have fmt: "FormatDisks P S disks f = (Ok (), f')"
      and plan: "ApplyImage_plan P S wim_open (fm_world f') req = Ok (RunWimapply cmd)"
    by (auto simp: provision_def elim!: bind_io_Ok_E)
  from fmt obtain f1 where lay: "each_disk (layout_disk P S) disks f = (Ok (), f1)"
      and mk: "each_disk (format_disk P S) disks (send ''Creating filesystems'' f1) = (Ok (), f')"
    by (auto simp: FormatDisks_def elim!: bind_io_Ok_E)
  let ?dev = "GetDiskDevByLocation B (dl_location disk)"
  have "G (fm_world (send ''Creating filesystems'' f1))"
    using assms(2) lay by (simp add: laid_out_def send_def)
  from each_disk_formats [OF mk assms(5,3) this assms(4)] obtain w d pre suf where
      g: "G (fm_world f')" and w: "G w" "s_disk S w ?dev = Some d"
      and ran: "fm_ran f' = fm_ran f1 @ pre @ disk_makers P B T (disk, d) @ suf"
    by (auto simp: send_def)
  have "set (maker_of T ?dev (1 + int n) (dl_partitions disk ! n)) \<subseteq> set (disk_makers P B T (disk, d))"
    using maker_in_makers [OF assms(7), of P d 1 T ?dev] assms(10) [OF w]
    by (simp add: disk_makers_def add.commute)
  moreover have "fm_ran f1 = fm_ran f" using layout_runs_nothing [of P S disks f] lay by simp
  ultimately have "Mkntfs_cmd (GetDevByPartNum T ?dev (int n + 1)) (pi_label (dl_partitions disk ! n))
      \<in> set (drop (length (fm_ran f)) (fm_ran f'))"
    using ran assms(9) by (auto simp: maker_of_def add.commute)
  with wimapply_target [OF plan assms(4) g] assms(6,8) show ?thesis by simp
qed

text \<open>The second partition of the empty disk, created, formatted and then imaged.\<close>

definition image_request :: ApplyImageRequest where
  "image_request = \<lparr>ai_imagePath = ''w.wim'', ai_imageIndex = 1, ai_targetDisk = ''pci0'', ai_targetPartition = 2\<rparr>"

lemma provision_run:
  "\<exists>cmd f'. provision sample_ped makers_system (\<lambda>i. (0, None)) [makers_request] image_request start_empty
     = (Ok (RunWimapply cmd), f') \<and> last cmd = ''/dev/sda2''"
proof -
  let ?run = "provision sample_ped makers_system (\<lambda>i. (0, None)) [makers_request] image_request start_empty"
  have "fst ?run = Ok (RunWimapply [''wimapply'', ''/nfs/w.wim'', ''1'', ''/dev/sda2''])" by code_simp
  then show ?thesis by (cases ?run) auto
qed

theorem provision_writes_formatted_witness:
  "\<exists>cmd f'. provision sample_ped makers_system (\<lambda>i. (0, None)) [makers_request] image_request start_empty
     = (Ok (RunWimapply cmd), f') \<and> last cmd = ''/dev/sda2'' \<and> Mkntfs_cmd ''/dev/sda2'' [] \<in> set (fm_ran f')"
proof -
  from provision_run obtain cmd f' where
      p: "provision sample_ped makers_system (\<lambda>i. (0, None)) [makers_request] image_request start_empty
        = (Ok (RunWimapply cmd), f')" "last cmd = ''/dev/sda2''" by blast
  have "cmd \<noteq> [] \<and> Mkntfs_cmd (last cmd) (pi_label (dl_partitions makers_request ! 1))
      \<in> set (drop (length (fm_ran start_empty)) (fm_ran f'))"
  proof (rule provision_writes_formatted [OF p(1) _ makers_keep makers_steady])
    show "fm_world (laid_out sample_ped makers_system [makers_request] start_empty) = created_table"
      by (rule created_table_def [symmetric])
  qed (use created_parts in \<open>simp_all add: makers_req image_request_def makers_system_def\<close>)
  with p show ?thesis by (auto simp: makers_req)
qed

end
