(* ===== verification/Ped_Handles.thy ===== *)
theory Ped_Handles
  imports Disk_Format_Correct
begin

text \<open>
  The wrappers of \<open>tools/parted/parted_linux.go\<close> around the pointers libparted hands out:
  devices, disks, geometries, constraints and alignments, the sizes and UUIDs read through
  them, and \<open>Devices\<close>, which walks libparted's device list.  A C pointer is a value of a type
  of its own, a null pointer \<open>None\<close>; the functions of libparted are gathered in a record.
\<close>

section \<open>Handles\<close>

text \<open>The structs of the package: one pointer each, a disk with the device it was read from.\<close>

record 'v PedDevice = pDev :: 'v

record ('k, 'v) PedDisk =
  pDisk :: 'k
  dev :: "'v PedDevice"

record 'g PedGeometry = pGeo :: 'g
record 'c PedConstraint = pConst :: 'c
record 'a PedAlignment = pAlign :: 'a

record ('v, 'k, 'g, 'c, 'a) libparted =
  ped_device_get :: "string \<Rightarrow> 'v option"
  ped_device_path :: "'v \<Rightarrow> string"
  ped_disk_new :: "'v \<Rightarrow> 'k option"
  ped_device_get_constraint :: "'v \<Rightarrow> 'c option"
  ped_device_get_minimal_aligned_constraint :: "'v \<Rightarrow> 'c option"
  ped_device_get_optimal_aligned_constraint :: "'v \<Rightarrow> 'c option"
  ped_device_get_optimum_alignment :: "'v \<Rightarrow> 'a option"
  ped_device_get_minimum_alignment :: "'v \<Rightarrow> 'a option"
  ped_disk_get_partition_alignment :: "'k \<Rightarrow> 'a option"
  ped_disk_get_uuid :: "'k \<Rightarrow> (nat \<Rightarrow> u8) option"
  ped_partition_get_uuid :: "ped_part \<Rightarrow> (nat \<Rightarrow> u8) option"
  ped_constraint_new_from_min :: "'g \<Rightarrow> 'c option"
  ped_constraint_new_from_max :: "'g \<Rightarrow> 'c option"
  ped_geometry_new :: "'v \<Rightarrow> int \<Rightarrow> int \<Rightarrow> 'g option"

definition GetDevice :: "('v, 'k, 'g, 'c, 'a) libparted \<Rightarrow> string \<Rightarrow> 'v PedDevice option" where
  "GetDevice L d = (case ped_device_get L d of None \<Rightarrow> None | Some p \<Rightarrow> Some \<lparr>pDev = p\<rparr>)"

definition GetDisk :: "('v, 'k, 'g, 'c, 'a) libparted \<Rightarrow> 'v PedDevice \<Rightarrow> ('k, 'v) PedDisk option" where
  "GetDisk L p = (case ped_disk_new L (pDev p) of None \<Rightarrow> None | Some k \<Rightarrow> Some \<lparr>pDisk = k, dev = p\<rparr>)"

definition GetSysPath :: "('v, 'k, 'g, 'c, 'a) libparted \<Rightarrow> 'v PedDevice \<Rightarrow> string" where
  "GetSysPath L d = ped_device_path L (pDev d)"

definition NewGeometry ::
  "('v, 'k, 'g, 'c, 'a) libparted \<Rightarrow> 'v PedDevice \<Rightarrow> int \<Rightarrow> int \<Rightarrow> 'g PedGeometry option" where
  "NewGeometry L d start end =
     (case ped_geometry_new L (pDev d) start end of None \<Rightarrow> None | Some g \<Rightarrow> Some \<lparr>pGeo = g\<rparr>)"

section \<open>Constraints and alignments\<close>

text \<open>The wrapping of a constraint and of an alignment that may be null.\<close>

definition constraint_of :: "'c option \<Rightarrow> 'c PedConstraint option" where
  "constraint_of p = (case p of None \<Rightarrow> None | Some c \<Rightarrow> Some \<lparr>pConst = c\<rparr>)"

definition alignment_of :: "'a option \<Rightarrow> 'a PedAlignment option" where
  "alignment_of p = (case p of None \<Rightarrow> None | Some a \<Rightarrow> Some \<lparr>pAlign = a\<rparr>)"

definition Constraint :: "('v, 'k, 'g, 'c, 'a) libparted \<Rightarrow> 'v PedDevice \<Rightarrow> 'c PedConstraint option" where
  "Constraint L p = constraint_of (ped_device_get_constraint L (pDev p))"

definition ConstraintMinAlign :: "('v, 'k, 'g, 'c, 'a) libparted \<Rightarrow> 'v PedDevice \<Rightarrow> 'c PedConstraint option" where
  "ConstraintMinAlign L p = constraint_of (ped_device_get_minimal_aligned_constraint L (pDev p))"

definition ConstraintOptAlign :: "('v, 'k, 'g, 'c, 'a) libparted \<Rightarrow> 'v PedDevice \<Rightarrow> 'c PedConstraint option" where
  "ConstraintOptAlign L p = constraint_of (ped_device_get_optimal_aligned_constraint L (pDev p))"

definition NewConstMin :: "('v, 'k, 'g, 'c, 'a) libparted \<Rightarrow> 'g PedGeometry \<Rightarrow> 'c PedConstraint option" where
  "NewConstMin L geo = constraint_of (ped_constraint_new_from_min L (pGeo geo))"

definition NewConstMax :: "('v, 'k, 'g, 'c, 'a) libparted \<Rightarrow> 'g PedGeometry \<Rightarrow> 'c PedConstraint option" where
  "NewConstMax L geo = constraint_of (ped_constraint_new_from_max L (pGeo geo))"

definition AlignmentOpt :: "('v, 'k, 'g, 'c, 'a) libparted \<Rightarrow> 'v PedDevice \<Rightarrow> 'a PedAlignment option" where
  "AlignmentOpt L p = alignment_of (ped_device_get_optimum_alignment L (pDev p))"

definition AlignmentMin :: "('v, 'k, 'g, 'c, 'a) libparted \<Rightarrow> 'v PedDevice \<Rightarrow> 'a PedAlignment option" where
  "AlignmentMin L p = alignment_of (ped_device_get_minimum_alignment L (pDev p))"

definition GetAlignment :: "('v, 'k, 'g, 'c, 'a) libparted \<Rightarrow> ('k, 'v) PedDisk \<Rightarrow> 'a PedAlignment option" where
  "GetAlignment L d = alignment_of (ped_disk_get_partition_alignment L (pDisk d))"

section \<open>Numbers and identifiers\<close>

text \<open>
  \<open>GoBytes\<close> copies sixteen bytes from the address libparted returned; a null address is an
  absent UUID.
\<close>

definition uuid_bytes :: "(nat \<Rightarrow> u8) option \<Rightarrow> u8 list option" where
  "uuid_bytes uid = (case uid of None \<Rightarrow> None | Some mem \<Rightarrow> Some (map mem [0..<16]))"

definition disk_UUID :: "('v, 'k, 'g, 'c, 'a) libparted \<Rightarrow> ('k, 'v) PedDisk \<Rightarrow> u8 list option" where
  "disk_UUID L d = uuid_bytes (ped_disk_get_uuid L (pDisk d))"

definition part_UUID :: "('v, 'k, 'g, 'c, 'a) libparted \<Rightarrow> ped_part \<Rightarrow> u8 list option" where
  "part_UUID L p = uuid_bytes (ped_partition_get_uuid L p)"

text \<open>The fields of the geometry are \<open>long long\<close>, converted to \<open>uint64\<close>.\<close>

definition GetSize :: "ped_part \<Rightarrow> u64" where
  "GetSize p = word_of_int (pp_length p)"

definition StartOffset :: "ped_part \<Rightarrow> u64" where
  "StartOffset p = word_of_int (pp_start p)"

definition EndOffset :: "ped_part \<Rightarrow> u64" where
  "EndOffset p = word_of_int (pp_end p)"

lemma uuid_bytes_length: "uuid_bytes uid = Some u \<Longrightarrow> length u = 16"
  by (auto simp: uuid_bytes_def split: option.splits)

text \<open>
  A UUID libparted has is encoded without a panic, and back; the missing one of a disk or
  partition is an empty slice, on which \<open>EncodeUUID\<close> panics.
\<close>

lemma UUID_encodes:
  assumes "disk_UUID L d = Some u \<or> part_UUID L p = Some u"
  shows "is_ok (EncodeUUID u) \<and> bind_res (EncodeUUID u) EncodeUUID = Ok u"
  using assms EncodeUUID_twice [of u] by (auto simp: disk_UUID_def part_UUID_def dest: uuid_bytes_length)

text \<open>
  For a geometry as libparted keeps it, the offsets read as unsigned numbers enclose exactly
  the sectors counted by the size.
\<close>

lemma offsets_enclose:
  assumes "0 \<le> pp_start p" and "pp_length p = pp_end p - pp_start p + 1" and "0 < pp_length p" and "pp_end p < 2 ^ 63"
  shows "uint (GetSize p) = uint (EndOffset p) - uint (StartOffset p) + 1"
proof -
  have "uint (word_of_int k :: u64) = k" if "0 \<le> k" "k < 2 ^ 64" for k
    using that by (simp add: uint_word_of_int)
  from this [of "pp_length p"] this [of "pp_start p"] this [of "pp_end p"] assms show ?thesis
    by (simp add: GetSize_def EndOffset_def StartOffset_def)
qed

section \<open>The device list\<close>

text \<open>
  \<open>Devices\<close>: five calls of \<open>ped_device_get_next\<close>, each with the last device found; the end of
  the list is asked again.  What was found is printed, and nil is returned.
\<close>

fun next_devices :: "('v option \<Rightarrow> goerr + 'v option) \<Rightarrow> nat \<Rightarrow> 'v option \<Rightarrow> 'v list \<Rightarrow> 'v list" where
  "next_devices nxt 0 pd devs = devs"
| "next_devices nxt (Suc i) pd devs =
     (case nxt pd of
        Inl err \<Rightarrow> devs
      | Inr None \<Rightarrow> next_devices nxt i pd devs
      | Inr (Some d) \<Rightarrow> next_devices nxt i (Some d) (devs @ [d]))"

definition Devices :: "('v option \<Rightarrow> goerr + 'v option) \<Rightarrow> string list \<times> 'v list" where
  "Devices nxt = ([], next_devices nxt 5 None [])"

text \<open>libparted's list: the next device of one, the first of all from null.\<close>

fun list_next :: "'v list \<Rightarrow> 'v option \<Rightarrow> goerr + 'v option" where
  "list_next ds None = Inr (case ds of [] \<Rightarrow> None | d # _ \<Rightarrow> Some d)"
| "list_next ds (Some d) =
     Inr (case dropWhile (\<lambda>x. x \<noteq> d) ds of _ # e # _ \<Rightarrow> Some e | _ \<Rightarrow> None)"

lemma list_next_nth:
  assumes "distinct ds" and "j < length ds"
  shows "list_next ds (Some (ds ! j)) = Inr (if Suc j < length ds then Some (ds ! Suc j) else None)"
proof -
  have "x \<noteq> ds ! j" if "x \<in> set (take j ds)" for x
    using that assms by (auto simp: in_set_conv_nth nth_eq_iff_index_eq)
  then have "dropWhile (\<lambda>x. x \<noteq> ds ! j) (take j ds @ drop j ds) = dropWhile (\<lambda>x. x \<noteq> ds ! j) (drop j ds)"
    by (intro dropWhile_append2) auto
  then have "dropWhile (\<lambda>x. x \<noteq> ds ! j) ds = dropWhile (\<lambda>x. x \<noteq> ds ! j) (drop j ds)" by simp
  also have "\<dots> = ds ! j # drop (Suc j) ds"
    by (subst Cons_nth_drop_Suc [OF assms(2), symmetric]) simp
  finally have rest: "dropWhile (\<lambda>x. x \<noteq> ds ! j) ds = ds ! j # drop (Suc j) ds" .
  then show ?thesis
  proof (cases "Suc j < length ds")
    case True
    from Cons_nth_drop_Suc [OF this] obtain ys where "drop (Suc j) ds = ds ! Suc j # ys" by metis
    with True rest show ?thesis by simp
  qed simp
qed

lemma next_devices_take:
  assumes "distinct ds" and "k \<le> length ds"
  shows "next_devices (list_next ds) n (if k = 0 then None else Some (ds ! (k - 1))) (take k ds) = take (k + n) ds"
  using assms(2)
proof (induction n arbitrary: k)
  case (Suc n)
  have nxt: "list_next ds (if k = 0 then None else Some (ds ! (k - 1))) = Inr (if k < length ds then Some (ds ! k) else None)"
    using list_next_nth [OF assms(1), of "k - 1"] Suc.prems by (cases k; cases ds) auto
  show ?case
  proof (cases "k < length ds")
    case True
    with nxt Suc.IH [of "Suc k"] show ?thesis by (simp add: take_Suc_conv_app_nth)
  next
    case False
    with nxt Suc.IH [of k] Suc.prems show ?thesis by simp
  qed
qed simp

text \<open>The caller gets nothing; what is printed are the first five devices.\<close>

lemma Devices_five: "distinct ds \<Longrightarrow> Devices (list_next ds) = ([], take 5 ds)"
  using next_devices_take [of ds 0 5] by (simp add: Devices_def)

end
