(* ===== verification/Recording_Pipes.thy ===== *)
theory Recording_Pipes
  imports Recording_Correct
begin

text \<open>
  The rest of the recorder: the goroutines of \<open>StartProcessAsCurrentUser\<close> that log what the
  encoder prints and how it ends, the unused reader-writer \<open>myReader\<close>, and the Linux build
  (\<open>service/recording_linux.go\<close>), whose operations are empty.
\<close>

section \<open>Logging the encoder\<close>

text \<open>
  The pipe goroutine on the outcomes of its reads, each into a buffer of 512 bytes: the lines
  it logs, and whether it ended.  A list without an error is a goroutine still reading.
\<close>

fun pipe_routine :: "(goerr + string) list \<Rightarrow> string list \<times> bool" where
  "pipe_routine [] = ([], False)"
| "pipe_routine (Inl err # rs) = ([''Pipe read error '' @ err], True)"
| "pipe_routine (Inr out # rs) =
     (let (ls, ended) = pipe_routine rs in ((''Read  '' @ take 512 out @ '' bytes'') # ls, ended))"

text \<open>The goroutine that waits for the process.\<close>

definition wait_routine :: "goerr option \<Rightarrow> goerr + u32 \<Rightarrow> string" where
  "wait_routine wait_err exit_code =
     (case wait_err of
        Some err \<Rightarrow> ''WaitProcess error:'' @ err
      | None \<Rightarrow>
          (case exit_code of
             Inl err \<Rightarrow> ''WaitProcess error:'' @ err
           | Inr c \<Rightarrow> ''Proc exited:'' @ str_itoa (uint c)))"

text \<open>The logger reads on until the first error and logs one line for each read before it.\<close>

lemma pipe_routine_ends:
  "snd (pipe_routine rs) \<longleftrightarrow> (\<exists>e. Inl e \<in> set rs)"
  "length (fst (pipe_routine rs))
     = length (takeWhile (\<lambda>r. \<exists>out. r = Inr out) rs) + (if snd (pipe_routine rs) then 1 else 0)"
  by (induction rs rule: pipe_routine.induct) (auto simp: Let_def split: prod.splits)

section \<open>\<open>myReader\<close>\<close>

text \<open>
  Both methods meet at the unbuffered channel \<open>sig\<close>: a \<open>Write\<close> hands over its whole slice and
  reports its length, a \<open>Read\<close> copies what fits its buffer.  An empty slice reads as the end.
\<close>

definition myReader_Write :: "u8 list \<Rightarrow> u8 list \<times> nat" where
  "myReader_Write p = (p, length p)"

definition myReader_Read :: "nat \<Rightarrow> u8 list \<Rightarrow> (u8 list \<times> nat) option" where
  "myReader_Read buf t = (if t = [] then None else Some (take buf t, min buf (length t)))"

text \<open>One rendezvous: what the writer is told, and what the reader gets.\<close>

definition meet :: "u8 list \<Rightarrow> nat \<Rightarrow> nat \<times> u8 list option" where
  "meet p buf =
     (let (t, n) = myReader_Write p in
      (n, case myReader_Read buf t of None \<Rightarrow> None | Some (q, m) \<Rightarrow> Some q))"

text \<open>
  A written slice arrives whole exactly when it is not empty and fits the buffer of the read it
  meets; the writer is told its full length in any case, so bytes beyond the buffer are lost.
\<close>

lemma meet_whole: "snd (meet p buf) = Some p \<longleftrightarrow> p \<noteq> [] \<and> length p \<le> buf"
  by (auto simp: meet_def myReader_Write_def myReader_Read_def)

lemma meet_reported: "fst (meet p buf) = length p"
  by (simp add: meet_def myReader_Write_def)

section \<open>The Linux build\<close>

definition rec_start_linux :: "(recorder, unit) io" where
  "rec_start_linux s = (Ok (), s)"

definition rec_stop_linux :: "(recorder, unit) io" where
  "rec_stop_linux s = (Ok (), s)"

text \<open>\<open>RecordControl\<close> over these two.\<close>

definition RecordControl_linux :: "recorder \<Rightarrow> string \<Rightarrow> recorder" where
  "RecordControl_linux s command =
     (let (err, t) = (if command = ''start'' then rec_start_linux s
                      else if command = ''stop'' then rec_stop_linux s
                      else (Ok (), s)) in
      case err of
        Ok _ \<Rightarrow> t\<lparr>rc_reply := Some (rc_status t, None)\<rparr>
      | Err e \<Rightarrow> t\<lparr>rc_reply := Some (rc_status t, Some e)\<rparr>
      | Panic p \<Rightarrow> t\<lparr>rc_crash := Some p\<rparr>
      | Blocked \<Rightarrow> t)"

definition idle_linux :: "recorder \<Rightarrow> bool" where
  "idle_linux s \<longleftrightarrow> s = rec_init\<lparr>rc_reply := rc_reply s\<rparr> \<and> rc_reply s \<in> {None, Some (''idle'', None)}"

interpretation linux_rec: invariant_machine RecordControl_linux idle_linux
proof (unfold_locales, goal_cases)
  case (1 s command)
  obtain r where s: "s = rec_init\<lparr>rc_reply := r\<rparr>" using 1 idle_linux_def by blast
  show ?case
    unfolding s by (simp add: RecordControl_linux_def rec_start_linux_def rec_stop_linux_def idle_linux_def rec_init_def)
qed

text \<open>Under Linux every request is answered with success and the recorder stays idle.\<close>

lemma linux_never_records:
  "idle_linux (run RecordControl_linux rec_init commands)"
  by (rule linux_rec.run_inv) (simp add: idle_linux_def rec_init_def)

end
