(* ===== verification/Lifecycle.thy ===== *)
theory Lifecycle
  imports Agent_Start_Correct Daemon_Correct
begin

text \<open>
  The agent over its whole life: \<open>ServiceCtxt.Stop\<close> of \<open>service/service.go\<close> with the services'
  own \<open>Stop\<close>, the two goroutines of \<open>main_linux.go\<close> joined to the network events, and
  \<open>main_windows.go\<close> under the vendored \<open>go-svc\<close> (\<open>svc_windows.go\<close>).  What a stop is meant to
  end, and what goes on all the same, is proved here.
\<close>

section \<open>The notifier of a fresh agent\<close>

text \<open>\<open>NewNetworkChangeNotifier\<close>: no observers, hence no addresses reported.\<close>

definition NewNetworkChangeNotifier :: "agent \<Rightarrow> agent" where
  "NewNetworkChangeNotifier s = s\<lparr>nt_observers := (\<lambda>k. None), nt_status := (\<lambda>k. None)\<rparr>"

lemma agent_zero_fresh: "NewNetworkChangeNotifier agent_zero = agent_zero"
  by (simp add: NewNetworkChangeNotifier_def agent_zero_def)

section \<open>The Linux daemon with its agent\<close>

text \<open>
  The main goroutine initialises the agent and the worker starts and stops it, in their steps;
  the notifier, the server goroutines and the announcers, which the start brings up, run
  beside them, as labelled steps.  An initialisation or a start that panics ends the process,
  a state without steps, and so does a signal before the signal loop has asked for them.
\<close>

record process =
  pr_daemon :: daemon
  pr_boot :: boot
  pr_crashed :: bool

text \<open>
  What the goroutines do on their way from one point of the code to the next; \<open>main\<close> drops the
  error of \<open>Init\<close>.
\<close>

definition goroutine_effect :: "boot_env \<Rightarrow> unit res \<Rightarrow> daemon \<Rightarrow> daemon \<Rightarrow> (boot, unit) io" where
  "goroutine_effect E notifier d d' s =
     (if dm_worker d = Unborn \<and> dm_worker d' = Starting then agent_Init E s
      else if dm_worker d = Starting \<and> dm_worker d' = RecvStop then agent_Start notifier s
      else if dm_worker d = Stopping \<and> dm_worker d' = SendDone then agent_Stop s
      else (Ok (), s))"

inductive lstep :: "boot_env \<Rightarrow> unit res \<Rightarrow> process \<Rightarrow> net_event option \<Rightarrow> process \<Rightarrow> bool" for E notifier where
  goroutine: "\<not> pr_crashed p \<Longrightarrow> dstep (pr_daemon p) d
    \<Longrightarrow> goroutine_effect E notifier (pr_daemon p) d (pr_boot p) = (r, b)
    \<Longrightarrow> lstep E notifier p None \<lparr>pr_daemon = d, pr_boot = b, pr_crashed = (\<exists>x. r = Panic x)\<rparr>"
| network: "\<not> pr_crashed p \<Longrightarrow> \<not> killed (dm_main (pr_daemon p)) \<Longrightarrow> dm_worker (pr_daemon p) \<notin> {Unborn, Starting}
    \<Longrightarrow> lstep E notifier p (Some e)
          (p\<lparr>pr_boot := (pr_boot p)\<lparr>bt_agent := net_step (bt_agent (pr_boot p)) e\<rparr>\<rparr>)"

inductive_cases lstep_cases: "lstep E notifier p l q"

text \<open>A run with the network events it saw, in order.\<close>

inductive lrun :: "boot_env \<Rightarrow> unit res \<Rightarrow> process \<Rightarrow> net_event list \<Rightarrow> process \<Rightarrow> bool" for E notifier where
  refl: "lrun E notifier p [] p"
| quiet: "lrun E notifier p es q \<Longrightarrow> lstep E notifier q None r \<Longrightarrow> lrun E notifier p es r"
| event: "lrun E notifier p es q \<Longrightarrow> lstep E notifier q (Some e) r \<Longrightarrow> lrun E notifier p (es @ [e]) r"

definition process_start :: process where
  "process_start = \<lparr>pr_daemon = daemon_init, pr_boot = boot_zero, pr_crashed = False\<rparr>"

lemma lstep_daemon: "lstep E notifier p l q \<Longrightarrow> dreach (pr_daemon p) (pr_daemon q)"
  by (erule lstep_cases) auto

lemma lrun_daemon: "lrun E notifier p es q \<Longrightarrow> dreach (pr_daemon p) (pr_daemon q)"
  by (induction rule: lrun.induct) (auto dest: lstep_daemon)

text \<open>
  The agent is where initialisation and the network events put it, whatever signals arrive
  and however far the worker has stopped: stopping the agent withdraws nothing.
\<close>

definition boot_of :: "boot_env \<Rightarrow> net_event list \<Rightarrow> process \<Rightarrow> boot" where
  "boot_of E es q =
     (if dm_worker (pr_daemon q) = Unborn then boot_zero
      else (snd (agent_Init E boot_zero))
        \<lparr>bt_agent := run net_step (bt_agent (snd (agent_Init E boot_zero))) es\<rparr>)"

lemma goroutine_effect_boot:
  assumes "dstep d d'"
  shows "snd (goroutine_effect E notifier d d' s)
      = (if dm_worker d = Unborn \<and> dm_worker d' \<noteq> Unborn then snd (agent_Init E s) else s)"
    and "dm_worker d \<noteq> Unborn \<Longrightarrow> dm_worker d' \<noteq> Unborn"
  using assms by (auto elim!: dstep_cases simp: goroutine_effect_def agent_Start_nothing agent_Stop_nothing)

lemma lrun_boot:
  "lrun E notifier process_start es q \<Longrightarrow> pr_boot q = boot_of E es q \<and> (if dm_worker (pr_daemon q) = Unborn then es = [] else True)"
proof (induction "process_start" es q rule: lrun.induct)
  case refl
  show ?case by (simp add: process_start_def daemon_init_def boot_of_def)
next
  case (quiet es q r)
  from quiet.hyps(3) obtain d b x where r: "r = \<lparr>pr_daemon = d, pr_boot = b, pr_crashed = (\<exists>y. x = Panic y)\<rparr>"
      and d: "dstep (pr_daemon q) d" and b: "goroutine_effect E notifier (pr_daemon q) d (pr_boot q) = (x, b)"
    by (auto elim: lstep_cases)
  from arg_cong [OF b, of snd] goroutine_effect_boot(1) [OF d, of E notifier "pr_boot q"]
    goroutine_effect_boot(2) [OF d] quiet.hyps(2)
  show ?case by (auto simp: r boot_of_def split: if_splits)
next
  case (event es q e r)
  from event.hyps(3) have "pr_boot r = (pr_boot q)\<lparr>bt_agent := net_step (bt_agent (pr_boot q)) e\<rparr>"
      "pr_daemon r = pr_daemon q" "dm_worker (pr_daemon q) \<noteq> Unborn"
    by (auto elim!: lstep_cases)
  with event.hyps(2) show ?case by (auto simp: boot_of_def)
qed

text \<open>Every run of the signal handling is one of the process, once the event sources came up.\<close>

lemma lrun_signals:
  assumes "dreach (pr_daemon q) d" and "\<not> pr_crashed q" and "lrun E (Ok ()) p es q"
    and "dm_worker (pr_daemon q) \<noteq> Unborn"
  shows "lrun E (Ok ()) p es (q\<lparr>pr_daemon := d\<rparr>) \<and> dm_worker d \<noteq> Unborn"
  using assms(1)
proof (induction rule: rtranclp_induct)
  case base
  show ?case using assms(3,4) by simp
next
  case (step d d')
  have "goroutine_effect E (Ok ()) d d' (pr_boot q) = (Ok (), pr_boot q)"
    using step.IH by (simp add: goroutine_effect_def agent_Start_nothing agent_Stop_nothing)
  with lstep.goroutine [of "q\<lparr>pr_daemon := d\<rparr>" d' E "Ok ()" "Ok ()" "pr_boot q"] step.hyps(2) assms(2)
  have "lstep E (Ok ()) (q\<lparr>pr_daemon := d\<rparr>) None (q\<lparr>pr_daemon := d'\<rparr>)" by (cases q) simp
  with step.IH goroutine_effect_boot(2) [OF step.hyps(2)] show ?case by (blast intro: lrun.quiet)
qed

lemma lrun_network:
  "lrun E notifier p es q \<Longrightarrow> \<not> pr_crashed q \<Longrightarrow> \<not> killed (dm_main (pr_daemon q))
   \<Longrightarrow> dm_worker (pr_daemon q) \<notin> {Unborn, Starting}
   \<Longrightarrow> lrun E notifier p (es @ [e]) (q\<lparr>pr_boot := (pr_boot q)\<lparr>bt_agent := net_step (bt_agent (pr_boot q)) e\<rparr>\<rparr>)"
  by (rule lrun.event [OF _ lstep.network])

text \<open>An agent that was stopped for good, and serves the address it came up with.\<close>

definition lit_net :: net_env where
  "lit_net = \<lparr>ne_ifs = Some [\<lparr>if_flags = 33, if_addrs = Some [''10.10.1.7/24'']\<rparr>],
     ne_listen = (\<lambda>a. [Inr a]), ne_resolves = (\<lambda>a. True), ne_dials = (\<lambda>a. True)\<rparr>"

lemma lit_net_up: "sv_serving (run net_step agent_init [Emit lit_net [Ctx, Ann], ServeRuns ''10.10.1.7:0'']) \<noteq> []"
  by code_simp

lemma stopped_agent_serves:
  "\<exists>q es. lrun \<lparr>be_resolve = None, be_low = LowInit_linux\<rparr> (Ok ()) process_start es q
     \<and> dm_worker (pr_daemon q) = Returned \<and> sv_serving (bt_agent (pr_boot q)) \<noteq> []"
proof -
  let ?E = "\<lparr>be_resolve = None, be_low = LowInit_linux\<rparr>"
  let ?up = "Emit lit_net [Ctx, Ann]" and ?serve = "ServeRuns ''10.10.1.7:0''"
  define reg where "reg = \<lparr>dm_main = Registering, dm_worker = Starting, dm_queue = []\<rparr>"
  define ready where "ready = \<lparr>dm_main = SendStop SIGQUIT, dm_worker = RecvStop, dm_queue = []\<rparr>"
  obtain b where b: "agent_Init ?E boot_zero = (Ok (), b)" "bt_agent b = agent_init"
    by (simp add: agent_Init_ok LowInit_linux_def)
  define p where "p = \<lparr>pr_daemon = reg, pr_boot = b, pr_crashed = False\<rparr>"
  have "dstep daemon_init reg"
    using dstep.init [of daemon_init] by (simp add: daemon_init_def reg_def)
  then have "lstep ?E (Ok ()) process_start None p"
    using lstep.goroutine [of process_start reg ?E "Ok ()" "Ok ()" b] b(1)
    by (simp add: process_start_def p_def goroutine_effect_def daemon_init_def reg_def)
  then have p: "lrun ?E (Ok ()) process_start [] p" by (rule lrun.quiet [OF lrun.refl])
  have "dstep reg (reg\<lparr>dm_main := Waiting\<rparr>)" by (rule dstep.notify) (simp add: reg_def)
  moreover have "dstep \<dots> (reg\<lparr>dm_main := Waiting, dm_queue := [SIGQUIT]\<rparr>)"
    using dstep.arrive [of "reg\<lparr>dm_main := Waiting\<rparr>" SIGQUIT] by (simp add: reg_def)
  moreover have "dstep \<dots> (reg\<lparr>dm_main := SendStop SIGQUIT\<rparr>)"
    using dstep.take [of "reg\<lparr>dm_main := Waiting, dm_queue := [SIGQUIT]\<rparr>" SIGQUIT "[]"]
    by (simp add: reg_def enter_handler_cases)
  moreover have "dstep \<dots> ready"
    using dstep.started [of "reg\<lparr>dm_main := SendStop SIGQUIT\<rparr>"] by (simp add: reg_def ready_def)
  ultimately have r: "dreach reg ready" by (meson rtranclp.rtrancl_refl rtranclp.rtrancl_into_rtrancl)
  have q: "lrun ?E (Ok ()) process_start [] (p\<lparr>pr_daemon := ready\<rparr>)"
    using lrun_signals [OF _ _ p] r by (simp add: p_def reg_def)
  define q2 where "q2 = (p\<lparr>pr_daemon := ready, pr_boot := b\<lparr>bt_agent := run net_step agent_init [?up, ?serve]\<rparr>\<rparr>)"
  have q2: "lrun ?E (Ok ()) process_start ([] @ [?up] @ [?serve]) q2"
    using lrun_network [OF lrun_network [OF q], of ?up ?serve] b(2) by (simp add: p_def ready_def q2_def)
  obtain d where d: "dreach ready d" "dm_worker d = Returned"
    using first_stop_served [of ready SIGQUIT] by (auto simp: ready_def)
  have "lrun ?E (Ok ()) process_start ([] @ [?up] @ [?serve]) (q2\<lparr>pr_daemon := d\<rparr>)"
    using lrun_signals [OF _ _ q2] d(1) by (simp add: q2_def p_def ready_def)
  with d(2) lit_net_up show ?thesis by (fastforce simp: q2_def)
qed

section \<open>The rest of the Linux program\<close>

text \<open>
  \<open>os.Getenv\<close> over the environment of the process: the entries are \<open>NAME=value\<close>, the first of a
  name counts, and an unset name gives the empty string.
\<close>

definition Getenv :: "string list \<Rightarrow> string \<Rightarrow> string" where
  "Getenv environ key =
     (case find (\<lambda>e. CHR ''='' \<in> set e \<and> takeWhile (\<lambda>c. c \<noteq> CHR ''='') e = key) environ of
        None \<Rightarrow> []
      | Some e \<Rightarrow> if key = [] then [] else drop (length key + 1) e)"

text \<open>What the worker prints first: it looks up whole entries of \<open>os.Environ\<close> as names.\<close>

definition print_environ :: "string list \<Rightarrow> string" where
  "print_environ environ = concat (map (\<lambda>k. k @ ''='' @ Getenv environ k) environ)"

lemma print_environ_no_values:
  "filter (\<lambda>e. CHR ''='' \<notin> set e) environ = [] \<Longrightarrow> print_environ environ = concat (map (\<lambda>e. e @ ''='') environ)"
proof -
  assume all: "filter (\<lambda>e. CHR ''='' \<notin> set e) environ = []"
  have "Getenv environ k = []" if "k \<in> set environ" for k
  proof -
    have "CHR ''='' \<in> set k" using all that by (auto simp: filter_empty_conv)
    moreover have "CHR ''='' \<notin> set (takeWhile (\<lambda>c. c \<noteq> CHR ''='') e)" for e by (auto dest: set_takeWhileD)
    ultimately have "takeWhile (\<lambda>c. c \<noteq> CHR ''='') e \<noteq> k" for e by auto
    then have "find (\<lambda>e. CHR ''='' \<in> set e \<and> takeWhile (\<lambda>c. c \<noteq> CHR ''='') e = k) environ = None"
      by (simp add: find_None_iff)
    then show ?thesis by (simp add: Getenv_def)
  qed
  then show ?thesis by (simp add: print_environ_def cong: map_cong)
qed

text \<open>The statements behind the signal loop; the loop does not end, so they are never reached.\<close>

definition main_after_loop :: "goerr option \<Rightarrow> goerr option \<Rightarrow> log_dest \<Rightarrow> log_dest" where
  "main_after_loop resolve_err dial_err dest =
     (case resolve_err of
        Some err \<Rightarrow> dest
      | None \<Rightarrow> (case dial_err of Some err \<Rightarrow> dest | None \<Rightarrow> Remote))"

section \<open>The Windows program\<close>

text \<open>
  The vendored \<open>svc.Run\<close> over the three operations of a service.  As a service, the requests of
  the service manager arrive in turn; on a console one signal is waited for.  The context the
  program passes is cancelled only when \<open>main\<close> returns, so a run without a request to stop
  blocks.
\<close>

datatype change = Interrogate | StopRequest | ShutdownRequest | OtherRequest

record svc_env =
  se_service :: "goerr + bool"
  se_chdir :: "goerr option"
  se_dispatch :: "goerr option"
  se_requests :: "change list"
  se_signalled :: bool

fun change_loop :: "('s, unit) io \<Rightarrow> change list \<Rightarrow> ('s, unit) io" where
  "change_loop stop [] s = (Blocked, s)"
| "change_loop stop (c # cs) s =
     (if c = StopRequest \<or> c = ShutdownRequest then stop s else change_loop stop cs s)"

definition svc_Run :: "svc_env \<Rightarrow> (bool \<Rightarrow> ('s, unit) io) \<Rightarrow> ('s, unit) io \<Rightarrow> ('s, unit) io \<Rightarrow> ('s, unit) io" where
  "svc_Run V init start stop s =
     (case se_service V of
        Inl err \<Rightarrow> (Err err, s)
      | Inr is_service \<Rightarrow>
          (case (is_service, se_chdir V) of
             (True, Some err) \<Rightarrow> (Err err, s)
           | _ \<Rightarrow>
               bind_io (init is_service) (\<lambda>_.
                 if is_service then
                   (case se_dispatch V of
                      Some err \<Rightarrow> fail err
                    | None \<Rightarrow> bind_io start (\<lambda>_. change_loop stop (se_requests V)))
                 else
                   bind_io start (\<lambda>_ s. if se_signalled V then stop s else (Blocked, s))) s))"

text \<open>The program: where its log goes, its agent, and whether the log file was closed again.\<close>

record win =
  wn_prog :: win_program
  wn_boot :: boot
  wn_closed :: bool

definition on_boot :: "(boot, 'a) io \<Rightarrow> (win, 'a) io" where
  "on_boot m s = (let (r, b) = m (wn_boot s) in (r, s\<lparr>wn_boot := b\<rparr>))"

text \<open>The outcomes of \<open>filepath.Abs\<close>, \<open>os.OpenFile\<close>, and of reaching for the debug endpoint.\<close>

record log_env =
  le_abs :: "goerr option"
  le_open :: "goerr option"
  le_resolve :: "goerr option"
  le_dial :: "goerr option"

definition program_Init :: "log_env \<Rightarrow> boot_env \<Rightarrow> bool \<Rightarrow> (win, unit) io" where
  "program_Init L E is_service s =
     (case win_Init is_service (le_abs L) (le_open L) (le_resolve L) (le_dial L) [] (wn_prog s) of
        (Some err, p) \<Rightarrow> (Err err, s\<lparr>wn_prog := p\<rparr>)
      | (None, p) \<Rightarrow> on_boot (agent_Init E) (s\<lparr>wn_prog := p\<rparr>))"

definition program_Start :: "unit res \<Rightarrow> (win, unit) io" where
  "program_Start notifier = on_boot (agent_Start notifier)"

definition program_Stop :: "(win, unit) io" where
  "program_Stop = on_boot agent_Stop"

text \<open>
  \<open>main\<close> returns the exit code.  \<open>log.Fatal\<close> leaves the process at once: the deferred closing of
  the log file is skipped.
\<close>

definition main_windows :: "svc_env \<Rightarrow> log_env \<Rightarrow> boot_env \<Rightarrow> unit res \<Rightarrow> (win, nat) io" where
  "main_windows V L E notifier s =
     (case svc_Run V (program_Init L E) (program_Start notifier) program_Stop s of
        (Ok _, s1) \<Rightarrow> (Ok 0, s1\<lparr>wn_closed := wp_opened (wn_prog s1)\<rparr>)
      | (Err err, s1) \<Rightarrow> (Ok 1, s1)
      | (Panic p, s1) \<Rightarrow> (Panic p, s1)
      | (Blocked, s1) \<Rightarrow> (Blocked, s1))"

definition win_zero :: win where
  "win_zero = \<lparr>wn_prog = \<lparr>wp_log = Stderr, wp_opened = False, wp_inits = 0, wp_started = 0\<rparr>,
     wn_boot = boot_zero, wn_closed = False\<rparr>"

text \<open>A request that stops the program, in the mode it runs in.\<close>

definition asked_to_stop :: "svc_env \<Rightarrow> bool \<Rightarrow> bool" where
  "asked_to_stop V is_service =
     (if is_service then StopRequest \<in> set (se_requests V) \<or> ShutdownRequest \<in> set (se_requests V)
      else se_signalled V)"

lemma change_loop_stops:
  "change_loop stop cs s =
     (if StopRequest \<in> set cs \<or> ShutdownRequest \<in> set cs then stop s else (Blocked, s))"
  by (induction cs) auto

lemma program_Stop_nothing: "program_Stop s = (Ok (), s)"
  by (simp add: program_Stop_def on_boot_def agent_Stop_nothing)

lemma program_Start_result: "program_Start notifier s = (notifier, s)"
  by (simp add: program_Start_def on_boot_def agent_Start_nothing)

lemma svc_Run_serves:
  assumes "se_service V = Inr is_service" and "is_service \<Longrightarrow> se_chdir V = None \<and> se_dispatch V = None"
    and "init is_service s = (Ok (), s1)"
  shows "svc_Run V init (program_Start (Ok ())) program_Stop s = (if asked_to_stop V is_service then (Ok (), s1) else (Blocked, s1))"
  using assms
  by (cases is_service)
    (simp_all add: svc_Run_def asked_to_stop_def bind_io_def program_Start_result change_loop_stops program_Stop_nothing)

text \<open>
  The Windows program whose initialisation succeeds serves until it is asked to stop, and then
  exits with the log file closed; the agent is left as it was: server, listener and
  announcers are ended by the end of the process only.  If the initialisation fails the
  program exits with 1 and a log file it opened is not closed.
\<close>

lemma main_windows_outcome:
  assumes "se_service V = Inr is_service" and "is_service \<Longrightarrow> se_chdir V = None \<and> se_dispatch V = None"
  shows "program_Init L E is_service s = (Ok (), s1) \<Longrightarrow> main_windows V L E (Ok ()) s =
      (if asked_to_stop V is_service then (Ok 0, s1\<lparr>wn_closed := wp_opened (wn_prog s1)\<rparr>) else (Blocked, s1))"
    and "program_Init L E is_service s = (Err e, s1) \<Longrightarrow> main_windows V L E (Ok ()) s = (Ok 1, s1)"
  using assms svc_Run_serves [OF assms, of "program_Init L E" s s1]
  by (auto simp: main_windows_def svc_Run_def bind_io_def split: option.splits)

text \<open>How the agent comes up: \<open>Init\<close> and, when it succeeded, \<open>Start\<close>, as \<open>svc.Run\<close> calls them.\<close>

definition windows_agent ::
  "log_env \<Rightarrow> goerr option \<Rightarrow> priv_env \<Rightarrow> unit res \<Rightarrow> bool \<Rightarrow> (win, unit) io" where
  "windows_agent L resolve P notifier is_service =
     bind_io (program_Init L \<lparr>be_resolve = resolve, be_low = LowInit_windows P\<rparr> is_service)
       (\<lambda>_. program_Start notifier)"

text \<open>A service must be able to open its log file; on a console there is none.\<close>

definition log_opens :: "log_env \<Rightarrow> bool \<Rightarrow> bool" where
  "log_opens L is_service \<longleftrightarrow> (is_service \<longrightarrow> le_abs L = None \<and> le_open L = None)"

lemma program_Init_cases:
  "if log_opens L is_service
   then \<exists>p. program_Init L E is_service win_zero
       = (fst (agent_Init E boot_zero), \<lparr>wn_prog = p, wn_boot = snd (agent_Init E boot_zero), wn_closed = False\<rparr>)
   else \<exists>e. program_Init L E is_service win_zero = (Err e, win_zero)"
proof (cases "log_opens L is_service")
  case True
  then obtain p where "win_Init is_service (le_abs L) (le_open L) (le_resolve L) (le_dial L) [] (wn_prog win_zero) = (None, p)"
    by (cases is_service) (auto simp: log_opens_def win_Init_def Let_def)
  with True show ?thesis
    by (cases "agent_Init E boot_zero") (simp add: program_Init_def on_boot_def win_zero_def)
next
  case False
  then obtain e where "win_Init is_service (le_abs L) (le_open L) (le_resolve L) (le_dial L) [] (wn_prog win_zero)
      = (Some e, wn_prog win_zero)"
    by (cases "le_abs L"; cases "le_open L") (auto simp: log_opens_def win_Init_def)
  with False show ?thesis by (simp add: program_Init_def)
qed

text \<open>The agent with its four services found by the server, before any network event.\<close>

definition came_up :: "boot \<Rightarrow> bool" where
  "came_up b \<longleftrightarrow> bt_agent b = agent_init \<and> bt_registered b = [Power, Deploy, Record, Maintain] \<and> bt_efi b"

lemma windows_agent_accepted:
  assumes "log_opens L is_service" and "low_accepted P"
  shows "\<exists>s. windows_agent L None P notifier is_service win_zero = (notifier, s) \<and> came_up (wn_boot s)
    \<and> bt_accepted (wn_boot s) = [''SeShutdownPrivilege'']
        @ (if variables_accepted P then [''SeSystemEnvironmentPrivilege''] else [])"
  using program_Init_cases [of L is_service "\<lparr>be_resolve = None, be_low = LowInit_windows P\<rparr>"] assms
  by (auto simp: windows_agent_def bind_io_def agent_Init_ok LowInit_windows_ok program_Start_result came_up_def)

lemma windows_agent_refused:
  assumes "log_opens L is_service" and "\<not> low_accepted P"
  shows "\<exists>e s. windows_agent L None P notifier is_service win_zero = (Err e, s) \<and> bt_registered (wn_boot s) = [Power]"
proof -
  from LowInit_windows_fails [OF assms(2)] obtain e privs where "LowInit_windows P [] = (Err e, privs)" by blast
  with program_Init_cases [of L is_service "\<lparr>be_resolve = None, be_low = LowInit_windows P\<rparr>"] assms(1)
  show ?thesis by (auto simp: windows_agent_def bind_io_def agent_Init_refused)
qed

lemma windows_agent_unresolved:
  assumes "log_opens L is_service"
  shows "\<exists>s. windows_agent L (Some e) P notifier is_service win_zero = (Panic (Explicit e), s)
    \<and> bt_registered (wn_boot s) = []"
proof -
  let ?E = "\<lparr>be_resolve = Some e, be_low = LowInit_windows P\<rparr>"
  from agent_Init_unresolved [of ?E e] program_Init_cases [of L is_service ?E] assms
  show ?thesis by (auto simp: windows_agent_def bind_io_def)
qed

lemma windows_agent_no_log:
  assumes "\<not> log_opens L is_service"
  shows "\<exists>e. windows_agent L resolve P notifier is_service win_zero = (Err e, win_zero)"
  using program_Init_cases [of L is_service "\<lparr>be_resolve = resolve, be_low = LowInit_windows P\<rparr>"] assms
  by (auto simp: windows_agent_def bind_io_def)

lemma linux_agent_unresolved:
  "\<exists>s. linux_agent (Some e) notifier boot_zero = (Panic (Explicit e), s) \<and> bt_registered s = []"
  using agent_Init_unresolved [of "\<lparr>be_resolve = Some e, be_low = LowInit_linux\<rparr>" e]
  by (auto simp: linux_agent_def)

text \<open>
  C29: the start of the agent.  On Windows it succeeds exactly when the log file can be opened
  (as a service), the multicast address resolves, both privileges can be looked up, the
  adjustment of the first is accepted and the event sources can be registered.  Then all four
  services of the server are registered and the network model is in its initial state, and
  the refusal of the second adjustment, the one for firmware variables, went unnoticed.  A
  failure at the log file or the address leaves no service registered, one at a privilege
  only the power service.  On Linux, where no privilege is asked for, it succeeds exactly
  when the address resolves and the event source opens, with the same services.
\<close>

theorem agent_comes_up:
  "(is_ok (fst (windows_agent L resolve P notifier is_service win_zero))
      \<longleftrightarrow> log_opens L is_service \<and> resolve = None \<and> low_accepted P \<and> notifier = Ok ())
   \<and> (\<forall>s. windows_agent L resolve P notifier is_service win_zero = (Ok (), s) \<longrightarrow> came_up (wn_boot s)
        \<and> (''SeSystemEnvironmentPrivilege'' \<in> set (bt_accepted (wn_boot s)) \<longleftrightarrow> variables_accepted P))
   \<and> (\<not> (log_opens L is_service \<and> resolve = None) \<longrightarrow>
        bt_registered (wn_boot (snd (windows_agent L resolve P notifier is_service win_zero))) = [])
   \<and> (log_opens L is_service \<and> resolve = None \<and> \<not> low_accepted P \<longrightarrow>
        bt_registered (wn_boot (snd (windows_agent L resolve P notifier is_service win_zero))) = [Power])
   \<and> (is_ok (fst (linux_agent resolve notifier boot_zero)) \<longleftrightarrow> resolve = None \<and> notifier = Ok ())
   \<and> (\<forall>s. linux_agent resolve notifier boot_zero = (Ok (), s) \<longrightarrow> came_up s \<and> bt_accepted s = [])"
proof -
  have linux: "(is_ok (fst (linux_agent resolve notifier boot_zero)) \<longleftrightarrow> resolve = None \<and> notifier = Ok ())
      \<and> (\<forall>s. linux_agent resolve notifier boot_zero = (Ok (), s) \<longrightarrow> came_up s \<and> bt_accepted s = [])"
    using linux_agent_unresolved [of "the resolve" notifier]
    by (cases resolve; cases notifier) (auto simp: linux_agent_boot came_up_def)
  consider (no_log) "\<not> log_opens L is_service" | (address) e where "log_opens L is_service" "resolve = Some e"
    | (refused) "log_opens L is_service" "resolve = None" "\<not> low_accepted P"
    | (accepted) "log_opens L is_service" "resolve = None" "low_accepted P"
    by blast
  then show ?thesis
  proof cases
    case no_log
    with linux windows_agent_no_log [OF no_log, of resolve P notifier] show ?thesis
      by (auto simp: win_zero_def boot_zero_def)
  next
    case address
    with linux windows_agent_unresolved [OF address(1), of e P notifier] show ?thesis by auto
  next
    case refused
    with linux windows_agent_refused [OF refused(1,3), of notifier] show ?thesis by auto
  next
    case accepted
    with linux windows_agent_accepted [OF accepted(1,3), of notifier] show ?thesis by (cases notifier) auto
  qed
qed

theorem agent_comes_up_witness:
  "\<exists>s. windows_agent \<lparr>le_abs = None, le_open = None, le_resolve = None, le_dial = None\<rparr> None sample_privileges
       (Ok ()) True win_zero = (Ok (), s)
     \<and> bt_registered (wn_boot s) = [Power, Deploy, Record, Maintain]
     \<and> ''SeSystemEnvironmentPrivilege'' \<notin> set (bt_accepted (wn_boot s))"
proof -
  let ?L = "\<lparr>le_abs = None, le_open = None, le_resolve = None, le_dial = None\<rparr>"
  let ?run = "windows_agent ?L None sample_privileges (Ok ()) True win_zero"
  have P: "low_accepted sample_privileges" "\<not> variables_accepted sample_privileges" "log_opens ?L True"
    by (simp_all add: low_accepted_def variables_accepted_def sample_privileges_def log_opens_def)
  note up = agent_comes_up [of ?L None sample_privileges "Ok ()" True]
  from up P have "is_ok (fst ?run)" by simp
  then obtain s where "?run = (Ok (), s)" by (cases ?run; cases "fst ?run") auto
  with up P show ?thesis by (auto simp: came_up_def)
qed

end
