(* ===== verification/Load_Option.thy ===== *)
theory Load_Option
  imports Efi_Vars
begin

text \<open>
  Load options and device paths as the vendored \<open>uefi\<close> package decodes and prints them, in the
  fork that the boot-entry inspector imports: \<open>efireader\<close>, \<open>efidevicepath\<close>, \<open>efitypes/loadoption.go\<close>
  and \<open>efivars.Boot\<close>.  A reader is the list of the bytes it has not delivered yet.
\<close>

section \<open>Readers\<close>

definition prefix_err :: "string \<Rightarrow> ('s, 'a) io \<Rightarrow> ('s, 'a) io" where
  "prefix_err msg m s = (case m s of (Err e, t) \<Rightarrow> (Err (msg @ e), t) | r \<Rightarrow> r)"

text \<open>\<open>io.ReadFull\<close> into a buffer of \<open>n\<close> bytes, \<open>io.ReadAll\<close>, and \<open>io.CopyN(io.Discard, r, n)\<close>.\<close>

definition read_full :: "nat \<Rightarrow> (u8 list, u8 list) io" where
  "read_full n s =
     (if n \<le> length s then (Ok (take n s), drop n s)
      else (Err (if s = [] then ''EOF'' else ''unexpected EOF''), []))"

definition read_rest :: "(u8 list, u8 list) io" where
  "read_rest s = (Ok s, [])"

definition discard :: "nat \<Rightarrow> (u8 list, unit) io" where
  "discard n s = (if n \<le> length s then (Ok (), drop n s) else (Err ''EOF'', []))"

text \<open>\<open>io.LimitReader(r, n)\<close>: the reader under it loses what was taken through the limit.\<close>

definition limited :: "nat \<Rightarrow> (u8 list, 'a) io \<Rightarrow> (u8 list, 'a) io" where
  "limited n m s = (let seen = take n s; (r, left) = m seen in (r, drop (length seen - length left) s))"

text \<open>\<open>FieldReader.ReadFields\<close>: fields of fixed widths, the error names the field.\<close>

fun read_fields :: "nat \<Rightarrow> nat list \<Rightarrow> (u8 list, u8 list list) io" where
  "read_fields i [] s = (Ok [], s)"
| "read_fields i (n # ns) s =
     bind_io (prefix_err (''field #'' @ num_str 10 i @ '': '') (read_full n)) (\<lambda>b.
     bind_io (read_fields (i + 1) ns) (\<lambda>bs. ret (b # bs))) s"

definition ReadFields :: "nat list \<Rightarrow> (u8 list, u8 list list) io" where
  "ReadFields = read_fields 0"

text \<open>A recursive call of a reader sees the bytes that the step before it left.\<close>

lemma bind_io_step_cong [fundef_cong]:
  "m s = m' s' \<Longrightarrow> (\<And>x t. m' s' = (Ok x, t) \<Longrightarrow> f x t = f' x t) \<Longrightarrow> bind_io m f s = bind_io m' f' s'"
  by (simp add: bind_io_def split: prod.split res.split)

text \<open>The bytes up to and with a zero byte, or a zero unit of two bytes.\<close>

fun ReadASCIINullBytes :: "(u8 list, u8 list) io" where
  "ReadASCIINullBytes [] = (Err ''EOF'', [])"
| "ReadASCIINullBytes (a # s) =
     (if a = 0 then (Ok [a], s) else bind_io ReadASCIINullBytes (\<lambda>out. ret (a # out)) s)"

fun ReadUTF16NullBytes :: "(u8 list, u8 list) io" where
  "ReadUTF16NullBytes [] = (Err ''EOF'', [])"
| "ReadUTF16NullBytes [a] = (Err ''unexpected EOF'', [])"
| "ReadUTF16NullBytes (a # b # s) =
     (if a = 0 \<and> b = 0 then (Ok [a, b], s) else bind_io ReadUTF16NullBytes (\<lambda>out. ret (a # b # out)) s)"

text \<open>Decoding what was read: an odd number of bytes would be indexed out of range.\<close>

definition ASCIIZBytesToString :: "u8 list \<Rightarrow> string" where
  "ASCIIZBytesToString b = str_of_bytes (takeWhile (\<lambda>x. x \<noteq> 0) b)"

fun units_of :: "u8 list \<Rightarrow> u16 list res" where
  "units_of [] = Ok []"
| "units_of [a] = Panic IndexRange"
| "units_of (a # b # s) = bind_res (units_of s) (\<lambda>us. Ok (word_of_nat (le_get [a, b]) # us))"

definition UTF16BytesToString :: "u8 list \<Rightarrow> string res" where
  "UTF16BytesToString b = bind_res (units_of b) (\<lambda>us. Ok (runes_str (utf16_decode us)))"

definition UTF16ZBytesToString :: "u8 list \<Rightarrow> string res" where
  "UTF16ZBytesToString b = bind_res (UTF16BytesToString b) (\<lambda>s. Ok (takeWhile (\<lambda>c. c \<noteq> CHR 0x00) s))"

section \<open>Printing\<close>

text \<open>The verbs \<open>%x\<close>, \<open>%#x\<close> and \<open>%#08x\<close>; the last fills up the digits and not the width.\<close>

fun fmt_x :: "nat \<Rightarrow> string" where
  "fmt_x n = (if n < 16 then [hex_digit n] else fmt_x (n div 16) @ [hex_digit (n mod 16)])"

declare fmt_x.simps [simp del]

definition fmt_0x :: "nat \<Rightarrow> string" where
  "fmt_0x n = ''0x'' @ fmt_x n"

definition fmt_0x8 :: "nat \<Rightarrow> string" where
  "fmt_0x8 n = ''0x'' @ replicate (8 - length (fmt_x n)) (CHR ''0'') @ fmt_x n"

text \<open>Package \<open>efihex\<close>, whose digits are upper-case, and the text of a GUID.\<close>

definition EncodeBigEndian :: "u8 list \<Rightarrow> string" where
  "EncodeBigEndian src = concat (map (\<lambda>b. [digit_char (unat b div 16), digit_char (unat b mod 16)]) src)"

definition EncodeLittleEndian :: "u8 list \<Rightarrow> string" where
  "EncodeLittleEndian src = EncodeBigEndian (rev src)"

definition encodeHex :: "u8 list \<Rightarrow> string" where
  "encodeHex u =
     EncodeLittleEndian (take 4 u) @ ''-'' @ EncodeLittleEndian (take 2 (drop 4 u)) @ ''-''
     @ EncodeLittleEndian (take 2 (drop 6 u)) @ ''-'' @ EncodeBigEndian (take 2 (drop 8 u)) @ ''-''
     @ EncodeBigEndian (drop 10 u)"

definition formatString :: "string \<Rightarrow> string" where
  "formatString s = (if s = [] then ''\"\"'' else s)"

definition intToEISA :: "nat \<Rightarrow> string" where
  "intToEISA v =
     (let vendor = v mod 0x10000; letter = (\<lambda>k. char_of (vendor div 2 ^ k mod 32 + 0x40)) in
      [letter 10, letter 5, letter 0] @ fmt_04X (v div 0x10000))"

text \<open>\<open>net.HardwareAddr.String\<close>, and \<open>net.IP.String\<close> of four bytes.\<close>

definition HardwareAddr_String :: "u8 list \<Rightarrow> string" where
  "HardwareAddr_String b = str_join '':'' (map (\<lambda>x. hex_str [x]) b)"

definition IP_String :: "u8 list \<Rightarrow> string" where
  "IP_String b = str_join ''.'' (map (\<lambda>x. num_str 10 (unat x)) b)"

section \<open>Device paths\<close>

record Head =
  dh_Type :: u8
  dh_SubType :: u8
  dh_Length :: u16

text \<open>
  The kinds of nodes.  Of an IPv4 node the fields behind the ports are never read.
\<close>

datatype DevicePath =
    EndOfPath Head
  | UnrecognizedDevicePath Head "u8 list"
  | PCIDevicePath Head u8 u8
  | ACPIPath Head u32 u32
  | BIOSBootSpecPath Head u16 u16 "u8 list"
  | HardDriveMediaDevicePath Head u32 u64 u64 "u8 list" u8 u8
  | CDROMDevicePath Head u32 u64 u64
  | VendorMediaDevicePath Head "u8 list" "u8 list"
  | FilePathDevicePath Head "u8 list"
  | MACAddressDevicePath Head "u8 list" u8
  | IPv4DevicePath Head "u8 list" "u8 list" u16 u16
  | SATADevicePath Head u16 u16 u16
  | URIDevicePath Head "u8 list"

fun GetHead :: "DevicePath \<Rightarrow> Head" where
  "GetHead (EndOfPath h) = h"
| "GetHead (UnrecognizedDevicePath h _) = h"
| "GetHead (PCIDevicePath h _ _) = h"
| "GetHead (ACPIPath h _ _) = h"
| "GetHead (BIOSBootSpecPath h _ _ _) = h"
| "GetHead (HardDriveMediaDevicePath h _ _ _ _ _ _) = h"
| "GetHead (CDROMDevicePath h _ _ _) = h"
| "GetHead (VendorMediaDevicePath h _ _) = h"
| "GetHead (FilePathDevicePath h _) = h"
| "GetHead (MACAddressDevicePath h _ _) = h"
| "GetHead (IPv4DevicePath h _ _ _ _) = h"
| "GetHead (SATADevicePath h _ _ _) = h"
| "GetHead (URIDevicePath h _) = h"

definition Unrecognized_Text :: "Head \<Rightarrow> u8 list \<Rightarrow> string" where
  "Unrecognized_Text h data =
     ''Path('' @ num_str 10 (unat (dh_Type h)) @ '','' @ num_str 10 (unat (dh_SubType h)) @ '',''
     @ EncodeBigEndian data @ '')''"

definition PCI_Text :: "u8 \<Rightarrow> u8 \<Rightarrow> string" where
  "PCI_Text f d = ''Pci('' @ num_str 10 (unat f) @ '','' @ num_str 10 (unat d) @ '')''"

definition ACPI_Text :: "u32 \<Rightarrow> u32 \<Rightarrow> string" where
  "ACPI_Text hid uid = ''ACPI('' @ intToEISA (unat hid) @ '','' @ num_str 10 (unat uid) @ '')''"

definition BIOS_Text :: "u16 \<Rightarrow> u16 \<Rightarrow> u8 list \<Rightarrow> string" where
  "BIOS_Text t flag desc =
     ''BBS('' @ num_str 10 (unat t) @ '','' @ formatString (ASCIIZBytesToString desc) @ '','' @ fmt_x (unat flag) @ '')''"

definition HD_Text :: "u32 \<Rightarrow> u64 \<Rightarrow> u64 \<Rightarrow> u8 list \<Rightarrow> u8 \<Rightarrow> string" where
  "HD_Text num start sz sig fmt =
     (let t = (if fmt = 1 then ''MBR'' else if fmt = 2 then ''GPT'' else []);
          g = (if fmt = 1 then fmt_0x8 (le_get (take 4 sig)) else if fmt = 2 then encodeHex sig else []);
          r = (if num \<noteq> 0 then '','' @ fmt_0x (unat start) @ '','' @ fmt_0x (unat sz) else []) in
      ''HD('' @ num_str 10 (unat num) @ '','' @ t @ '','' @ g @ r @ '')'')"

definition CDROM_Text :: "u32 \<Rightarrow> u64 \<Rightarrow> u64 \<Rightarrow> string" where
  "CDROM_Text boot start sz =
     ''CDROM('' @ num_str 10 (unat boot) @ '','' @ fmt_x (unat start) @ '','' @ fmt_x (unat sz) @ '')''"

definition VendorMedia_Text :: "u8 list \<Rightarrow> u8 list \<Rightarrow> string" where
  "VendorMedia_Text guid data = ''VenMedia('' @ encodeHex guid @ '','' @ EncodeBigEndian data @ '')''"

definition FilePath_Text :: "u8 list \<Rightarrow> string res" where
  "FilePath_Text path = bind_res (UTF16ZBytesToString path) (\<lambda>s. Ok (''File('' @ s @ '')''))"

definition MAC_Text :: "u8 list \<Rightarrow> u8 \<Rightarrow> string" where
  "MAC_Text mac t = ''MAC Address: '' @ HardwareAddr_String (take 6 mac) @ '' Type: '' @ num_str 10 (unat t)"

definition IPv4_Text :: "u8 list \<Rightarrow> u8 list \<Rightarrow> string" where
  "IPv4_Text l r = ''IPv4 Local:'' @ IP_String l @ '' Remote:'' @ IP_String r"

definition SATA_Text :: "u16 \<Rightarrow> u16 \<Rightarrow> u16 \<Rightarrow> string" where
  "SATA_Text port mul lun =
     ''SATA Port: '' @ num_str 10 (unat port) @ '' PortMul: '' @ num_str 10 (unat mul)
     @ '' LUN: '' @ num_str 10 (unat lun)"

definition URI_Text :: "u8 list \<Rightarrow> string" where
  "URI_Text uri = ''URI: '' @ str_of_bytes uri"

fun DevicePath_Text :: "DevicePath \<Rightarrow> string res" where
  "DevicePath_Text (EndOfPath h) = Ok []"
| "DevicePath_Text (UnrecognizedDevicePath h data) = Ok (Unrecognized_Text h data)"
| "DevicePath_Text (PCIDevicePath h f d) = Ok (PCI_Text f d)"
| "DevicePath_Text (ACPIPath h hid uid) = Ok (ACPI_Text hid uid)"
| "DevicePath_Text (BIOSBootSpecPath h t flag desc) = Ok (BIOS_Text t flag desc)"
| "DevicePath_Text (HardDriveMediaDevicePath h num start sz sig fmt st) = Ok (HD_Text num start sz sig fmt)"
| "DevicePath_Text (CDROMDevicePath h boot start sz) = Ok (CDROM_Text boot start sz)"
| "DevicePath_Text (VendorMediaDevicePath h guid data) = Ok (VendorMedia_Text guid data)"
| "DevicePath_Text (FilePathDevicePath h path) = FilePath_Text path"
| "DevicePath_Text (MACAddressDevicePath h mac t) = Ok (MAC_Text mac t)"
| "DevicePath_Text (IPv4DevicePath h l r lp rp) = Ok (IPv4_Text l r)"
| "DevicePath_Text (SATADevicePath h port mul lun) = Ok (SATA_Text port mul lun)"
| "DevicePath_Text (URIDevicePath h uri) = Ok (URI_Text uri)"

section \<open>Reading a node\<close>

definition w8 :: "u8 list \<Rightarrow> u8" where "w8 b = word_of_nat (le_get b)"
definition w16 :: "u8 list \<Rightarrow> u16" where "w16 b = word_of_nat (le_get b)"
definition w32 :: "u8 list \<Rightarrow> u32" where "w32 b = word_of_nat (le_get b)"
definition w64 :: "u8 list \<Rightarrow> u64" where "w64 b = word_of_nat (le_get b)"

definition Unrecognized_ReadFrom :: "Head \<Rightarrow> (u8 list, DevicePath) io" where
  "Unrecognized_ReadFrom h = bind_io read_rest (\<lambda>data. ret (UnrecognizedDevicePath h data))"

definition PCI_ReadFrom :: "Head \<Rightarrow> (u8 list, DevicePath) io" where
  "PCI_ReadFrom h = bind_io (ReadFields [1, 1]) (\<lambda>b. ret (PCIDevicePath h (w8 (b ! 0)) (w8 (b ! 1))))"

definition ACPI_ReadFrom :: "Head \<Rightarrow> (u8 list, DevicePath) io" where
  "ACPI_ReadFrom h = bind_io (ReadFields [4, 4]) (\<lambda>b. ret (ACPIPath h (w32 (b ! 0)) (w32 (b ! 1))))"

definition BIOS_ReadFrom :: "Head \<Rightarrow> (u8 list, DevicePath) io" where
  "BIOS_ReadFrom h =
     bind_io (ReadFields [2, 2]) (\<lambda>b. bind_io ReadASCIINullBytes (\<lambda>desc.
       ret (BIOSBootSpecPath h (w16 (b ! 0)) (w16 (b ! 1)) desc)))"

definition MAC_ReadFrom :: "Head \<Rightarrow> (u8 list, DevicePath) io" where
  "MAC_ReadFrom h = bind_io (ReadFields [32, 1]) (\<lambda>b. ret (MACAddressDevicePath h (b ! 0) (w8 (b ! 1))))"

definition IPv4_ReadFrom :: "Head \<Rightarrow> (u8 list, DevicePath) io" where
  "IPv4_ReadFrom h =
     bind_io (ReadFields [4, 4, 2, 2]) (\<lambda>b. ret (IPv4DevicePath h (b ! 0) (b ! 1) (w16 (b ! 2)) (w16 (b ! 3))))"

definition SATA_ReadFrom :: "Head \<Rightarrow> (u8 list, DevicePath) io" where
  "SATA_ReadFrom h =
     bind_io (ReadFields [2, 2, 2]) (\<lambda>b. ret (SATADevicePath h (w16 (b ! 0)) (w16 (b ! 1)) (w16 (b ! 2))))"

definition URI_ReadFrom :: "Head \<Rightarrow> (u8 list, DevicePath) io" where
  "URI_ReadFrom h = bind_io (ReadFields [unat (dh_Length h - 4)]) (\<lambda>b. ret (URIDevicePath h (b ! 0)))"

definition HD_ReadFrom :: "Head \<Rightarrow> (u8 list, DevicePath) io" where
  "HD_ReadFrom h =
     bind_io (ReadFields [4, 8, 8, 16, 1, 1]) (\<lambda>b.
       ret (HardDriveMediaDevicePath h (w32 (b ! 0)) (w64 (b ! 1)) (w64 (b ! 2)) (b ! 3) (w8 (b ! 4)) (w8 (b ! 5))))"

definition CDROM_ReadFrom :: "Head \<Rightarrow> (u8 list, DevicePath) io" where
  "CDROM_ReadFrom h =
     bind_io (ReadFields [4, 8, 8]) (\<lambda>b. ret (CDROMDevicePath h (w32 (b ! 0)) (w64 (b ! 1)) (w64 (b ! 2))))"

definition VendorMedia_ReadFrom :: "Head \<Rightarrow> (u8 list, DevicePath) io" where
  "VendorMedia_ReadFrom h =
     bind_io (ReadFields [16]) (\<lambda>b. bind_io read_rest (\<lambda>data. ret (VendorMediaDevicePath h (b ! 0) data)))"

definition FilePath_ReadFrom :: "Head \<Rightarrow> (u8 list, DevicePath) io" where
  "FilePath_ReadFrom h = bind_io ReadUTF16NullBytes (\<lambda>path. ret (FilePathDevicePath h path))"

lemmas node_readers = PCI_ReadFrom_def ACPI_ReadFrom_def BIOS_ReadFrom_def MAC_ReadFrom_def IPv4_ReadFrom_def
  SATA_ReadFrom_def URI_ReadFrom_def HD_ReadFrom_def CDROM_ReadFrom_def VendorMedia_ReadFrom_def FilePath_ReadFrom_def

definition ParseHardwareDevicePath :: "Head \<Rightarrow> (u8 list, DevicePath) io" where
  "ParseHardwareDevicePath h = (if dh_SubType h = 1 then PCI_ReadFrom h else Unrecognized_ReadFrom h)"

definition ParseACPIDevicePath :: "Head \<Rightarrow> (u8 list, DevicePath) io" where
  "ParseACPIDevicePath h = (if dh_SubType h = 1 then ACPI_ReadFrom h else Unrecognized_ReadFrom h)"

text \<open>The constants of the sub-types of a URI node and of a vendor node are exchanged in the fork.\<close>

definition URIDeviceSubType :: u8 where "URIDeviceSubType = 10"
definition MACAddressSubType :: u8 where "MACAddressSubType = 11"
definition IPv4DeviceSubType :: u8 where "IPv4DeviceSubType = 12"
definition SATADeviceSubType :: u8 where "SATADeviceSubType = 18"

definition ParseMessagingDevicePath :: "Head \<Rightarrow> (u8 list, DevicePath) io" where
  "ParseMessagingDevicePath h =
     (if dh_SubType h = MACAddressSubType then MAC_ReadFrom h
      else if dh_SubType h = IPv4DeviceSubType then IPv4_ReadFrom h
      else if dh_SubType h = SATADeviceSubType then SATA_ReadFrom h
      else if dh_SubType h = URIDeviceSubType then URI_ReadFrom h
      else Unrecognized_ReadFrom h)"

definition ParseMediaDevicePath :: "Head \<Rightarrow> (u8 list, DevicePath) io" where
  "ParseMediaDevicePath h =
     prefix_err (''efi/devicepath: type '' @ num_str 10 (unat (dh_Type h)) @ ''-''
                 @ num_str 10 (unat (dh_SubType h)) @ '': '')
       (if dh_SubType h = 1 then HD_ReadFrom h
        else if dh_SubType h = 2 then CDROM_ReadFrom h
        else if dh_SubType h = 3 then VendorMedia_ReadFrom h
        else if dh_SubType h = 4 then FilePath_ReadFrom h
        else Unrecognized_ReadFrom h)"

definition ParseBIOSDevicePath :: "Head \<Rightarrow> (u8 list, DevicePath) io" where
  "ParseBIOSDevicePath h = (if dh_SubType h = 1 then BIOS_ReadFrom h else Unrecognized_ReadFrom h)"

definition Head_ReadFrom :: "(u8 list, Head) io" where
  "Head_ReadFrom =
     prefix_err ''field #0: '' (bind_io (read_full 4) (\<lambda>b.
       ret \<lparr>dh_Type = w8 (take 1 b), dh_SubType = w8 (take 1 (drop 1 b)), dh_Length = w16 (drop 2 b)\<rparr>))"

text \<open>
  The body of a node is read through a limit of \<open>Length - 4\<close> in sixteen bits: a length below four
  wraps around and opens nearly all of what follows.
\<close>

definition read_body :: "Head \<Rightarrow> (u8 list, DevicePath) io" where
  "read_body h =
     (let body = (\<lambda>parse. limited (unat (dh_Length h - 4)) (parse h)) in
      if dh_Type h = 1 then body ParseHardwareDevicePath
      else if dh_Type h = 2 then body ParseACPIDevicePath
      else if dh_Type h = 3 then body ParseMessagingDevicePath
      else if dh_Type h = 4 then body ParseMediaDevicePath
      else if dh_Type h = 5 then body ParseBIOSDevicePath
      else if dh_Type h = 0x7F then ret (EndOfPath h)
      else body Unrecognized_ReadFrom)"

text \<open>The end of the whole path, after which no node is read.\<close>

definition quits :: "Head \<Rightarrow> bool" where
  "quits h \<longleftrightarrow> dh_Type h = 0x7F \<and> dh_SubType h = 0xFF"

text \<open>
  One round of the loop: the node, and the rest of its length if the parser left something;
  \<open>n\<close> bytes were there when the node began.
\<close>

definition skip_rest :: "nat \<Rightarrow> Head \<Rightarrow> DevicePath \<Rightarrow> (u8 list, DevicePath) io" where
  "skip_rest n h d s =
     (let offset = n - length s in
      if offset < unat (dh_Length h)
      then bind_io (prefix_err ''copy: '' (discard (unat (dh_Length h) - offset))) (\<lambda>_. ret d) s
      else (Ok d, s))"

definition read_node :: "(u8 list, DevicePath) io" where
  "read_node s =
     bind_io (prefix_err ''head: '' Head_ReadFrom) (\<lambda>h.
     bind_io (read_body h) (\<lambda>d. skip_rest (length s) h d)) s"

section \<open>What every reader keeps\<close>

text \<open>
  A reader delivers a beginning of its bytes, ends with a value or an error, never in a panic,
  and its values have a property.
\<close>

fun read_ok :: "('a \<Rightarrow> bool) \<Rightarrow> u8 list \<Rightarrow> 'a res \<times> u8 list \<Rightarrow> bool" where
  "read_ok Q s (Ok x, t) \<longleftrightarrow> Q x \<and> suffix t s"
| "read_ok Q s (Err e, t) \<longleftrightarrow> suffix t s"
| "read_ok Q s (Panic p, t) \<longleftrightarrow> False"
| "read_ok Q s (Blocked, t) \<longleftrightarrow> False"

definition reads :: "(u8 list, 'a) io \<Rightarrow> ('a \<Rightarrow> bool) \<Rightarrow> bool" where
  "reads m Q \<longleftrightarrow> (\<forall>s. read_ok Q s (m s))"

named_theorems reads_intros \<open>readers that keep to their bytes\<close>

lemma readsD: "reads m Q \<Longrightarrow> read_ok Q s (m s)"
  by (simp add: reads_def)

lemma reads_cases:
  assumes "reads m Q"
  obtains x t where "m s = (Ok x, t)" "Q x" "suffix t s" | e t where "m s = (Err e, t)" "suffix t s"
proof -
  obtain r t where "m s = (r, t)" by (cases "m s")
  with readsD [OF assms, of s] that show thesis by (cases r) auto
qed

lemma reads_Ok: "reads m Q \<Longrightarrow> m s = (Ok x, t) \<Longrightarrow> Q x \<and> suffix t s"
  using readsD [of m Q s] by simp

lemma reads_ret [reads_intros]: "Q x \<Longrightarrow> reads (ret x) Q"
  by (simp add: reads_def)

lemma reads_bind:
  assumes "reads m Q" and "\<And>x. Q x \<Longrightarrow> reads (f x) R"
  shows "reads (bind_io m f) R"
  unfolding reads_def
proof
  fix s
  show "read_ok R s (bind_io m f s)"
  proof (rule reads_cases [OF assms(1), of s])
    fix x t assume m: "m s = (Ok x, t)" "Q x" "suffix t s"
    from assms(2) [OF m(2)] show ?thesis
      using m(1,3) by (cases rule: reads_cases [of "f x" R t]) (auto intro: suffix_order.trans)
  qed simp
qed

lemma reads_prefix_err [reads_intros]:
  assumes "reads m Q"
  shows "reads (prefix_err msg m) Q"
  unfolding reads_def
proof
  fix s
  from assms show "read_ok Q s (prefix_err msg m s)"
    by (cases rule: reads_cases [of m Q s]) (simp_all add: prefix_err_def)
qed

lemma reads_if [reads_intros]: "reads m Q \<Longrightarrow> reads m' Q \<Longrightarrow> reads (if b then m else m') Q"
  by simp

lemma reads_full [reads_intros]: "reads (read_full n) (\<lambda>b. length b = n)"
  by (simp add: reads_def read_full_def suffix_drop)

lemma reads_rest [reads_intros]: "reads read_rest (\<lambda>b. True)"
  by (simp add: reads_def read_rest_def)

lemma reads_discard [reads_intros]: "reads (discard n) (\<lambda>_. True)"
  by (simp add: reads_def discard_def suffix_drop)

lemma reads_limited [reads_intros]:
  assumes "reads m Q"
  shows "reads (limited n m) Q"
  unfolding reads_def
proof
  fix s
  from assms show "read_ok Q s (limited n m s)"
    by (cases rule: reads_cases [of m Q "take n s"]) (simp_all add: limited_def suffix_drop)
qed

lemma reads_mono:
  assumes "reads m Q" and "\<And>x. Q x \<Longrightarrow> R x"
  shows "reads m R"
  unfolding reads_def
proof
  fix s
  from assms(1) show "read_ok R s (m s)"
    by (cases rule: reads_cases [of m Q s]) (simp_all add: assms(2))
qed

lemma reads_fields: "reads (read_fields i ns) (\<lambda>bs. map length bs = ns)"
proof (induction ns arbitrary: i)
  case Nil
  then show ?case by (simp add: reads_def)
next
  case (Cons n ns)
  have "read_fields i (n # ns) =
      bind_io (prefix_err (''field #'' @ num_str 10 i @ '': '') (read_full n)) (\<lambda>b.
      bind_io (read_fields (i + 1) ns) (\<lambda>bs. ret (b # bs)))"
    by (rule ext) simp
  with Cons show ?case by (force intro: reads_bind reads_prefix_err reads_full reads_ret)
qed

lemma reads_ReadFields [reads_intros]: "reads (ReadFields ns) (\<lambda>bs. map length bs = ns)"
  unfolding ReadFields_def by (rule reads_fields)

lemma reads_ascii [reads_intros]: "reads ReadASCIINullBytes (\<lambda>_. True)"
proof -
  have "read_ok (\<lambda>_. True) s (ReadASCIINullBytes s)" for s
  proof (induction s)
    case (Cons a s)
    then show ?case by (cases rule: read_ok.cases [of "(\<lambda>_. True, s, ReadASCIINullBytes s)"])
        (auto intro: suffix_ConsI)
  qed simp
  then show ?thesis by (simp add: reads_def)
qed

lemma reads_utf16 [reads_intros]: "reads ReadUTF16NullBytes (\<lambda>b. even (length b))"
proof -
  have "read_ok (\<lambda>b. even (length b)) s (ReadUTF16NullBytes s)" for s
  proof (induction s rule: ReadUTF16NullBytes.induct)
    case (3 a b s)
    then show ?case
      by (cases rule: read_ok.cases [of "(\<lambda>b. even (length b), s, ReadUTF16NullBytes s)"])
        (auto intro: suffix_ConsI)
  qed simp_all
  then show ?thesis by (simp add: reads_def)
qed

lemmas reads_steps = reads_full [THEN reads_bind] reads_rest [THEN reads_bind] reads_ReadFields [THEN reads_bind]
  reads_ascii [THEN reads_bind] reads_utf16 [THEN reads_bind]

declare reads_steps [reads_intros]

text \<open>An even number of bytes has a text; so has every node that was read.\<close>

lemma units_of_even: "even (length b) \<Longrightarrow> \<exists>us. units_of b = Ok us"
  by (induction b rule: units_of.induct) auto

lemma UTF16Z_even: "even (length b) \<Longrightarrow> \<exists>s. UTF16ZBytesToString b = Ok s"
  using units_of_even [of b] by (auto simp: UTF16ZBytesToString_def UTF16BytesToString_def)

definition has_text :: "DevicePath \<Rightarrow> bool" where
  "has_text d \<longleftrightarrow> (\<exists>s. DevicePath_Text d = Ok s)"

lemma has_text_simps [simp]:
  "has_text (EndOfPath h)" "has_text (UnrecognizedDevicePath h data)" "has_text (PCIDevicePath h f d)"
  "has_text (ACPIPath h i un)" "has_text (BIOSBootSpecPath h t fl ds)"
  "has_text (HardDriveMediaDevicePath h n st sz sig fm ty)" "has_text (CDROMDevicePath h bt st sz)"
  "has_text (VendorMediaDevicePath h g data)" "has_text (MACAddressDevicePath h m ty)"
  "has_text (IPv4DevicePath h l r lp rp)" "has_text (SATADevicePath h po mu lu)" "has_text (URIDevicePath h uri)"
  "even (length path) \<Longrightarrow> has_text (FilePathDevicePath h path)"
  using UTF16Z_even [of path] by (auto simp: has_text_def FilePath_Text_def)

lemma reads_unrecognized [reads_intros]: "reads (Unrecognized_ReadFrom h) has_text"
  unfolding Unrecognized_ReadFrom_def by (auto intro!: reads_intros)

lemmas node_parsers = ParseHardwareDevicePath_def ParseACPIDevicePath_def ParseMessagingDevicePath_def
  ParseMediaDevicePath_def ParseBIOSDevicePath_def

lemma reads_parsers [reads_intros]:
  "reads (ParseHardwareDevicePath h) has_text" "reads (ParseACPIDevicePath h) has_text"
  "reads (ParseMessagingDevicePath h) has_text" "reads (ParseMediaDevicePath h) has_text"
  "reads (ParseBIOSDevicePath h) has_text"
  unfolding node_parsers node_readers by (auto intro!: reads_intros)

lemma reads_body [reads_intros]: "reads (read_body h) has_text"
  unfolding read_body_def Let_def by (auto intro!: reads_intros)

lemma reads_head [reads_intros]: "reads Head_ReadFrom (\<lambda>_. True)"
  unfolding Head_ReadFrom_def by (auto intro!: reads_intros)

lemma Head_read: "Head_ReadFrom s = (Ok h, t) \<Longrightarrow> 4 \<le> length s \<and> t = drop 4 s"
  by (auto simp: Head_ReadFrom_def prefix_err_def read_full_def bind_io_def split: if_splits)

lemma reads_skip [reads_intros]:
  assumes "has_text d"
  shows "reads (skip_rest n h d) has_text"
  unfolding reads_def
proof
  fix s
  have "reads (bind_io (prefix_err ''copy: '' (discard k)) (\<lambda>_. ret d)) has_text" for k
    by (rule reads_bind [OF reads_prefix_err [OF reads_discard]]) (rule reads_ret, rule assms)
  from readsD [OF this] assms show "read_ok has_text s (skip_rest n h d s)"
    by (simp add: skip_rest_def Let_def)
qed

lemma reads_node: "reads read_node has_text"
  unfolding reads_def
proof
  fix s :: "u8 list"
  have "reads (bind_io (prefix_err ''head: '' Head_ReadFrom) (\<lambda>h.
     bind_io (read_body h) (\<lambda>d. skip_rest (length s) h d))) has_text"
    by (rule reads_bind [OF reads_prefix_err [OF reads_head]], rule reads_bind [OF reads_body], rule reads_skip)
  then show "read_ok has_text s (read_node s)" unfolding read_node_def by (rule readsD)
qed

text \<open>A node takes at least the four bytes of its head.\<close>

lemma node_shrinks:
  assumes "read_node s = (Ok d, t)"
  shows "length t + 4 \<le> length s"
proof -
  from assms obtain h s1 d1 s2 where h: "prefix_err ''head: '' Head_ReadFrom s = (Ok h, s1)"
      and b: "read_body h s1 = (Ok d1, s2)" and c: "skip_rest (length s) h d1 s2 = (Ok d, t)"
    unfolding read_node_def by (auto elim!: bind_io_Ok_E)
  from h have "4 \<le> length s" "s1 = drop 4 s"
    by (auto dest!: Head_read simp: prefix_err_def split: prod.splits res.splits)
  moreover from b have "length s2 \<le> length s1" using reads_Ok [OF reads_body] suffix_length_le by blast
  moreover from c have "length t \<le> length s2"
    by (auto simp: skip_rest_def prefix_err_def discard_def Let_def bind_io_def split: if_splits)
  ultimately show ?thesis by simp
qed

section \<open>Reading a path and a load option\<close>

text \<open>\<open>DevicePaths.ReadFrom\<close>: only the end of an entire path ends the loop, an end of the bytes is an error.\<close>

function DevicePaths_ReadFrom :: "(u8 list, DevicePath list) io" where
  "DevicePaths_ReadFrom s =
     bind_io read_node (\<lambda>d t.
       if quits (GetHead d) then (Ok [d], t)
       else bind_io DevicePaths_ReadFrom (\<lambda>ds. ret (d # ds)) t) s"
  by pat_completeness auto
termination
  by (relation "measure length") (auto dest: node_shrinks)

declare DevicePaths_ReadFrom.simps [simp del]

record LoadOption =
  lo_Attributes :: u32
  lo_FilePathListLength :: u16
  lo_Description :: "u8 list"
  lo_FilePathList :: "DevicePath list"
  lo_OptionalData :: "u8 list"

definition DescriptionString :: "LoadOption \<Rightarrow> string res" where
  "DescriptionString lo = UTF16ZBytesToString (lo_Description lo)"

definition LoadOption_ReadFrom :: "(u8 list, LoadOption) io" where
  "LoadOption_ReadFrom =
     bind_io (prefix_err ''LoadOption: '' (ReadFields [4, 2])) (\<lambda>b.
     bind_io (prefix_err ''LoadOption/Description: '' ReadUTF16NullBytes) (\<lambda>desc.
     bind_io (if 0 < w16 (b ! 1)
              then prefix_err ''LoadOption/FilepathList: '' (limited (unat (w16 (b ! 1))) DevicePaths_ReadFrom)
              else ret []) (\<lambda>paths.
     bind_io read_rest (\<lambda>opt.
       ret \<lparr>lo_Attributes = w32 (b ! 0), lo_FilePathListLength = w16 (b ! 1), lo_Description = desc,
            lo_FilePathList = paths, lo_OptionalData = opt\<rparr>))))"

text \<open>\<open>efivars.Boot(i).Get(c)\<close>; the number is hexadecimal here.\<close>

definition boot_option_name :: "u16 \<Rightarrow> string" where
  "boot_option_name i = ''Boot'' @ fmt_04X (unat i)"

definition Boot_Get :: "efi_context \<Rightarrow> u16 \<Rightarrow> (u32 \<times> LoadOption) res" where
  "Boot_Get c i =
     (let name = boot_option_name i in
      case ReadAll c name of
        Ok (attrs, data) \<Rightarrow>
          (case fst (LoadOption_ReadFrom data) of
             Ok lo \<Rightarrow> Ok (attrs, lo)
           | Err e \<Rightarrow> Err (''efivars/get('' @ name @ ''): parse: '' @ e)
           | Panic p \<Rightarrow> Panic p
           | Blocked \<Rightarrow> Blocked)
      | Err e \<Rightarrow> Err (''efivars/get('' @ name @ ''): load: '' @ e)
      | Panic p \<Rightarrow> Panic p
      | Blocked \<Rightarrow> Blocked)"

text \<open>Reading a load option never panics, and what was read has a text.\<close>

lemma reads_paths: "reads DevicePaths_ReadFrom (list_all has_text)"
  unfolding reads_def
proof
  fix s
  show "read_ok (list_all has_text) s (DevicePaths_ReadFrom s)"
  proof (induction s rule: DevicePaths_ReadFrom.induct)
    case (1 s)
    show ?case
    proof (cases rule: reads_cases [OF reads_node, of s])
      case (1 d t)
      show ?thesis
      proof (cases "quits (GetHead d)")
        case True
        with 1 show ?thesis by (simp add: DevicePaths_ReadFrom.simps [of s])
      next
        case False
        from "1.IH" [OF 1(1) False] 1 False show ?thesis
          by (cases rule: read_ok.cases [of "(list_all has_text, t, DevicePaths_ReadFrom t)"])
            (auto simp: DevicePaths_ReadFrom.simps [of s] intro: suffix_order.trans)
      qed
    next
      case (2 e t)
      then show ?thesis by (simp add: DevicePaths_ReadFrom.simps [of s])
    qed
  qed
qed

lemma reads_option: "reads LoadOption_ReadFrom (\<lambda>lo. even (length (lo_Description lo)) \<and> list_all has_text (lo_FilePathList lo))"
  unfolding LoadOption_ReadFrom_def
  by (intro reads_bind [OF reads_prefix_err [OF reads_ReadFields]] reads_bind [OF reads_prefix_err [OF reads_utf16]]
      reads_bind [where Q = "list_all has_text"] reads_if reads_prefix_err reads_limited reads_paths
      reads_ret reads_bind [OF reads_rest]) simp_all

end
