(* ===== verification/Load_Option_Correct.thy ===== *)
theory Load_Option_Correct
  imports Load_Option Power_Ctl_Correct
begin

text \<open>
  What firmware stores is read back: an encoder of nodes, paths and load options as the UEFI
  specification lays them out, and the proof that \<open>Load_Option\<close> decodes it, with the bytes of a
  node that its parser does not know skipped.
\<close>

section \<open>The contract of an encoding\<close>

text \<open>
  A reader takes exactly the bytes of an encoded value, whatever follows.  Then encodings are
  unambiguous, and a limit that contains them makes no difference.
\<close>

locale byte_codec =
  fixes rd :: "(u8 list, 'a) io"
    and put :: "'e \<Rightarrow> u8 list"
    and val :: "'e \<Rightarrow> 'a"
    and ok :: "'e \<Rightarrow> bool"
  assumes rd_put: "ok x \<Longrightarrow> rd (put x @ rest) = (Ok (val x), rest)"
begin

lemma prefix_free: "ok x \<Longrightarrow> ok y \<Longrightarrow> prefix (put x) (put y) \<Longrightarrow> val x = val y \<and> put x = put y"
proof -
  assume ok: "ok x" "ok y" and "prefix (put x) (put y)"
  then obtain zs where zs: "put y = put x @ zs" by (auto simp: prefix_def)
  have 1: "rd (put y) = (Ok (val y), [])" using rd_put [OF ok(2), of "[]"] by simp
  have 2: "rd (put y) = (Ok (val x), zs)" unfolding zs by (rule rd_put [OF ok(1)])
  from 1 have "val x = val y \<and> zs = []" unfolding 2 by auto
  then show ?thesis unfolding zs by simp
qed

lemma unambiguous: "ok x \<Longrightarrow> ok y \<Longrightarrow> put x = put y \<Longrightarrow> val x = val y"
  using prefix_free [of x y] by simp

lemma rd_limited:
  assumes "ok x" and "length (put x) \<le> n"
  shows "limited n rd (put x @ rest) = (Ok (val x), rest)"
  using assms by (simp add: limited_def rd_put)

lemma rd_prefix_err: "ok x \<Longrightarrow> prefix_err msg rd (put x @ rest) = (Ok (val x), rest)"
  by (simp add: prefix_err_def rd_put)

end

section \<open>Fields and strings\<close>

lemma w_simps [simp]:
  "w8 [b] = b" "w16 (put_u16 v16) = v16" "w32 (put_u32 v32) = v32" "w64 (put_u64 v64) = v64"
  by (simp_all add: w8_def w16_def w32_def w64_def put_u16_def put_u32_def put_u64_def
      le_put_inverse_16 le_put_inverse_32 le_put_inverse_64)

lemmas put_lengths [simp] = f16.length_put f32.length_put f64.length_put

lemma read_fields_put: "map length bs = ns \<Longrightarrow> read_fields i ns (concat bs @ rest) = (Ok bs, rest)"
  by (induction ns arbitrary: bs i) (auto simp: read_full_def prefix_err_def bind_io_def)

lemma ReadFields_put: "ReadFields (map length bs) (concat bs @ rest) = (Ok bs, rest)"
  by (simp add: ReadFields_def read_fields_put)

text \<open>Strings that end at their first zero.\<close>

fun asciiz :: "u8 list \<Rightarrow> bool" where
  "asciiz [] \<longleftrightarrow> False"
| "asciiz (a # s) \<longleftrightarrow> (if a = 0 then s = [] else asciiz s)"

fun utf16z :: "u8 list \<Rightarrow> bool" where
  "utf16z [] \<longleftrightarrow> False"
| "utf16z [a] \<longleftrightarrow> False"
| "utf16z (a # b # s) \<longleftrightarrow> (if a = 0 \<and> b = 0 then s = [] else utf16z s)"

interpretation ascii_codec: byte_codec ReadASCIINullBytes id id asciiz
proof
  fix x rest
  show "asciiz x \<Longrightarrow> ReadASCIINullBytes (id x @ rest) = (Ok (id x), rest)"
    by (induction x) (auto split: if_splits)
qed

interpretation utf16_codec: byte_codec ReadUTF16NullBytes id id utf16z
proof
  fix x rest
  show "utf16z x \<Longrightarrow> ReadUTF16NullBytes (id x @ rest) = (Ok (id x), rest)"
    by (induction x rule: utf16z.induct) (auto split: if_splits)
qed

section \<open>Nodes\<close>

definition put_head :: "Head \<Rightarrow> u8 list" where
  "put_head h = dh_Type h # dh_SubType h # put_u16 (dh_Length h)"

fun node_body :: "DevicePath \<Rightarrow> u8 list" where
  "node_body (EndOfPath h) = []"
| "node_body (UnrecognizedDevicePath h data) = data"
| "node_body (PCIDevicePath h f d) = [f, d]"
| "node_body (ACPIPath h hid uid) = put_u32 hid @ put_u32 uid"
| "node_body (BIOSBootSpecPath h t flag desc) = put_u16 t @ put_u16 flag @ desc"
| "node_body (HardDriveMediaDevicePath h num start sz sig fmt st) =
     put_u32 num @ put_u64 start @ put_u64 sz @ sig @ [fmt, st]"
| "node_body (CDROMDevicePath h boot start sz) = put_u32 boot @ put_u64 start @ put_u64 sz"
| "node_body (VendorMediaDevicePath h guid data) = guid @ data"
| "node_body (FilePathDevicePath h path) = path"
| "node_body (MACAddressDevicePath h mac t) = mac @ [t]"
| "node_body (IPv4DevicePath h l r lp rp) = l @ r @ put_u16 lp @ put_u16 rp"
| "node_body (SATADevicePath h port mul lun) = put_u16 port @ put_u16 mul @ put_u16 lun"
| "node_body (URIDevicePath h uri) = uri"

definition is_head :: "u8 \<Rightarrow> u8 \<Rightarrow> Head \<Rightarrow> bool" where
  "is_head t st h \<longleftrightarrow> dh_Type h = t \<and> dh_SubType h = st"

definition recognized :: "Head \<Rightarrow> bool" where
  "recognized h \<longleftrightarrow> dh_Type h = 0x7F
     \<or> (dh_Type h, dh_SubType h) \<in> {(1, 1), (2, 1), (3, 10), (3, 11), (3, 12), (3, 18), (4, 1), (4, 2), (4, 3), (4, 4), (5, 1)}"

text \<open>
  The kind of a node is that of its head and its fields have their widths.  The heads are those
  of the code: the specification gives sub-type 10 of a message to vendor nodes and 24 to URIs.
\<close>

fun shaped :: "DevicePath \<Rightarrow> bool" where
  "shaped (EndOfPath h) \<longleftrightarrow> dh_Type h = 0x7F"
| "shaped (UnrecognizedDevicePath h data) \<longleftrightarrow> \<not> recognized h"
| "shaped (PCIDevicePath h f d) \<longleftrightarrow> is_head 1 1 h"
| "shaped (ACPIPath h hid uid) \<longleftrightarrow> is_head 2 1 h"
| "shaped (BIOSBootSpecPath h t flag desc) \<longleftrightarrow> is_head 5 1 h \<and> asciiz desc"
| "shaped (HardDriveMediaDevicePath h num start sz sig fmt st) \<longleftrightarrow> is_head 4 1 h \<and> length sig = 16"
| "shaped (CDROMDevicePath h boot start sz) \<longleftrightarrow> is_head 4 2 h"
| "shaped (VendorMediaDevicePath h guid data) \<longleftrightarrow> is_head 4 3 h \<and> length guid = 16"
| "shaped (FilePathDevicePath h path) \<longleftrightarrow> is_head 4 4 h \<and> utf16z path"
| "shaped (MACAddressDevicePath h mac t) \<longleftrightarrow> is_head 3 11 h \<and> length mac = 32"
| "shaped (IPv4DevicePath h l r lp rp) \<longleftrightarrow> is_head 3 12 h \<and> length l = 4 \<and> length r = 4"
| "shaped (SATADevicePath h port mul lun) \<longleftrightarrow> is_head 3 18 h"
| "shaped (URIDevicePath h uri) \<longleftrightarrow> is_head 3 10 h \<and> unat (dh_Length h) = length uri + 4"

text \<open>The kinds whose last field takes whatever the length of the node leaves.\<close>

fun open_ended :: "DevicePath \<Rightarrow> bool" where
  "open_ended (UnrecognizedDevicePath h data) \<longleftrightarrow> True"
| "open_ended (VendorMediaDevicePath h guid data) \<longleftrightarrow> True"
| "open_ended d \<longleftrightarrow> False"

text \<open>A stored node: its value and the bytes behind the fields that are known.\<close>

type_synonym stored = "DevicePath \<times> u8 list"

definition put_node :: "stored \<Rightarrow> u8 list" where
  "put_node n = put_head (GetHead (fst n)) @ node_body (fst n) @ snd n"

definition node_ok :: "stored \<Rightarrow> bool" where
  "node_ok n \<longleftrightarrow> shaped (fst n) \<and> (open_ended (fst n) \<longrightarrow> snd n = [])
     \<and> unat (dh_Length (GetHead (fst n))) = length (put_node n)"

lemma length_put_node: "length (put_node n) = 4 + length (node_body (fst n)) + length (snd n)"
  by (simp add: put_node_def put_head_def)

lemma Head_put: "Head_ReadFrom (put_head h @ rest) = (Ok h, rest)"
  by (simp add: Head_ReadFrom_def put_head_def read_full_def prefix_err_def bind_io_def)

interpretation head_codec: byte_codec Head_ReadFrom put_head id "\<lambda>_. True"
  by unfold_locales (simp add: Head_put)

text \<open>The parser of a kind, on the bytes inside the limit.\<close>

definition kind_parser :: "Head \<Rightarrow> (u8 list, DevicePath) io" where
  "kind_parser h =
     (if dh_Type h = 1 then ParseHardwareDevicePath h else if dh_Type h = 2 then ParseACPIDevicePath h
      else if dh_Type h = 3 then ParseMessagingDevicePath h else if dh_Type h = 4 then ParseMediaDevicePath h
      else if dh_Type h = 5 then ParseBIOSDevicePath h else Unrecognized_ReadFrom h)"

lemma read_body_kind: "dh_Type h \<noteq> 0x7F \<Longrightarrow> read_body h = limited (unat (dh_Length h - 4)) (kind_parser h)"
  by (simp add: read_body_def kind_parser_def)

lemmas sub_types = URIDeviceSubType_def MACAddressSubType_def IPv4DeviceSubType_def SATADeviceSubType_def

lemma kind_simps:
  "is_head 1 1 h \<Longrightarrow> kind_parser h = PCI_ReadFrom h" "is_head 2 1 h \<Longrightarrow> kind_parser h = ACPI_ReadFrom h"
  "is_head 5 1 h \<Longrightarrow> kind_parser h = BIOS_ReadFrom h" "is_head 3 11 h \<Longrightarrow> kind_parser h = MAC_ReadFrom h"
  "is_head 3 12 h \<Longrightarrow> kind_parser h = IPv4_ReadFrom h" "is_head 3 18 h \<Longrightarrow> kind_parser h = SATA_ReadFrom h"
  "is_head 3 10 h \<Longrightarrow> kind_parser h = URI_ReadFrom h"
  by (simp_all add: kind_parser_def is_head_def node_parsers sub_types)

lemma media_simps:
  assumes "is_head 4 st h"
  shows "kind_parser h = prefix_err (''efi/devicepath: type '' @ num_str 10 4 @ ''-'' @ num_str 10 (unat st) @ '': '')
     (if st = 1 then HD_ReadFrom h else if st = 2 then CDROM_ReadFrom h else if st = 3 then VendorMedia_ReadFrom h
      else if st = 4 then FilePath_ReadFrom h else Unrecognized_ReadFrom h)"
  using assms by (simp add: kind_parser_def is_head_def ParseMediaDevicePath_def)

lemma unat_minus_4: "4 \<le> unat (l :: u16) \<Longrightarrow> unat (l - 4) = unat l - 4"
  by (simp add: unat_sub word_le_nat_alt)

text \<open>A parser takes the fields of its kind and leaves the rest of the limit.\<close>

lemma kind_put:
  assumes "shaped d" and "dh_Type (GetHead d) \<noteq> 0x7F" and "open_ended d \<longrightarrow> pad = []"
  shows "kind_parser (GetHead d) (node_body d @ pad) = (Ok d, pad)"
proof (cases d)
  case (EndOfPath h)
  with assms show ?thesis by simp
next
  case (UnrecognizedDevicePath h data)
  with assms have "\<not> recognized h" "pad = []" by simp_all
  then show ?thesis
    using UnrecognizedDevicePath
    by (auto simp: kind_parser_def recognized_def node_parsers sub_types prefix_err_def Unrecognized_ReadFrom_def
      bind_io_def read_rest_def split: if_splits)
next
  case (PCIDevicePath h f e)
  with assms show ?thesis using ReadFields_put [of "[[f], [e]]" pad] by (simp add: kind_simps node_readers bind_io_def)
next
  case (ACPIPath h hid uid)
  with assms show ?thesis
    using ReadFields_put [of "[put_u32 hid, put_u32 uid]" pad] by (simp add: kind_simps node_readers bind_io_def)
next
  case (BIOSBootSpecPath h t flag desc)
  with assms show ?thesis
    using ReadFields_put [of "[put_u16 t, put_u16 flag]" "desc @ pad"] ascii_codec.rd_put [of desc pad]
    by (simp add: kind_simps node_readers bind_io_def)
next
  case (HardDriveMediaDevicePath h num start sz sig fmt st)
  with assms have "is_head 4 1 h" "length sig = 16" by simp_all
  then show ?thesis
    using HardDriveMediaDevicePath
      ReadFields_put [of "[put_u32 num, put_u64 start, put_u64 sz, sig, [fmt], [st]]" pad]
    by (simp add: media_simps node_readers bind_io_def prefix_err_def)
next
  case (CDROMDevicePath h boot start sz)
  with assms have "is_head 4 2 h" by simp
  then show ?thesis
    using CDROMDevicePath ReadFields_put [of "[put_u32 boot, put_u64 start, put_u64 sz]" pad]
    by (simp add: media_simps node_readers bind_io_def prefix_err_def)
next
  case (VendorMediaDevicePath h guid data)
  with assms have "is_head 4 3 h" "length guid = 16" "pad = []" by simp_all
  then show ?thesis
    using VendorMediaDevicePath ReadFields_put [of "[guid]" data]
    by (simp add: media_simps node_readers bind_io_def prefix_err_def read_rest_def)
next
  case (FilePathDevicePath h path)
  with assms have "is_head 4 4 h" "utf16z path" by simp_all
  then show ?thesis
    using FilePathDevicePath utf16_codec.rd_put [of path pad]
    by (simp add: media_simps node_readers bind_io_def prefix_err_def)
next
  case (MACAddressDevicePath h mac t)
  with assms show ?thesis
    using ReadFields_put [of "[mac, [t]]" pad] by (simp add: kind_simps node_readers bind_io_def)
next
  case (IPv4DevicePath h l r lp rp)
  with assms show ?thesis
    using ReadFields_put [of "[l, r, put_u16 lp, put_u16 rp]" pad] by (simp add: kind_simps node_readers bind_io_def)
next
  case (SATADevicePath h port mul lun)
  with assms show ?thesis
    using ReadFields_put [of "[put_u16 port, put_u16 mul, put_u16 lun]" pad] by (simp add: kind_simps node_readers bind_io_def)
next
  case (URIDevicePath h uri)
  with assms have h: "is_head 3 10 h" and l: "unat (dh_Length h) = length uri + 4" by simp_all
  then have "unat (dh_Length h - 4) = length uri" using unat_minus_4 [of "dh_Length h"] by simp
  with h show ?thesis
    using URIDevicePath ReadFields_put [of "[uri]" pad] by (simp add: kind_simps node_readers bind_io_def)
qed

lemma body_put:
  assumes "node_ok (d, pad)"
  shows "read_body (GetHead d) (node_body d @ pad @ rest) = (Ok d, pad @ rest)"
proof (cases "dh_Type (GetHead d) = 0x7F")
  case True
  with assms show ?thesis
    by (cases d) (auto simp: node_ok_def read_body_def is_head_def recognized_def)
next
  case False
  let ?n = "length (node_body d) + length pad"
  from assms have "unat (dh_Length (GetHead d)) = 4 + ?n" by (simp add: node_ok_def length_put_node)
  then have "unat (dh_Length (GetHead d) - 4) = ?n" using unat_minus_4 [of "dh_Length (GetHead d)"] by simp
  moreover from assms False have "kind_parser (GetHead d) (node_body d @ pad) = (Ok d, pad)"
    by (intro kind_put) (simp_all add: node_ok_def)
  ultimately show ?thesis by (simp add: read_body_kind False limited_def)
qed

lemma node_put:
  assumes "node_ok n"
  shows "read_node (put_node n @ rest) = (Ok (fst n), rest)"
proof -
  obtain d pad where n: "n = (d, pad)" by (cases n)
  have len: "unat (dh_Length (GetHead d)) = 4 + length (node_body d) + length pad"
    using assms by (simp add: n node_ok_def length_put_node)
  have "prefix_err ''head: '' Head_ReadFrom (put_node n @ rest) = (Ok (GetHead d), node_body d @ pad @ rest)"
    using head_codec.rd_prefix_err [where x = "GetHead d" and msg = "''head: ''" and rest = "node_body d @ pad @ rest"] by (simp add: n put_node_def)
  moreover have "read_body (GetHead d) (node_body d @ pad @ rest) = (Ok d, pad @ rest)"
    using assms n body_put by simp
  moreover have "skip_rest (length (put_node n @ rest)) (GetHead d) d (pad @ rest) = (Ok d, rest)"
    by (simp add: n length_put_node skip_rest_def len discard_def bind_io_def prefix_err_def Let_def)
  ultimately show ?thesis by (simp add: read_node_def n)
qed

interpretation node_codec: byte_codec read_node put_node fst node_ok
  by unfold_locales (rule node_put)

section \<open>Paths and load options\<close>

definition put_path :: "stored list \<Rightarrow> u8 list" where
  "put_path ns = concat (map put_node ns)"

text \<open>Well-formed nodes of which the last one, and no other, ends the entire path.\<close>

fun path_ok :: "stored list \<Rightarrow> bool" where
  "path_ok [] \<longleftrightarrow> False"
| "path_ok (n # ns) \<longleftrightarrow> node_ok n \<and> (if quits (GetHead (fst n)) then ns = [] else path_ok ns)"

lemma path_put: "path_ok ns \<Longrightarrow> DevicePaths_ReadFrom (put_path ns @ rest) = (Ok (map fst ns), rest)"
  by (induction ns) (auto simp: DevicePaths_ReadFrom.simps [of "put_path _ @ _"] put_path_def node_put
      DevicePaths_ReadFrom.simps [of "put_node _ @ _"] split: if_splits)

interpretation path_codec: byte_codec DevicePaths_ReadFrom put_path "map fst" path_ok
  by unfold_locales (rule path_put)

lemma path_size: "path_ok ns \<Longrightarrow> 4 \<le> length (put_path ns)"
  by (cases ns) (simp_all add: put_path_def length_put_node)

definition put_option :: "u32 \<Rightarrow> u16 \<Rightarrow> u8 list \<Rightarrow> u8 list \<Rightarrow> u8 list" where
  "put_option attr len desc rest = put_u32 attr @ put_u16 len @ desc @ rest"

lemma option_start:
  "prefix_err msg (ReadFields [4, 2]) (put_option attr len desc rest) = (Ok [put_u32 attr, put_u16 len], desc @ rest)"
  using ReadFields_put [of "[put_u32 attr, put_u16 len]" "desc @ rest"] by (simp add: put_option_def prefix_err_def)

text \<open>
  A load option is read up to the end of its first path: what the announced length covers
  beyond it, such as further paths of the list, becomes optional data.
\<close>

lemma option_put:
  assumes "utf16z desc" and "path_ok ns" and "length (put_path ns) \<le> unat len"
  shows "LoadOption_ReadFrom (put_option attr len desc (put_path ns @ data)) =
    (Ok \<lparr>lo_Attributes = attr, lo_FilePathListLength = len, lo_Description = desc,
         lo_FilePathList = map fst ns, lo_OptionalData = data\<rparr>, [])"
proof -
  have "0 < len" using path_size [OF assms(2)] assms(3) by (simp add: word_less_nat_alt)
  moreover have "prefix_err msg ReadUTF16NullBytes (desc @ s) = (Ok desc, s)" for msg s
    using utf16_codec.rd_prefix_err [OF assms(1)] by simp
  moreover have "prefix_err msg (limited (unat len) DevicePaths_ReadFrom) (put_path ns @ data) = (Ok (map fst ns), data)" for msg
    using path_codec.rd_limited [OF assms(2,3)] by (simp add: prefix_err_def)
  ultimately show ?thesis
    by (simp add: LoadOption_ReadFrom_def option_start bind_io_def read_rest_def)
qed

lemma option_put_no_path:
  assumes "utf16z desc"
  shows "LoadOption_ReadFrom (put_option attr 0 desc data) =
    (Ok \<lparr>lo_Attributes = attr, lo_FilePathListLength = 0, lo_Description = desc,
         lo_FilePathList = [], lo_OptionalData = data\<rparr>, [])"
  using utf16_codec.rd_prefix_err [OF assms]
  by (simp add: LoadOption_ReadFrom_def option_start bind_io_def read_rest_def)

section \<open>Descriptions\<close>

text \<open>The stored form of a text: its units and a zero unit.\<close>

definition put_desc :: "nat list \<Rightarrow> u8 list" where
  "put_desc cs = concat (map put_u16 (concat (map utf16_units cs))) @ put_u16 0"

lemma put_u16_bytes: "put_u16 u = [word_of_nat (unat u), word_of_nat (unat u div 256)]"
  by (simp add: put_u16_def numeral_2_eq_2)

lemma put_u16_zero: "put_u16 u = [a, b] \<Longrightarrow> (a = 0 \<and> b = 0) = (u = 0)"
  using w_simps(2) [of u] by (auto simp: w16_def put_u16_bytes)

lemma utf16z_units: "0 \<notin> set us \<Longrightarrow> utf16z (concat (map put_u16 us) @ put_u16 0)"
proof (induction us)
  case Nil
  then show ?case by (simp add: put_u16_bytes)
next
  case (Cons u us)
  obtain a b where ab: "put_u16 u = [a, b]" by (simp add: put_u16_bytes)
  with Cons put_u16_zero [OF ab] show ?case by auto
qed

lemma units_of_put: "units_of (concat (map put_u16 us)) = Ok us"
proof (induction us)
  case (Cons u us)
  obtain a b where ab: "put_u16 u = [a, b]" by (simp add: put_u16_bytes)
  with Cons show ?case using w_simps(2) [of u] by (simp add: w16_def)
qed simp

lemma char_of_nul: "char_of n = CHR 0x00 \<longleftrightarrow> n mod 256 = (0::nat)"
proof -
  have "char_of n = CHR 0x00 \<longleftrightarrow> (of_char (char_of n) :: nat) = of_char (CHR 0x00)"
    by (simp only: of_char_eq_iff)
  then show ?thesis by simp
qed

lemma utf8_no_nul:
  assumes "0 < r"
  shows "CHR 0x00 \<notin> set (utf8_rune r)"
proof -
  have low: "0 < (0x80 + k mod 64) mod (256::nat)" for k by (simp add: mod_less_divisor)
  have 2: "0 < (0xC0 + r div 64) mod 256" if "r < 0x800" using that by simp
  have 3: "0 < (0xE0 + r div 4096) mod 256" if "r < 0x10000" using that by simp
  have 4: "0 < (0xF0 + r div 262144) mod 256" if "r \<le> 0x10FFFF" using that by simp
  have nul: "CHR 0x00 \<noteq> char_of n" if "0 < n mod 256" for n :: nat
    using that char_of_nul [of n] by (metis less_numeral_extra(3))
  show ?thesis
    using assms nul [of r] nul [OF 2] nul [OF 3] nul [OF 4] nul [OF low [of r]] nul [OF low [of "r div 64"]]
      nul [OF low [of "r div 4096"]]
    by (simp add: utf8_rune_def)
qed

lemma desc_text:
  assumes "\<forall>r \<in> set cs. scalar r \<and> 0 < r"
  shows "UTF16ZBytesToString (put_desc cs) = Ok (runes_str cs)" and "utf16z (put_desc cs)"
proof -
  have "utf16_decode (concat (map utf16_units (cs @ [0]))) = cs @ [0]"
    by (rule utf16_decode_text) (use assms in \<open>auto simp: scalar_def\<close>)
  then have d: "utf16_decode (concat (map utf16_units cs) @ [0]) = cs @ [0]"
    by (simp add: utf16_units_def)
  have u: "units_of (put_desc cs) = Ok (concat (map utf16_units cs) @ [0])"
    using units_of_put [of "concat (map utf16_units cs) @ [0]"] by (simp add: put_desc_def)
  have "takeWhile (\<lambda>c. c \<noteq> CHR 0x00) (runes_str cs @ runes_str [0]) = runes_str cs @ takeWhile (\<lambda>c. c \<noteq> CHR 0x00) (runes_str [0])"
    by (rule takeWhile_append2) (use assms utf8_no_nul in \<open>auto simp: runes_str_def\<close>)
  then have "takeWhile (\<lambda>c. c \<noteq> CHR 0x00) (runes_str (cs @ [0])) = runes_str cs"
    by (simp add: runes_str_def utf8_rune_def char_of_nul)
  with u d show "UTF16ZBytesToString (put_desc cs) = Ok (runes_str cs)"
    by (simp add: UTF16ZBytesToString_def UTF16BytesToString_def)
  show "utf16z (put_desc cs)"
    unfolding put_desc_def by (rule utf16z_units) (use assms utf16_units_nonzero in auto)
qed

section \<open>A stored boot entry\<close>

lemma stored_entry:
  assumes "fs (getFileName (boot_option_name i)) =
      Some (put_u32 attrs @ put_option attr len desc (put_path ns @ data))"
    and "utf16z desc" and "path_ok ns" and "length (put_path ns) \<le> unat len"
    and "length (put_option attr len desc (put_path ns @ data)) \<le> 2048"
  shows "Boot_Get (FsContext fs) i = Ok (attrs, \<lparr>lo_Attributes = attr, lo_FilePathListLength = len,
      lo_Description = desc, lo_FilePathList = map fst ns, lo_OptionalData = data\<rparr>)"
  using ReadAll_exact [where fs = fs and name = "boot_option_name i" and a = attrs
      and data = "put_option attr len desc (put_path ns @ data)", OF assms(1,5)]
  by (simp add: Boot_Get_def option_put [OF assms(2-4)])

text \<open>
  C35: a boot entry of at most 2048 bytes is read back by the vendored decoder: attributes,
  the nodes of its first path with the fields the decoder keeps, and as optional data all
  that follows this path, further paths of the entry included; its description is the stored
  text, and the service, which scans the same bytes with a loop of its own, finds the same
  description.  The nodes are stored in the decoder's own kinds and sub-types (a URI as
  sub-type 10, where the specification has 24), each with the bytes that follow its kept
  fields up to its length; these are skipped.
\<close>

theorem boot_entry_roundtrip:
  assumes "fs (getFileName (boot_option_name i)) =
      Some (put_u32 attrs @ put_option attr len (put_desc cs) (put_path ns @ data))"
    and "\<forall>r \<in> set cs. scalar r \<and> 0 < r" and "path_ok ns" and "length (put_path ns) \<le> unat len"
    and "length (put_option attr len (put_desc cs) (put_path ns @ data)) \<le> 2048"
  shows "\<exists>lo. Boot_Get (FsContext fs) i = Ok (attrs, lo) \<and> DescriptionString lo = Ok (runes_str cs)
    \<and> lo_Attributes lo = attr \<and> lo_FilePathList lo = map fst ns \<and> lo_OptionalData lo = data
    \<and> getBootDesc (FsContext fs) (boot_option_name i) = DescriptionString lo"
proof -
  have get: "Boot_Get (FsContext fs) i = Ok (attrs, \<lparr>lo_Attributes = attr, lo_FilePathListLength = len,
      lo_Description = put_desc cs, lo_FilePathList = map fst ns, lo_OptionalData = data\<rparr>)"
    by (rule stored_entry) (use assms desc_text(2) [OF assms(2)] in simp_all)
  have nz: "0 \<notin> set (concat (map utf16_units cs))" using assms(2) utf16_units_nonzero by auto
  have stored: "fs (getFileName (boot_option_name i)) = Some (put_u32 attrs @ put_u32 attr @ put_u16 len
      @ concat (map put_u16 (concat (map utf16_units cs))) @ put_u16 0 @ put_path ns @ data)"
    using assms(1) by (simp add: put_option_def put_desc_def)
  have "put_path ns @ data \<noteq> []" using path_size [OF assms(3)] by auto
  with stored nz have "getBootDesc (FsContext fs) (boot_option_name i)
      = Ok (runes_str (utf16_decode (concat (map utf16_units cs))))"
    by (intro getBootDesc_option [where a = attrs and attr = attr and plen = len and rest = "put_path ns @ data"])
  then have "getBootDesc (FsContext fs) (boot_option_name i) = Ok (runes_str cs)"
    using assms(2) by (simp add: utf16_decode_text)
  with get desc_text(1) [OF assms(2)] show ?thesis by (auto simp: DescriptionString_def)
qed

definition sample_nodes :: "stored list" where
  "sample_nodes =
     [(PCIDevicePath \<lparr>dh_Type = 1, dh_SubType = 1, dh_Length = 6\<rparr> 0 3, []),
      (SATADevicePath \<lparr>dh_Type = 3, dh_SubType = 18, dh_Length = 12\<rparr> 1 0xFFFF 0, [0, 0]),
      (EndOfPath \<lparr>dh_Type = 0x7F, dh_SubType = 0xFF, dh_Length = 4\<rparr>, [])]"

lemma sample_nodes_ok: "path_ok sample_nodes" "length (put_path sample_nodes) = 22"
  by (simp_all add: sample_nodes_def node_ok_def put_path_def length_put_node is_head_def quits_def)

definition sample_entry :: "u8 list" where
  "sample_entry = put_option 1 22 (put_desc [0x1F600, 65]) (put_path sample_nodes @ [9])"

lemma sample_entry_size: "length sample_entry \<le> 2048"
  using sample_nodes_ok(2) by (simp add: sample_entry_def put_option_def put_desc_def utf16_units_def)

lemma sample_texts: "map DevicePath_Text (map fst sample_nodes) =
    [Ok ''Pci(0,3)'', Ok ''SATA Port: 1 PortMul: 65535 LUN: 0'', Ok []]"
  by (simp add: sample_nodes_def PCI_Text_def SATA_Text_def num_str.simps digit_char_def char_of_def bit_0)

theorem boot_entry_roundtrip_witness:
  "\<exists>lo. Boot_Get (FsContext [getFileName (boot_option_name 10) \<mapsto> put_u32 7 @ sample_entry]) 10 = Ok (7, lo)
    \<and> map DevicePath_Text (lo_FilePathList lo) =
        [Ok ''Pci(0,3)'', Ok ''SATA Port: 1 PortMul: 65535 LUN: 0'', Ok []]"
proof -
  let ?fs = "[getFileName (boot_option_name 10) \<mapsto> put_u32 7 @ sample_entry]"
  have "\<exists>lo. Boot_Get (FsContext ?fs) 10 = Ok (7, lo) \<and> DescriptionString lo = Ok (runes_str [0x1F600, 65])
    \<and> lo_Attributes lo = 1 \<and> lo_FilePathList lo = map fst sample_nodes \<and> lo_OptionalData lo = [9]
    \<and> getBootDesc (FsContext ?fs) (boot_option_name 10) = DescriptionString lo"
    by (rule boot_entry_roundtrip [where len = 22 and data = "[9]" and ns = sample_nodes])
      (use sample_entry_size in \<open>simp_all add: sample_entry_def scalar_def sample_nodes_ok\<close>)
  with sample_texts show ?thesis by metis
qed

section \<open>Entries that are lost or misread\<close>

text \<open>The node of a URI is not recognised; it is printed as bytes.\<close>

lemma uri_printed_as_bytes:
  fixes uri :: "u8 list"
  defines "h \<equiv> \<lparr>dh_Type = 3, dh_SubType = 24, dh_Length = word_of_nat (length uri + 4)\<rparr>"
  assumes "length uri + 4 < 65536"
  shows "read_node (put_node (UnrecognizedDevicePath h uri, []) @ rest) = (Ok (UnrecognizedDevicePath h uri), rest)"
    and "DevicePath_Text (UnrecognizedDevicePath h uri) = Ok (''Path(3,24,'' @ EncodeBigEndian uri @ '')'')"
proof -
  have "unat (word_of_nat (length uri + 4) :: u16) = length uri + 4"
    by (subst unat_of_nat) (use assms(2) in simp)
  then have "node_ok (UnrecognizedDevicePath h uri, [])"
    by (simp add: node_ok_def length_put_node recognized_def h_def)
  from node_put [OF this, of rest]
  show "read_node (put_node (UnrecognizedDevicePath h uri, []) @ rest) = (Ok (UnrecognizedDevicePath h uri), rest)"
    by simp
  show "DevicePath_Text (UnrecognizedDevicePath h uri) = Ok (''Path(3,24,'' @ EncodeBigEndian uri @ '')'')"
    by (simp add: h_def Unrecognized_Text_def num_str.simps digit_char_def char_of_def bit_0)
qed

text \<open>A path without an end is refused, however many nodes it has.\<close>

lemma unterminated_refused:
  assumes "\<forall>n \<in> set ns. node_ok n \<and> \<not> quits (GetHead (fst n))"
  shows "fst (DevicePaths_ReadFrom (put_path ns)) = Err ''head: field #0: EOF''"
  using assms
proof (induction ns)
  case Nil
  show ?case
    by (simp add: put_path_def DevicePaths_ReadFrom.simps [of "[]"] read_node_def Head_ReadFrom_def read_full_def
        prefix_err_def bind_io_def)
next
  case (Cons n ns)
  then have "read_node (put_node n @ put_path ns) = (Ok (fst n), put_path ns)" "\<not> quits (GetHead (fst n))"
    by (simp_all add: node_put)
  then have "DevicePaths_ReadFrom (put_path (n # ns)) = bind_io DevicePaths_ReadFrom (\<lambda>ds. ret (fst n # ds)) (put_path ns)"
    by (simp add: put_path_def DevicePaths_ReadFrom.simps [of "put_node n @ _"])
  with Cons show ?case by (cases "DevicePaths_ReadFrom (put_path ns)") simp
qed

text \<open>
  A node of an unknown kind that announces less than its own head takes all bytes up to the
  end of the list, and the path is refused.
\<close>

lemma short_length_swallows:
  assumes "dh_Type h \<notin> {1, 2, 3, 4, 5, 0x7F}" and "unat (dh_Length h) < 4" and "length s \<le> 65532"
  shows "read_node (put_head h @ s) = (Ok (UnrecognizedDevicePath h s), [])"
    and "fst (DevicePaths_ReadFrom (put_head h @ s)) = Err ''head: field #0: EOF''"
proof -
  have lim: "65532 \<le> unat (dh_Length h - 4)"
    using assms(2) unat_sub_if_size [of "dh_Length h" 4] by (simp add: word_le_nat_alt word_size)
  then have "read_body h s = (Ok (UnrecognizedDevicePath h s), [])"
    using assms(1,3) by (simp add: read_body_def limited_def Unrecognized_ReadFrom_def read_rest_def bind_io_def)
  moreover have "skip_rest (length (put_head h @ s)) h d [] = (Ok d, [])" for d
    using assms(2) by (simp add: skip_rest_def put_head_def)
  moreover have "prefix_err ''head: '' Head_ReadFrom (put_head h @ s) = (Ok h, s)"
    using head_codec.rd_prefix_err [where x = h and msg = "''head: ''" and rest = s] by simp
  ultimately show node: "read_node (put_head h @ s) = (Ok (UnrecognizedDevicePath h s), [])"
    by (simp add: read_node_def)
  have "\<not> quits h" using assms(1) by (auto simp: quits_def)
  with node show "fst (DevicePaths_ReadFrom (put_head h @ s)) = Err ''head: field #0: EOF''"
    using unterminated_refused [of "[]"]
    by (cases "DevicePaths_ReadFrom []") (simp add: DevicePaths_ReadFrom.simps [of "put_head h @ s"] put_path_def)
qed

end
