(* ===== verification/Inspector.thy ===== *)
theory Inspector
  imports Agent_Start_Correct Dev_Path_Correct Load_Option_Correct
begin

text \<open>
  The program of \<open>prog_wim/main.go\<close> around its parser: \<open>main\<close>, which prints what the vendored
  package decodes (\<open>Load_Option\<close>), and the two helpers it repeats from the service.
\<close>

definition inspector_getEnvVar :: "efi_context \<Rightarrow> string \<Rightarrow> u8 list res" where
  "inspector_getEnvVar c name =
     (case ctx_GetSizeHint c name of
        Inl err \<Rightarrow> Ok []
      | Inr sz \<Rightarrow>
          (if sz < 0 then Panic (Explicit ''makeslice: len out of range'')
           else (let (attrs, n, out, err) = ctx_Get c name (replicate (nat sz) 0) in Ok out)))"

lemma inspector_getEnvVar_same: "inspector_getEnvVar = getEnvVar"
  by (intro ext) (auto simp: inspector_getEnvVar_def getEnvVar_def split: sum.split prod.split)

definition inspector_EncodeUUID :: "u8 list \<Rightarrow> u8 list res" where
  "inspector_EncodeUUID data =
     bind_res (copy_at 0 data (replicate 16 0)) (\<lambda>ndata.
     bind_res (be_uint 4 data) (\<lambda>g1.
     bind_res (copy_at 0 (le_put 4 g1) ndata) (\<lambda>ndata.
     bind_res (bind_res (slice_from data 4) (be_uint 2)) (\<lambda>g2.
     bind_res (copy_at 4 (le_put 2 g2) ndata) (\<lambda>ndata.
     bind_res (bind_res (slice_from data 6) (be_uint 2)) (\<lambda>g3.
     copy_at 6 (le_put 2 g3) ndata))))))"

lemma inspector_EncodeUUID_same: "inspector_EncodeUUID = EncodeUUID"
  by (intro ext) (simp add: inspector_EncodeUUID_def EncodeUUID_def)

text \<open>The loop of \<open>main\<close>: entries that cannot be read are left out.\<close>

fun texts :: "DevicePath list \<Rightarrow> string list res" where
  "texts [] = Ok []"
| "texts (dp # dps) = bind_res (DevicePath_Text dp) (\<lambda>t. bind_res (texts dps) (\<lambda>ts. Ok (t # ts)))"

definition entry_lines :: "LoadOption \<Rightarrow> string list res" where
  "entry_lines lo =
     bind_res (DescriptionString lo) (\<lambda>desc. bind_res (texts (lo_FilePathList lo)) (\<lambda>ts. Ok (desc # ts @ [[]])))"

fun print_entries :: "efi_context \<Rightarrow> u16 list \<Rightarrow> string list res" where
  "print_entries c [] = Ok []"
| "print_entries c (i # is) =
     (case Boot_Get c i of
        Err err \<Rightarrow> print_entries c is
      | Ok (attrs, lo) \<Rightarrow> bind_res (entry_lines lo) (\<lambda>ls. bind_res (print_entries c is) (\<lambda>more. Ok (ls @ more)))
      | Panic p \<Rightarrow> Panic p
      | Blocked \<Rightarrow> Blocked)"

text \<open>
  \<open>main\<close> prints through the vendored decoder and returns before its own \<open>BootEntries\<close>: an error
  of the privileges or of the boot order ends it silently.
\<close>

definition inspector_main :: "priv_env \<Rightarrow> efi_context \<Rightarrow> (string list, string list) io" where
  "inspector_main P c accepted =
     (case inspector_Init P accepted of
        (Panic p, accepted1) \<Rightarrow> (Panic p, accepted1)
      | (Blocked, accepted1) \<Rightarrow> (Blocked, accepted1)
      | (Err err, accepted1) \<Rightarrow> (Ok [], accepted1)
      | (Ok _, accepted1) \<Rightarrow>
          (case BootOrder_Get c of
             Ok (attrs, order) \<Rightarrow> (print_entries c order, accepted1)
           | Err err \<Rightarrow> (Ok [], accepted1)
           | Panic p \<Rightarrow> (Panic p, accepted1)
           | Blocked \<Rightarrow> (Blocked, accepted1)))"

section \<open>What is printed\<close>

text \<open>Reads that end: with a value or an error.\<close>

definition reads_end :: "efi_context \<Rightarrow> bool" where
  "reads_end c \<longleftrightarrow> (\<forall>name. (\<exists>v. ReadAll c name = Ok v) \<or> (\<exists>e. ReadAll c name = Err e))"

text \<open>What one entry of the order contributes.\<close>

definition contributes :: "efi_context \<Rightarrow> u16 \<Rightarrow> string list \<Rightarrow> bool" where
  "contributes c i ls \<longleftrightarrow>
     (case Boot_Get c i of Ok (attrs, lo) \<Rightarrow> entry_lines lo = Ok ls | Err e \<Rightarrow> ls = [] | _ \<Rightarrow> False)"

lemma texts_total: "list_all has_text dps \<Longrightarrow> \<exists>ts. texts dps = Ok ts"
  by (induction dps) (auto simp: has_text_def)

lemma Boot_Get_cases:
  assumes "reads_end c"
  shows "(\<exists>e. Boot_Get c i = Err e) \<or> (\<exists>attrs lo ls. Boot_Get c i = Ok (attrs, lo) \<and> entry_lines lo = Ok ls)"
proof (cases "ReadAll c (boot_option_name i)")
  case (Ok v)
  obtain attrs data where v: "v = (attrs, data)" by (cases v)
  show ?thesis
  proof (cases rule: reads_cases [OF reads_option, of data])
    case (1 lo t)
    then obtain s ts where "DescriptionString lo = Ok s" "texts (lo_FilePathList lo) = Ok ts"
      using UTF16Z_even texts_total unfolding DescriptionString_def by blast
    then have "entry_lines lo = Ok (s # ts @ [[]])" by (simp add: entry_lines_def)
    with 1 Ok v show ?thesis by (simp add: Boot_Get_def)
  next
    case (2 e t)
    with Ok v show ?thesis by (simp add: Boot_Get_def)
  qed
qed (use assms in \<open>auto simp: reads_end_def Boot_Get_def dest: spec [of _ "boot_option_name i"]\<close>)

lemma print_entries_total:
  assumes "reads_end c"
  shows "\<exists>lss. print_entries c is = Ok (concat lss) \<and> list_all2 (contributes c) is lss"
proof (induction "is")
  case Nil
  show ?case by (rule exI [of _ "[]"]) simp
next
  case (Cons i "is")
  then obtain lss where lss: "print_entries c is = Ok (concat lss)" "list_all2 (contributes c) is lss" by blast
  from Boot_Get_cases [OF assms, of i] show ?case
  proof (elim disjE exE conjE)
    fix e assume e: "Boot_Get c i = Err e"
    then have "contributes c i []" by (simp add: contributes_def)
    with lss e show ?thesis by (intro exI [of _ "[] # lss"]) simp
  next
    fix attrs lo ls assume e: "Boot_Get c i = Ok (attrs, lo)" "entry_lines lo = Ok ls"
    then have "contributes c i ls" by (simp add: contributes_def)
    with lss e show ?thesis by (intro exI [of _ "ls # lss"]) simp
  qed
qed

lemma slice_u16_total: "(\<exists>vs. slice_u16 i b = Ok vs) \<or> (\<exists>e. slice_u16 i b = Err e)"
  by (induction i b rule: slice_u16.induct) auto

lemma order_total:
  assumes "reads_end c"
  shows "(\<exists>e. BootOrder_Get c = Err e) \<or> (\<exists>attrs order. BootOrder_Get c = Ok (attrs, order))"
proof -
  from assms consider attrs data where "ReadAll c ''BootOrder'' = Ok (attrs, data)" | e where "ReadAll c ''BootOrder'' = Err e"
    unfolding reads_end_def by (metis surj_pair)
  then show ?thesis
  proof cases
    case 1
    with slice_u16_total [of 0 data] show ?thesis by (auto simp: BootOrder_Get_def)
  next
    case 2
    then show ?thesis by (simp add: BootOrder_Get_def)
  qed
qed

text \<open>
  C36: whatever the boot variables hold, the inspector comes to its end without a panic: it
  prints nothing when its privileges were refused or without a boot order, and otherwise, in
  boot order, the description and the texts of every entry that can be read.
\<close>

theorem inspector_prints:
  assumes "reads_end c"
  shows "\<exists>lss. fst (inspector_main P c accepted) = Ok (concat lss)
    \<and> (if low_accepted P \<and> (\<exists>v. BootOrder_Get c = Ok v)
       then \<exists>attrs order. BootOrder_Get c = Ok (attrs, order) \<and> list_all2 (contributes c) order lss
       else lss = [])"
proof (cases "low_accepted P \<and> (\<exists>v. BootOrder_Get c = Ok v)")
  case True
  then obtain attrs order where o: "BootOrder_Get c = Ok (attrs, order)" by auto
  from print_entries_total [OF assms, of order] obtain lss
    where "print_entries c order = Ok (concat lss)" "list_all2 (contributes c) order lss" by blast
  with True o show ?thesis
    by (intro exI [of _ lss]) (simp add: inspector_main_def inspector_Init_def LowInit_windows_ok)
next
  case False
  have "fst (inspector_main P c accepted) = Ok []"
  proof (cases "low_accepted P")
    case True
    with False order_total [OF assms] obtain e where "BootOrder_Get c = Err e" by blast
    then show ?thesis by (simp add: inspector_main_def inspector_Init_def LowInit_windows_ok [OF True])
  next
    case False
    from LowInit_windows_fails [OF this, of accepted] show ?thesis
      by (auto simp: inspector_main_def inspector_Init_def)
  qed
  with False show ?thesis by (intro exI [of _ "[]"]) simp
qed

text \<open>
  Two entries in the order, one of them stored and the other missing: the stored one is printed.
\<close>

definition sample_store :: efivarfs where
  "sample_store = [getFileName ''BootOrder'' \<mapsto> put_u32 7 @ put_u16 11 @ put_u16 10,
     getFileName (boot_option_name 10) \<mapsto> put_u32 7 @ sample_entry]"

lemma ReadAll_missing: "fs (getFileName name) = None \<Longrightarrow> \<exists>e. ReadAll (FsContext fs) name = Err e"
  by (simp add: ReadAll_def FsContext_def GetSizeHint_def efi_get_def readEfiVarFileName_def fs_get_err_def
      read_all_loop.simps)

lemma boot_option_name_inject: "boot_option_name i = boot_option_name j \<longleftrightarrow> i = j"
  by (metis boot_option_name_def num_val_fmt_04X same_append_eq word_unat_eq_iff)

lemma sample_names:
  "boot_option_name 10 \<noteq> ''BootOrder''" "boot_option_name 11 \<noteq> ''BootOrder''"
  "boot_option_name 11 \<noteq> boot_option_name 10"
proof -
  have "length (boot_option_name 10) = 8" "length (boot_option_name 11) = 8"
    by (simp_all add: boot_option_name_def fmt_04X_def pad4_def num_str.simps)
  then show "boot_option_name 10 \<noteq> ''BootOrder''" "boot_option_name 11 \<noteq> ''BootOrder''" by auto
  show "boot_option_name 11 \<noteq> boot_option_name 10" by (simp add: boot_option_name_inject)
qed

lemma sample_store_reads:
  "ReadAll (FsContext sample_store) ''BootOrder'' = Ok (7, put_u16 11 @ put_u16 10)"
  "ReadAll (FsContext sample_store) (boot_option_name 10) = Ok (7, sample_entry)"
  by (rule ReadAll_exact; use sample_names sample_entry_size in \<open>simp add: sample_store_def\<close>)+

lemma sample_store_end: "reads_end (FsContext sample_store)"
  unfolding reads_end_def
proof
  fix name
  show "(\<exists>v. ReadAll (FsContext sample_store) name = Ok v) \<or> (\<exists>e. ReadAll (FsContext sample_store) name = Err e)"
  proof (cases "name \<in> {''BootOrder'', boot_option_name 10}")
    case True
    then show ?thesis using sample_store_reads by auto
  next
    case False
    then have "sample_store (getFileName name) = None" by (simp add: sample_store_def)
    from ReadAll_missing [where fs = sample_store and name = name, OF this] show ?thesis ..
  qed
qed

theorem inspector_prints_witness:
  "\<exists>d. fst (inspector_main sample_privileges (FsContext sample_store) []) =
     Ok [d, ''Pci(0,3)'', ''SATA Port: 1 PortMul: 65535 LUN: 0'', [], []]"
proof -
  let ?c = "FsContext sample_store"
  have "low_accepted sample_privileges" by (simp add: low_accepted_def sample_privileges_def)
  moreover have order: "BootOrder_Get ?c = Ok (7, [11, 10])"
    using slice_u16_put [of 0 "[11, 10]"] by (simp add: BootOrder_Get_def sample_store_reads)
  ultimately obtain lss where out: "fst (inspector_main sample_privileges ?c []) = Ok (concat lss)"
      and lss: "list_all2 (contributes ?c) [11, 10] lss"
    using inspector_prints [OF sample_store_end, of sample_privileges "[]"] by (auto simp del: list_all2_Cons1)
  from lss obtain l1 l2 where l: "lss = [l1, l2]" "contributes ?c 11 l1" "contributes ?c 10 l2"
    by (auto simp: list_all2_Cons1)
  have "sample_store (getFileName (boot_option_name 11)) = None"
    using sample_names by (simp add: sample_store_def)
  from ReadAll_missing [where fs = sample_store and name = "boot_option_name 11", OF this] have "l1 = []" using l(2) by (auto simp: contributes_def Boot_Get_def)
  moreover obtain d where "l2 = [d, ''Pci(0,3)'', ''SATA Port: 1 PortMul: 65535 LUN: 0'', [], []]"
  proof -
    have "Boot_Get ?c 10 = Ok (7, \<lparr>lo_Attributes = 1, lo_FilePathListLength = 22, lo_Description = put_desc [0x1F600, 65],
        lo_FilePathList = map fst sample_nodes, lo_OptionalData = [9]\<rparr>)"
      by (rule stored_entry)
        (use sample_entry_size sample_names in \<open>simp_all add: sample_store_def sample_entry_def sample_nodes_ok
          desc_text scalar_def\<close>)
    moreover have "texts (map fst sample_nodes) = Ok [''Pci(0,3)'', ''SATA Port: 1 PortMul: 65535 LUN: 0'', []]"
      using sample_texts by (simp add: sample_nodes_def)
    ultimately show thesis using that l(3) by (auto simp: contributes_def entry_lines_def)
  qed
  ultimately show ?thesis using out l(1) by simp
qed

end
