(* ===== verification/Spec2Isabelle.thy ===== *)
theory Spec2Isabelle
  imports Power_Ctl_Correct Disk_Tools_Correct Disk_Format_Correct Mounts_Correct Image_Apply_Correct
    Deployment_Correct Update_Loader_Correct Recording_Correct Network_Correct Dev_Path_Correct
    Daemon_Correct Agent_Start_Correct Archive_Correct Uploads Restart_Race Power_Windows Efi_Guard
    Pid_File Disk_Makers Provisioning Ped_Handles Recording_Pipes Lifecycle Inspector
begin

text \<open>
  The hvl-loader agent: a Go program that runs on the nodes of a network (Linux during
  installation, Windows afterwards), announces itself by multicast and serves gRPC requests
  to partition disks, apply images, repair the boot configuration, transfer files, replace
  itself, record the desktop, and choose what the machine boots next.

  Model.  A Go call is a value of \<open>'a res\<close>: \<open>Ok\<close>, \<open>Err\<close> (a returned \<open>error\<close>), \<open>Panic\<close> or \<open>Blocked\<close>
  (a call that never returns).  Code with state is a function \<open>'s \<Rightarrow> 'a res \<times> 's\<close>, composed by
  \<open>bind_io\<close>; a deferred call is \<open>defer_io\<close>.  Where goroutines share state the component is a step
  relation, one step of one goroutine at a time.  Go's integers are words, or integers with
  the wrap-around written out; strings are lists of characters, one per byte; byte slices are
  lists of \<open>u8\<close>, in the device-path parser with the spare capacity behind the visible part.

  Theories and code.
  \<^item> \<open>Ldr_Prelude\<close>: results, state passing, deferred calls, runs of events; the interfaces
    \<open>bracket\<close> (acquire, use, release), \<open>invariant_machine\<close>, \<open>refinement_map\<close> and
    \<open>monotone_machine\<close>, which the components interpret.
  \<^item> \<open>Go_Strings\<close>, \<open>Go_Fmt\<close>, \<open>Go_Bytes\<close>: what the code uses of \<open>strings\<close>, \<open>strconv\<close>, \<open>fmt\<close>, \<open>path\<close>,
    \<open>encoding/binary\<close>, \<open>encoding/hex\<close> and \<open>unicode/utf16\<close>, with slices and their panics.
  \<^item> \<open>Api\<close>: the messages of \<open>api/loader.pb.go\<close>.
  \<^item> \<open>Efi_Vars\<close> (vendored \<open>uefi\<close> packages): the record \<open>efi_context\<close> is what callers see of an
    \<open>efivario.Context\<close>, \<open>FsContext\<close> the one over the files of efivarfs; the locale \<open>var_store\<close> is
    the contract of reading and writing.  \<open>Efi_Guard\<close>: the guarded write and the removal of a
    variable file with its immutable mark, and when they are the plain write of \<open>Efi_Vars\<close>.
  \<^item> \<open>Power_Ctl\<close> and \<open>Power_Ctl_Correct\<close> (\<open>service/power_ctl.go\<close> with its Linux and Windows parts)
    over a store of variables (\<open>efi_store\<close>) and the system's operations (\<open>power_ops\<close>); the locale
    \<open>order_store\<close> is the contract of the boot order.  \<open>Power_Windows\<close>: the Windows context
    (\<open>efivario/context_windows.go\<close>) over firmware calls, and the service over it.
    \<open>Restart_Race\<close> takes \<open>RestartTo\<close> apart into steps (\<open>order_step\<close>) and runs many at once.
  \<^item> \<open>Disk_Tools\<close>, \<open>Disk_Format\<close>, \<open>Mounts\<close> and their \<open>_Correct\<close> theories
    (\<open>tools/parted/parted_linux.go\<close>, and \<open>FormatDisks\<close> of \<open>service/maintenance_linux.go\<close>):
    look-up of devices, placement of partitions, the partition table over libparted, the two
    loops of \<open>FormatDisks\<close>, mounting and \<open>BCDFix\<close>.  \<open>Disk_Makers\<close> says what a successful
    \<open>FormatDisks\<close> has run, \<open>Provisioning\<close> joins it with \<open>ApplyImage\<close>; both take it that the lists
    of block devices and partitions stay the same after the layout (\<open>keeps\<close>, \<open>steady\<close>).
  \<^item> \<open>Ped_Handles\<close> (the rest of \<open>tools/parted/parted_linux.go\<close>): the wrappers of libparted's
    pointers, sizes and UUIDs, and \<open>Devices\<close>.
  \<^item> \<open>Image_Apply\<close>, \<open>Image_Apply_Correct\<close> (\<open>tools/wim/wim.go\<close>, \<open>ApplyImage\<close>, \<open>ApplyImage2\<close>): the
    decisions of the handlers, and the extracting goroutine with its channels and its deferred
    calls as \<open>wstep\<close>, where the dropped outcome of the last \<open>Unmount\<close> is left open.
  \<^item> \<open>File_Transfer\<close> with \<open>Deployment\<close> (\<open>service/deployment.go\<close>, \<open>Upload\<close> as \<open>ustep\<close>: the receipt of
    a request, a report of a progress goroutine, the rendezvous on \<open>stop\<close>, the last report, and
    the locking and unlocking of the mutex are steps of their own) and \<open>Update_Loader\<close>
    (\<open>service/maintenance.go\<close>); both interpret the locale \<open>chunk_sink\<close>.
  \<^item> \<open>Interleaving\<close>, \<open>Uploads\<close>: any number of \<open>Upload\<close> calls on one file system, by the
    rely-guarantee contract of one call (locale \<open>rely_guarantee\<close>, which \<open>Uploads\<close> interprets
    twice and \<open>Restart_Race\<close> once).
  \<^item> \<open>Win_Session\<close>, \<open>Recording\<close> (\<open>service/recording.go\<close>, \<open>service/recording_windows.go\<close>): the session
    list as bytes in memory, and the recorder as a machine over RPCs and events of its
    progress goroutine.  \<open>Recording_Pipes\<close>: the goroutines that log the encoder, \<open>myReader\<close>, and
    the Linux build (\<open>service/recording_linux.go\<close>).
  \<^item> \<open>Network\<close> (\<open>util/util.go\<close>, \<open>util/network_change.go\<close>, \<open>service/service.go\<close>,
    \<open>service/announce.go\<close>): the notifier and its two listeners, which interpret the locale
    \<open>network_listener\<close>.
  \<^item> \<open>Dev_Path\<close>, \<open>Inspector\<close> (\<open>efiv/efiv.go\<close>, \<open>prog_wim/main.go\<close>): parsers of EFI device paths and
    the program that prints boot entries.  \<open>Load_Option\<close>: the vendored decoder it prints with
    (\<open>efireader\<close>, \<open>efidevicepath\<close>, \<open>efitypes/loadoption.go\<close> of the fork); \<open>Load_Option_Correct\<close>: the
    encodings it reads back, as instances of the locale \<open>byte_codec\<close>.
  \<^item> \<open>Daemon\<close> (\<open>main_linux.go\<close> with the vendored \<open>go-daemon\<close> as \<open>dstep\<close>, from before \<open>Init\<close>, when
    a signal still ends the process, over \<open>signal.Notify\<close> to the loop; \<open>main_windows.go\<close>);
    \<open>Pid_File\<close> (\<open>daemon_unix.go\<close>, \<open>lock_file.go\<close>): any number of starts over one pid file, its
    lock and its inodes, as \<open>pstep\<close>.
  \<^item> \<open>Agent_Start\<close> (\<open>ServiceCtxt.Init\<close> and \<open>Start\<close>, the initialisers of the services, the
    adjustment of Windows privileges, \<open>util/network_change_linux.go\<close> and
    \<open>util/network_change_windows.go\<close>); it ends in the initial state of \<open>Network\<close>.
  \<^item> \<open>Lifecycle\<close>: the signal handling of \<open>Daemon\<close> joined with the agent and its network events
    (\<open>lstep\<close>), the Windows program under the vendored \<open>go-svc\<close> up to the exit code, and how the
    agent comes up on both systems.
  \<^item> \<open>Archive\<close> (\<open>test.go\<close>): the content-addressed archive of a directory tree.

  How the parts interact.  \<open>ServiceCtxt\<close> and the announcer subscribe to the notifier; the
  services answer RPCs independently of each other.  \<open>FormatDisks\<close>, \<open>ApplyImage\<close> and \<open>BCDFix\<close>
  use the look-ups of \<open>Disk_Tools\<close>; \<open>Image_Apply\<close> and \<open>BCDFix\<close> use \<open>Mounts\<close>; \<open>Power_Ctl\<close> uses
  \<open>Efi_Vars\<close>.

  What is shown.  Safety: an accepted upload or update has the announced size and sum; only
  verified files are installed; \<open>BCDFix\<close> keeps mounts balanced and, but for a write cut short,
  other files unchanged; only requested partitions are formatted, on the devices listed for
  them, each existing one exactly once, and an image goes to the device just formatted; boot
  orders are permuted, never lost; a write of a variable leaves its immutable mark as it was;
  at most one daemon is past the lock; the inspector ends without a panic whatever the
  variables hold.  Concurrency: uploads of different files run as if alone, and every run of
  them is well formed; concurrent restart orders permute the boot order.  Progress: complete
  uploads and extractions can always be answered, and a first request to stop the daemon can
  always be carried out.  Functional: when the agent comes up and with which services, what
  the notifier reports, what the boot order is after a restart order.  Refinements: the update
  handler and the recorder against abstract machines, the guarded write against the plain one;
  the Windows service reads a store as the Linux service reads its files.  Round trips of
  descriptions, boot entries, device paths, UUIDs and archives.  Many lemmas show what the code
  does where it goes wrong: two restart orders that both succeed, uploads that are never
  answered, a new partition that overlaps the last one, a failed extraction that is reported as
  a success, a recorder that is lost after a failed start, recordings that leave their handles
  open, a server that never serves again, a daemon that does not end, goes on serving after
  its stop and hangs at the second.

  Parameters.  libparted, wimlib, the block layer, commands, the file system, SHA-1, gzip, the
  Windows API and the firmware's refusals are arguments of the definitions, most of them
  gathered in an environment record per component.  Where a theorem needs something of
  them it is a named hypothesis (for instance \<open>benign\<close>, \<open>calm_loader\<close>, \<open>calm_guard\<close>; \<open>documented\<close> for
  the firmware calls of Windows; \<open>reads_end\<close> for reads of variables that return), and
  its witness gives a concrete environment.

  Bounds and fuel.  No definition uses fuel.  Loops over data are recursions on it; \<open>ReadAll\<close>,
  \<open>GCD\<close>, the delete loop of \<open>FormatDisks\<close>, \<open>ParsePath\<close> and \<open>DevicePaths.ReadFrom\<close> have termination
  proofs; a node of a path takes at least the four bytes of its head.  Loops
  that wait for messages are recursions over the stream, whose end is a client that is
  silent, or transition systems whose runs may be infinite.

  Not modelled.  Generated code beyond the messages; the vendored gRPC package, and of the uefi
  packages the enumeration of variables and the joined text of a path, which the program does
  not use; the contents of netlink messages; and \<open>prog_wim/wim.go\<close>, which does not compile.
  Registration of a service, logging and sleeping have no effect in the model.

  Plan.  Modelled are the handlers and the operations of the program's own packages.  Left: the boot
  repair as the third request of an installation, and calls of \<open>FormatDisks\<close> and \<open>ApplyImage\<close> that
  overlap, which would need steps below the level of one command.
\<close>

end
